(* ===== verification/Prelude.thy ===== *)
theory Prelude
  imports Main "HOL-Library.Word" "HOL-Library.Product_Lexorder"
begin

text \<open>
  Shared vocabulary of the development: the result type of fallible operations and its
  sequencing, the machine-integer types and bounds, decimal printing and parsing, the
  interface of a pair of encoders, and generic list lemmas.
\<close>

subsection \<open>Hint collections\<close>

named_theorems result_simps \<open>inversion rules of the sequencing operations of fallible code\<close>
named_theorems bound_intros \<open>bounds of machine integers\<close>

subsection \<open>Machine integers\<close>

text \<open>
  Bytes are words, so that shifts and masks are those of the code. Values of type
  \<open>u64\<close>, \<open>u32\<close> and \<open>usize\<close> that the code only compares, prints or parses are natural
  numbers below the bound of their type. \<open>usize\<close> has the 64 bits of the supported targets.
\<close>

type_synonym byte = "8 word"
type_synonym bytes = "byte list"
type_synonym u64 = "64 word"

definition u64_bound :: nat where
  "u64_bound = 2 ^ 64"

definition u32_bound :: nat where
  "u32_bound = 2 ^ 32"

definition usize_bound :: nat where
  "usize_bound = 2 ^ 64"

subsection \<open>Results of fallible operations\<close>

text \<open>
  A Rust \<open>Result<T, E>\<close> is \<open>'e + 't\<close> with the error on the left. \<open>attempt\<close> is the
  question-mark operator: it stops at the first error. \<open>ok_or\<close> and \<open>map_err\<close> are the methods of
  the same name on \<open>Option\<close> and \<open>Result\<close>; \<open>try_all\<close> is a \<open>collect\<close> of an iterator
  of results, which also stops at the first error.
\<close>

fun attempt :: "'e + 'a \<Rightarrow> ('a \<Rightarrow> 'e + 'b) \<Rightarrow> 'e + 'b" where
  "attempt (Inl e) f = Inl e"
| "attempt (Inr x) f = f x"

fun ok_or :: "'e \<Rightarrow> 'a option \<Rightarrow> 'e + 'a" where
  "ok_or e None = Inl e"
| "ok_or e (Some x) = Inr x"

fun map_err :: "('e \<Rightarrow> 'f) \<Rightarrow> 'e + 'a \<Rightarrow> 'f + 'a" where
  "map_err f (Inl e) = Inl (f e)"
| "map_err f (Inr x) = Inr x"

fun try_all :: "('a \<Rightarrow> 'e + 'b) \<Rightarrow> 'a list \<Rightarrow> 'e + 'b list" where
  "try_all f [] = Inr []"
| "try_all f (x # xs) = attempt (f x) (\<lambda>y. attempt (try_all f xs) (\<lambda>ys. Inr (y # ys)))"

text \<open>A loop over the elements that threads a state and stops at the first error.\<close>

fun fold_err :: "('s \<Rightarrow> 'a \<Rightarrow> 'e + 's) \<Rightarrow> 's \<Rightarrow> 'a list \<Rightarrow> 'e + 's" where
  "fold_err f s [] = Inr s"
| "fold_err f s (x # xs) = attempt (f s x) (\<lambda>s'. fold_err f s' xs)"

definition is_ok :: "'e + 'a \<Rightarrow> bool" where
  "is_ok r = (case r of Inl _ \<Rightarrow> False | Inr _ \<Rightarrow> True)"

lemma attempt_Inr_iff [result_simps]:
  "attempt m f = Inr y \<longleftrightarrow> (\<exists>x. m = Inr x \<and> f x = Inr y)"
  by (cases m) auto

lemma attempt_Inl_iff [result_simps]:
  "attempt m f = Inl e \<longleftrightarrow> m = Inl e \<or> (\<exists>x. m = Inr x \<and> f x = Inl e)"
  by (cases m) auto

lemma ok_or_Inr_iff [result_simps]: "ok_or e m = Inr y \<longleftrightarrow> m = Some y"
  by (cases m) auto

lemma ok_or_Inl_iff [result_simps]: "ok_or e m = Inl d \<longleftrightarrow> m = None \<and> d = e"
  by (cases m) auto

lemma map_err_Inr_iff [result_simps]: "map_err f m = Inr y \<longleftrightarrow> m = Inr y"
  by (cases m) auto

lemma map_err_Inl_iff [result_simps]: "map_err f m = Inl d \<longleftrightarrow> (\<exists>e. m = Inl e \<and> d = f e)"
  by (cases m) auto

lemma is_ok_simps [simp]: "is_ok (Inr x)" "\<not> is_ok (Inl e)"
  by (simp_all add: is_ok_def)

lemma is_ok_iff [result_simps]: "is_ok r \<longleftrightarrow> (\<exists>x. r = Inr x)"
  by (cases r) auto

lemma is_ok_attempt: "is_ok (attempt m f) \<longleftrightarrow> (\<exists>x. m = Inr x \<and> is_ok (f x))"
  by (cases m) auto

lemma attempt_cong [fundef_cong]:
  "m = n \<Longrightarrow> (\<And>x. n = Inr x \<Longrightarrow> f x = g x) \<Longrightarrow> attempt m f = attempt n g"
  by (cases n) auto

lemma try_all_cong [fundef_cong]:
  "xs = ys \<Longrightarrow> (\<And>x. x \<in> set ys \<Longrightarrow> f x = g x) \<Longrightarrow> try_all f xs = try_all g ys"
  by (induction ys arbitrary: xs) auto

lemma try_all_Inr_iff:
  "try_all f xs = Inr ys \<longleftrightarrow> list_all2 (\<lambda>x y. f x = Inr y) xs ys"
proof (induction xs arbitrary: ys)
  case Nil
  then show ?case by auto
next
  case (Cons x xs)
  then show ?case by (cases ys) (auto simp: attempt_Inr_iff)
qed

lemma try_all_Inl: "try_all f xs = Inl e \<Longrightarrow> \<exists>x \<in> set xs. f x = Inl e"
  by (induction xs) (auto simp: attempt_Inl_iff)

lemma try_all_map_ok: "(\<And>x. x \<in> set xs \<Longrightarrow> f x = Inr (g x)) \<Longrightarrow> try_all f xs = Inr (map g xs)"
  by (induction xs) auto

lemma try_all_length: "try_all f xs = Inr ys \<Longrightarrow> length ys = length xs"
  by (auto simp: try_all_Inr_iff dest: list_all2_lengthD)

lemma fold_err_append: "fold_err f s (xs @ ys) = attempt (fold_err f s xs) (\<lambda>s'. fold_err f s' ys)"
proof (induction xs arbitrary: s)
  case (Cons x xs)
  then show ?case by (cases "f s x") simp_all
qed simp

lemma fold_err_cong [fundef_cong]:
  "xs = ys \<Longrightarrow> s = t \<Longrightarrow> (\<And>x u. x \<in> set ys \<Longrightarrow> f u x = g u x) \<Longrightarrow> fold_err f s xs = fold_err g t ys"
proof (induction ys arbitrary: xs s t)
  case (Cons y ys)
  have "fold_err f u ys = fold_err g u ys" for u using Cons.IH [of ys u u] Cons.prems(3) by simp
  with Cons.prems show ?case by (cases "g t y") auto
qed simp

text \<open>A property kept by every successful step holds at the end of the loop.\<close>

lemma fold_err_invariant:
  assumes "fold_err f s xs = Inr t" and "I s"
    and "\<And>u x v. x \<in> set xs \<Longrightarrow> I u \<Longrightarrow> f u x = Inr v \<Longrightarrow> I v"
  shows "I t"
  using assms
proof (induction xs arbitrary: s)
  case (Cons x xs)
  then obtain u where u: "f s x = Inr u" and t: "fold_err f u xs = Inr t"
    by (auto simp: attempt_Inr_iff)
  have "I u" using Cons.prems(2,3) u by auto
  with Cons.IH [OF t] Cons.prems(3) show ?case by auto
qed simp

subsection \<open>Fallible steps of a state\<close>

text \<open>A step that changes the state and may fail; \<open>and_then\<close> stops at the first failure.\<close>

fun and_then :: "'s \<times> ('e + 'a) \<Rightarrow> ('s \<Rightarrow> 'a \<Rightarrow> 's \<times> ('e + 'b)) \<Rightarrow> 's \<times> ('e + 'b)" where
  "and_then (s, Inl e) f = (s, Inl e)"
| "and_then (s, Inr v) f = f s v"

definition fail_as :: "('e \<Rightarrow> 'f) \<Rightarrow> 's \<times> ('e + 'a) \<Rightarrow> 's \<times> ('f + 'a)" where
  "fail_as f r = (fst r, map_err f (snd r))"

lemma and_then_Inr:
  "and_then r f = (s, Inr v) \<longleftrightarrow> (\<exists>t u. r = (t, Inr u) \<and> f t u = (s, Inr v))"
  by (cases r; cases "snd r") auto

lemma and_then_Inl:
  "and_then r f = (s, Inl e) \<longleftrightarrow> r = (s, Inl e) \<or> (\<exists>t u. r = (t, Inr u) \<and> f t u = (s, Inl e))"
  by (cases r; cases "snd r") auto

lemma fail_as_Inr [simp]: "fail_as f r = (s, Inr v) \<longleftrightarrow> r = (s, Inr v)"
  by (cases r) (auto simp: fail_as_def map_err_Inr_iff)

lemma fail_as_Inl: "fail_as f r = (s, Inl e) \<longleftrightarrow> (\<exists>e'. r = (s, Inl e') \<and> e = f e')"
  by (cases r) (auto simp: fail_as_def map_err_Inl_iff)

text \<open>A predicate of the state that both steps keep is kept by their sequence.\<close>

lemma and_then_keeps:
  assumes "P (fst r)" and "\<And>v. snd r = Inr v \<Longrightarrow> P (fst (f (fst r) v))"
  shows "P (fst (and_then r f))"
  using assms by (cases r; cases "snd r") auto

lemma fail_as_fst [simp]: "fst (fail_as f r) = fst r"
  by (simp add: fail_as_def)

subsection \<open>Decimal numbers\<close>

text \<open>
  \<open>show_nat\<close> is the \<open>Display\<close> of an unsigned integer. \<open>decimal\<close> reads a list of digits;
  \<open>parse_unsigned\<close> is \<open>str::parse\<close> on a string already known to hold only ASCII digits: it
  fails on the empty string and above the bound of the type.
\<close>

definition digit_char :: "nat \<Rightarrow> char" where
  "digit_char d = char_of (48 + d)"

fun show_nat :: "nat \<Rightarrow> string" where
  "show_nat n = (if n < 10 then [digit_char n] else show_nat (n div 10) @ [digit_char (n mod 10)])"

declare show_nat.simps [simp del]

definition is_digit :: "char \<Rightarrow> bool" where
  "is_digit c \<longleftrightarrow> 48 \<le> (of_char c :: nat) \<and> (of_char c :: nat) \<le> 57"

definition decimal :: "string \<Rightarrow> nat" where
  "decimal s = foldl (\<lambda>n c. 10 * n + (of_char c - 48)) 0 s"

definition parse_unsigned :: "nat \<Rightarrow> string \<Rightarrow> nat option" where
  "parse_unsigned bound s =
     (if s = [] \<or> \<not> list_all is_digit s \<or> bound \<le> decimal s then None else Some (decimal s))"

definition show_int :: "int \<Rightarrow> string" where
  "show_int i = (if i < 0 then ''-'' @ show_nat (nat (- i)) else show_nat (nat i))"

lemma is_digit_digit_char [simp]: "d < 10 \<Longrightarrow> is_digit (digit_char d)"
  by (simp add: is_digit_def digit_char_def)

lemma of_char_digit_char [simp]: "d < 10 \<Longrightarrow> (of_char (digit_char d) :: nat) = 48 + d"
  by (simp add: digit_char_def)

lemma show_nat_digits [simp]: "list_all is_digit (show_nat n)"
proof (induction n rule: show_nat.induct)
  case (1 n)
  then show ?case by (simp add: show_nat.simps [of n])
qed

lemma show_nat_nonempty [simp]: "show_nat n \<noteq> []"
  by (simp add: show_nat.simps [of n])

lemma decimal_append: "decimal (s @ [c]) = 10 * decimal s + (of_char c - 48)"
  by (simp add: decimal_def)

lemma decimal_show_nat [simp]: "decimal (show_nat n) = n"
proof (induction n rule: show_nat.induct)
  case (1 n)
  show ?case
  proof (cases "n < 10")
    case True
    then show ?thesis by (simp add: show_nat.simps [of n] decimal_def)
  next
    case False
    with 1 have "decimal (show_nat (n div 10)) = n div 10" by simp
    with False show ?thesis by (simp add: show_nat.simps [of n] decimal_append)
  qed
qed

lemma parse_unsigned_show_nat [simp]: "n < b \<Longrightarrow> parse_unsigned b (show_nat n) = Some n"
  by (simp add: parse_unsigned_def)

lemma show_nat_inject [simp]: "show_nat m = show_nat n \<longleftrightarrow> m = n"
  by (metis decimal_show_nat)

lemma parse_unsigned_bound: "parse_unsigned b s = Some n \<Longrightarrow> n < b"
  by (auto simp: parse_unsigned_def split: if_splits)

lemma digit_not_other: "is_digit c \<Longrightarrow> \<not> is_digit d \<Longrightarrow> c \<noteq> d"
  by auto

lemma show_nat_no_char: "\<not> is_digit c \<Longrightarrow> c \<notin> set (show_nat n)"
  using show_nat_digits [of n] by (auto simp: list_all_iff)

subsection \<open>Big-endian bytes\<close>

text \<open>
  \<open>be_bytes k n\<close> is the low \<open>k\<close> bytes of \<open>n\<close>, most significant first; \<open>be_bytes 8\<close> is
  \<open>u64::to_be_bytes\<close>. \<open>be_nat\<close> reads such a sequence.
\<close>

fun be_bytes :: "nat \<Rightarrow> nat \<Rightarrow> bytes" where
  "be_bytes 0 n = []"
| "be_bytes (Suc k) n = be_bytes k (n div 256) @ [of_nat n]"

definition be_nat :: "bytes \<Rightarrow> nat" where
  "be_nat bs = foldl (\<lambda>n b. 256 * n + unat b) 0 bs"

lemma length_be_bytes [simp]: "length (be_bytes k n) = k"
  by (induction k arbitrary: n) auto

lemma be_nat_simps [simp]: "be_nat [] = 0" "be_nat (bs @ [b]) = 256 * be_nat bs + unat b"
  by (simp_all add: be_nat_def)

lemma unat_of_nat_byte [simp]: "unat (of_nat n :: byte) = n mod 256"
  by (simp add: unat_of_nat)

lemma unat_byte_lt: "unat (b :: byte) < 256"
  using unsigned_less [of b, where 'a = nat] by simp

lemma be_nat_be_bytes: "be_nat (be_bytes k n) = n mod 256 ^ k"
proof (induction k arbitrary: n)
  case (Suc k)
  have "n mod (256 * 256 ^ k) = 256 * (n div 256 mod 256 ^ k) + n mod 256"
    by (rule mod_mult2_eq)
  with Suc show ?case by simp
qed simp

lemma be_nat_bound: "be_nat bs < 256 ^ length bs"
proof (induction bs rule: rev_induct)
  case (snoc b bs)
  then have "256 * be_nat bs + 256 \<le> 256 * 256 ^ length bs" by simp
  with unat_byte_lt [of b] show ?case by simp
qed simp

lemma be_bytes_be_nat [simp]: "be_bytes (length bs) (be_nat bs) = bs"
proof (induction bs rule: rev_induct)
  case (snoc b bs)
  have "(of_nat (256 * be_nat bs + unat b) :: byte) = b"
    by (rule unsigned_word_eqI [where 'a = nat], subst unat_of_nat_byte) (simp add: unat_byte_lt)
  with snoc show ?case using unat_byte_lt [of b] by simp
qed simp

lemma be_bytes_inject: "m < 256 ^ k \<Longrightarrow> n < 256 ^ k \<Longrightarrow> be_bytes k m = be_bytes k n \<longleftrightarrow> m = n"
  by (metis be_nat_be_bytes mod_less)

subsection \<open>The interface of an encoder and its decoder\<close>

text \<open>
  Several components pair an encoder with a decoder: the text of a selector, the base64 text of
  a byte sequence, the context-check response. \<open>codec_pair\<close> states what a client relies on, and
  \<open>canonical_codec\<close> adds that the decoder accepts only what the encoder produces.
\<close>

locale codec_pair =
  fixes encode :: "'a \<Rightarrow> 'b"
    and decode :: "'b \<Rightarrow> 'e + 'a"
    and valid :: "'a \<Rightarrow> bool"
  assumes decode_encode: "valid x \<Longrightarrow> decode (encode x) = Inr x"
begin

lemma encode_inject: "valid x \<Longrightarrow> valid y \<Longrightarrow> encode x = encode y \<longleftrightarrow> x = y"
  by (metis Inr_inject decode_encode)

end

locale canonical_codec = codec_pair +
  assumes encode_decode: "decode y = Inr x \<Longrightarrow> encode x = y"
    and decode_valid: "decode y = Inr x \<Longrightarrow> valid x"
begin

lemma decode_inject: "decode y = Inr x \<Longrightarrow> decode z = Inr x \<Longrightarrow> y = z"
  using encode_decode by metis

lemma decode_iff: "decode y = Inr x \<longleftrightarrow> valid x \<and> encode x = y"
  using decode_encode decode_valid encode_decode by blast

end

subsection \<open>Text\<close>

text \<open>
  Strings of the program are sequences of characters; the model has the 256 of \<open>char\<close>, and its
  white space and control characters are the ASCII ones. \<open>split_once\<close>, \<open>split_words\<close>
  (\<open>split_whitespace\<close>), \<open>trim\<close> and \<open>join\<close> are the string methods the code uses.
\<close>

definition is_space :: "char \<Rightarrow> bool" where
  "is_space c \<longleftrightarrow> (let n = of_char c :: nat in 9 \<le> n \<and> n \<le> 13 \<or> n = 32)"

definition is_control :: "char \<Rightarrow> bool" where
  "is_control c \<longleftrightarrow> (let n = of_char c :: nat in n < 32 \<or> n = 127)"

fun split_once :: "char \<Rightarrow> string \<Rightarrow> (string \<times> string) option" where
  "split_once c [] = None"
| "split_once c (d # s) =
     (if d = c then Some ([], s) else map_option (\<lambda>(a, b). (d # a, b)) (split_once c s))"

text \<open>\<open>words_from w s\<close> splits \<open>s\<close> when \<open>w\<close> is the word read so far.\<close>

fun words_from :: "string \<Rightarrow> string \<Rightarrow> string list" where
  "words_from w [] = (if w = [] then [] else [w])"
| "words_from w (c # s) =
     (if is_space c then (if w = [] then words_from [] s else w # words_from [] s)
      else words_from (w @ [c]) s)"

definition split_words :: "string \<Rightarrow> string list" where
  "split_words s = words_from [] s"

definition trim :: "string \<Rightarrow> string" where
  "trim s = rev (dropWhile is_space (rev (dropWhile is_space s)))"

fun join :: "string \<Rightarrow> string list \<Rightarrow> string" where
  "join sep [] = []"
| "join sep [w] = w"
| "join sep (w # v # ws) = w @ sep @ join sep (v # ws)"

definition word_ok :: "string \<Rightarrow> bool" where
  "word_ok w \<longleftrightarrow> w \<noteq> [] \<and> (\<forall>c \<in> set w. \<not> is_space c)"

lemma split_once_append: "c \<notin> set a \<Longrightarrow> split_once c (a @ c # b) = Some (a, b)"
  by (induction a) auto

lemma split_once_Some: "split_once c s = Some (a, b) \<Longrightarrow> s = a @ c # b \<and> c \<notin> set a"
  by (induction s arbitrary: a) (auto split: if_splits)

lemma words_from_word: "\<forall>c \<in> set v. \<not> is_space c \<Longrightarrow> words_from w (v @ s) = words_from (w @ v) s"
  by (induction v arbitrary: w) auto

lemma is_space_blank [simp]: "is_space CHR '' ''"
  by (simp add: is_space_def)

lemma split_words_join: "\<forall>w \<in> set ws. word_ok w \<Longrightarrow> split_words (join '' '' ws) = ws"
proof (induction ws rule: induct_list012)
  case (2 w)
  then show ?case using words_from_word [of w "[]" "[]"] by (simp add: split_words_def word_ok_def)
next
  case (3 w v ws)
  then show ?case using words_from_word [of w "[]" "'' '' @ join '' '' (v # ws)"]
    by (simp add: split_words_def word_ok_def)
qed (simp add: split_words_def)

lemma words_from_ok:
  "v \<in> set (words_from w s) \<Longrightarrow> \<forall>c \<in> set w. \<not> is_space c \<Longrightarrow> word_ok v"
proof (induction w s rule: words_from.induct)
  case (2 w c s)
  then show ?case by (cases "is_space c"; cases "w = []") (auto simp: word_ok_def)
qed (auto simp: word_ok_def split: if_splits)

lemma split_words_ok: "v \<in> set (split_words s) \<Longrightarrow> word_ok v"
  by (auto simp: split_words_def dest: words_from_ok)

lemma trim_word: "word_ok w \<Longrightarrow> trim w = w"
proof -
  assume "word_ok w"
  then have "dropWhile is_space w = w" and "dropWhile is_space (rev w) = rev w"
    by (simp_all add: word_ok_def dropWhile_eq_self_iff hd_rev)
  then show ?thesis by (simp add: trim_def)
qed

lemma word_ok_append: "word_ok v \<Longrightarrow> \<forall>c \<in> set p. \<not> is_space c \<Longrightarrow> word_ok (p @ v)"
  by (auto simp: word_ok_def)

lemma digit_not_space: "is_digit c \<Longrightarrow> \<not> is_space c"
  by (auto simp: is_digit_def is_space_def Let_def)

lemma show_nat_word [simp]: "word_ok (show_nat n)"
  using show_nat_digits [of n] by (auto simp: word_ok_def list_all_iff dest: digit_not_space)

subsection \<open>Lists\<close>

lemma find_Some_iff2: "List.find P xs = Some x \<Longrightarrow> x \<in> set xs \<and> P x"
  by (induction xs) (auto split: if_splits)

lemma find_None_iff2: "List.find P xs = None \<longleftrightarrow> (\<forall>x \<in> set xs. \<not> P x)"
  by (induction xs) auto

end
