(* ===== verification/Values.thy ===== *)
theory Values
  imports Prelude "HOL-Library.Char_ord" "HOL-Library.List_Lexorder"
begin

text \<open>
  The two value types the code handles: \<open>serde_json::Value\<close> for the datastore tree and
  \<open>ciborium::value::Value\<close> for the encoded context, with the accessors the code uses. A JSON
  object is an association list in the order in which the library iterates it (by key); a CBOR
  map is the vector of pairs it is in the library, duplicates included. Floating-point numbers are
  carried as their bit pattern; the code passes them through, and compares them only as keys of CBOR
  maps.
\<close>

subsection \<open>JSON values\<close>

datatype json_number = PosInt nat | NegInt int | Float u64

datatype json =
    JNull
  | JBool bool
  | JNumber json_number
  | JString string
  | JArray "json list"
  | JObject "(string \<times> json) list"

definition i64_max :: int where
  "i64_max = 2 ^ 63 - 1"

text \<open>The unchecked sum of two \<open>i64\<close>, as a release build computes it.\<close>

definition i64_wrap :: "int \<Rightarrow> int" where
  "i64_wrap i = (i + 2 ^ 63) mod 2 ^ 64 - 2 ^ 63"

lemma i64_wrap_id [simp]: "- (2 ^ 63) \<le> i \<Longrightarrow> i < 2 ^ 63 \<Longrightarrow> i64_wrap i = i"
  by (simp add: i64_wrap_def)

lemma i64_wrap_sum [simp]: "i64_wrap (i64_wrap i + j) = i64_wrap (i + j)"
proof -
  have "i64_wrap i + j + 2 ^ 63 = (i + 2 ^ 63) mod 2 ^ 64 + j" by (simp add: i64_wrap_def)
  also have "\<dots> mod 2 ^ 64 = (i + 2 ^ 63 + j) mod 2 ^ 64" by (rule mod_add_left_eq)
  also have "i + 2 ^ 63 + j = i + j + 2 ^ 63" by simp
  finally show ?thesis unfolding i64_wrap_def [of "i64_wrap i + j"] i64_wrap_def [of "i + j"] by (rule arg_cong)
qed

fun as_u64 :: "json \<Rightarrow> nat option" where
  "as_u64 (JNumber (PosInt n)) = Some n"
| "as_u64 _ = None"

fun as_i64 :: "json \<Rightarrow> int option" where
  "as_i64 (JNumber (PosInt n)) = (if int n \<le> i64_max then Some (int n) else None)"
| "as_i64 (JNumber (NegInt i)) = Some i"
| "as_i64 _ = None"

fun as_array :: "json \<Rightarrow> json list option" where
  "as_array (JArray vs) = Some vs"
| "as_array _ = None"

fun as_object :: "json \<Rightarrow> (string \<times> json) list option" where
  "as_object (JObject es) = Some es"
| "as_object _ = None"

fun get_key :: "json \<Rightarrow> string \<Rightarrow> json option" where
  "get_key (JObject es) k = map_of es k"
| "get_key _ k = None"

abbreviation get_u64 :: "json \<Rightarrow> string \<Rightarrow> nat option" where
  "get_u64 v k \<equiv> Option.bind (get_key v k) as_u64"

text \<open>\<open>Map::insert\<close>: replace the value of a present key, else insert in key order.\<close>

fun obj_insert :: "string \<Rightarrow> json \<Rightarrow> (string \<times> json) list \<Rightarrow> (string \<times> json) list" where
  "obj_insert k v [] = [(k, v)]"
| "obj_insert k v ((k', v') # es) =
     (if k = k' then (k, v) # es
      else if k < k' then (k, v) # (k', v') # es
      else (k', v') # obj_insert k v es)"

lemma map_of_obj_insert:
  assumes "sorted (map fst es)"
  shows "map_of (obj_insert k v es) j = (if j = k then Some v else map_of es j)"
  using assms by (induction k v es rule: obj_insert.induct) auto

lemma set_obj_insert: "fst ` set (obj_insert k v es) = insert k (fst ` set es)"
  by (induction k v es rule: obj_insert.induct) auto

lemma sorted_obj_insert:
  "sorted (map fst es) \<Longrightarrow> sorted (map fst (obj_insert k v es))"
proof (induction k v es rule: obj_insert.induct)
  case (2 k v k' v' es)
  have "\<forall>j \<in> fst ` set (obj_insert k v es). k' \<le> j" if "\<not> k < k'" and "sorted (map fst ((k', v') # es))"
    using that by (auto simp: set_obj_insert not_less)
  with 2 show ?case by auto
qed simp

lemma map_of_obj_insert_same: "map_of (obj_insert k v es) k = Some v"
  by (induction k v es rule: obj_insert.induct) auto

subsection \<open>CBOR values\<close>

datatype cbor =
    CInteger int
  | CBytes bytes
  | CFloat u64
  | CText string
  | CBool bool
  | CNull
  | CTag nat cbor
  | CArray "cbor list"
  | CMap "(cbor \<times> cbor) list"

text \<open>
  Equality of two values, derived in the library: floats compare as numbers, so that the two zeros are
  equal and no NaN is equal to anything. All else is structural.
\<close>

definition f64_magnitude :: "u64 \<Rightarrow> u64" where
  "f64_magnitude w = and w 0x7FFFFFFFFFFFFFFF"

definition f64_eq :: "u64 \<Rightarrow> u64 \<Rightarrow> bool" where
  "f64_eq a b \<longleftrightarrow>
     a = b \<and> f64_magnitude a \<le> 0x7FF0000000000000 \<or> f64_magnitude a = 0 \<and> f64_magnitude b = 0"

function cbor_eq :: "cbor \<Rightarrow> cbor \<Rightarrow> bool"
  and cbor_eq_list :: "cbor list \<Rightarrow> cbor list \<Rightarrow> bool"
  and cbor_eq_entries :: "(cbor \<times> cbor) list \<Rightarrow> (cbor \<times> cbor) list \<Rightarrow> bool" where
  "cbor_eq (CInteger i) w \<longleftrightarrow> w = CInteger i"
| "cbor_eq (CBytes bs) w \<longleftrightarrow> w = CBytes bs"
| "cbor_eq (CFloat a) w \<longleftrightarrow> (case w of CFloat b \<Rightarrow> f64_eq a b | _ \<Rightarrow> False)"
| "cbor_eq (CText t) w \<longleftrightarrow> w = CText t"
| "cbor_eq (CBool b) w \<longleftrightarrow> w = CBool b"
| "cbor_eq CNull w \<longleftrightarrow> w = CNull"
| "cbor_eq (CTag n v) w \<longleftrightarrow> (case w of CTag m u \<Rightarrow> n = m \<and> cbor_eq v u | _ \<Rightarrow> False)"
| "cbor_eq (CArray vs) w \<longleftrightarrow> (case w of CArray ws \<Rightarrow> cbor_eq_list vs ws | _ \<Rightarrow> False)"
| "cbor_eq (CMap es) w \<longleftrightarrow> (case w of CMap fs \<Rightarrow> cbor_eq_entries es fs | _ \<Rightarrow> False)"
| "cbor_eq_list [] ws \<longleftrightarrow> ws = []"
| "cbor_eq_list (v # vs) ws \<longleftrightarrow> (case ws of [] \<Rightarrow> False | w # ws \<Rightarrow> cbor_eq v w \<and> cbor_eq_list vs ws)"
| "cbor_eq_entries [] fs \<longleftrightarrow> fs = []"
| "cbor_eq_entries ((k, v) # es) fs \<longleftrightarrow>
     (case fs of [] \<Rightarrow> False | (k', v') # fs \<Rightarrow> cbor_eq k k' \<and> cbor_eq v v' \<and> cbor_eq_entries es fs)"
  by pat_completeness auto
termination
  by (relation "measure (case_sum (\<lambda>p. size (fst p)) (case_sum (\<lambda>p. size_list size (fst p))
        (\<lambda>p. size_list (size_prod size size) (fst p))))") auto

text \<open>The well-formedness the strict loaders check: no map, at any depth, repeats a key.\<close>

fun distinct_keys :: "cbor \<Rightarrow> bool" where
  "distinct_keys (CArray vs) \<longleftrightarrow> (\<forall>v \<in> set vs. distinct_keys v)"
| "distinct_keys (CMap es) \<longleftrightarrow>
     sorted_wrt (\<lambda>k l. \<not> cbor_eq k l) (map fst es) \<and> (\<forall>e \<in> set es. distinct_keys (fst e) \<and> distinct_keys (snd e))"
| "distinct_keys (CTag _ v) \<longleftrightarrow> distinct_keys v"
| "distinct_keys _ \<longleftrightarrow> True"

end
