(* ===== verification/Allocation.thy ===== *)
theory Allocation
  imports Prelude
begin

text \<open>
  RuleIDs and their deterministic allocation (\<open>src/allocation.rs\<close>). A RuleID is a bit string:
  a value and its bit length. A namespace reserves the subtree below a prefix and allows new
  leaves at some depths; \<open>allocate\<close> returns the first free leaf, in the order of depth and then
  of value. The values are natural numbers: \<open>allocate_no_overflow\<close> shows that every
  intermediate value of the code's \<open>u64\<close> arithmetic stays within 33 bits.
\<close>

subsection \<open>Identities\<close>

text \<open>The codec's identity type, of which the code uses the two components.\<close>

record rule_id =
  id_value :: nat
  bit_len :: nat

abbreviation RuleId :: "nat \<Rightarrow> nat \<Rightarrow> rule_id" where
  "RuleId v n \<equiv> \<lparr>id_value = v, bit_len = n\<rparr>"

datatype rule_id_tree_error =
    Invalid string
  | Collision nat nat
  | Exhausted

record rule_id_spec =
  spec_value :: nat
  spec_length :: nat

definition rule_id_spec_new :: "nat \<Rightarrow> nat \<Rightarrow> rule_id_tree_error + rule_id_spec" where
  "rule_id_spec_new v len =
     (if \<not> (1 \<le> len \<and> len \<le> 32) then
        Inl (Invalid (''explicit RuleID length must be 1..=32; length '' @ show_nat len
               @ '' is unsupported by this codec''))
      else if u32_bound \<le> v then
        Inl (Invalid (''RuleID value '' @ show_nat v @ '' exceeds the uint32 range''))
      else if push_bit len 1 \<le> v then
        Inl (Invalid (''RuleID value '' @ show_nat v @ '' does not fit in '' @ show_nat len @ '' bits''))
      else Inr \<lparr>spec_value = v, spec_length = len\<rparr>)"

definition spec_rule_id :: "rule_id_spec \<Rightarrow> rule_id" where
  "spec_rule_id s = RuleId (spec_value s) (spec_length s)"

subsection \<open>The namespace\<close>

record namespace =
  prefix :: rule_id_spec
  allowed_lengths :: "nat list"

text \<open>\<open>validate\<close> sorts the depths and drops repeated ones, then checks each of them.\<close>

definition validate :: "namespace \<Rightarrow> rule_id_tree_error + namespace" where
  "validate ns =
     attempt (rule_id_spec_new (spec_value (prefix ns)) (spec_length (prefix ns))) (\<lambda>p.
       let lengths = remdups_adj (sort (allowed_lengths ns)) in
       if lengths = [] then
         Inl (Invalid ''dynamic RuleID namespace requires at least one allowed length'')
       else case List.find (\<lambda>len. \<not> (spec_length p + 1 \<le> len \<and> len \<le> 32)) lengths of
         Some len \<Rightarrow> Inl (Invalid (''dynamic RuleID length '' @ show_nat len
                      @ '' is outside prefix depth '' @ show_nat (spec_length p) @ ''..=32''))
       | None \<Rightarrow> Inr \<lparr>prefix = p, allowed_lengths = lengths\<rparr>)"

record context_profile =
  dynamic_rule_ids :: "namespace option"

definition profile_validate :: "context_profile \<Rightarrow> rule_id_tree_error + context_profile" where
  "profile_validate p =
     (case dynamic_rule_ids p of
        None \<Rightarrow> Inr \<lparr>dynamic_rule_ids = None\<rparr>
      | Some ns \<Rightarrow> attempt (validate ns) (\<lambda>n. Inr \<lparr>dynamic_rule_ids = Some n\<rparr>))"

definition is_prefix :: "rule_id \<Rightarrow> rule_id \<Rightarrow> bool" where
  "is_prefix p v =
     (if bit_len p > bit_len v then False
      else drop_bit (bit_len v - bit_len p) (id_value v) = id_value p)"

definition overlaps :: "rule_id \<Rightarrow> rule_id \<Rightarrow> bool" where
  "overlaps l r \<longleftrightarrow> is_prefix l r \<or> is_prefix r l"

definition accepts_normalized :: "namespace \<Rightarrow> rule_id \<Rightarrow> bool" where
  "accepts_normalized ns i \<longleftrightarrow>
     bit_len i \<in> set (allowed_lengths ns) \<and> is_prefix (spec_rule_id (prefix ns)) i"

definition accepts :: "namespace \<Rightarrow> rule_id \<Rightarrow> bool" where
  "accepts ns i = (case validate ns of Inl _ \<Rightarrow> False | Inr n \<Rightarrow> accepts_normalized n i)"

subsection \<open>Searching one depth\<close>

definition candidate_range :: "rule_id_spec \<Rightarrow> nat \<Rightarrow> nat \<times> nat" where
  "candidate_range p len =
     (let suffix = len - spec_length p; start = push_bit suffix (spec_value p)
      in (start, start + push_bit suffix 1))"

text \<open>The interval of leaves at depth \<open>len\<close> that an occupied identity blocks.\<close>

definition leaf_interval :: "nat \<Rightarrow> rule_id \<Rightarrow> nat \<times> nat" where
  "leaf_interval len i =
     (if bit_len i \<le> len then
        (let shift = len - bit_len i; start = push_bit shift (id_value i)
         in (start, start + push_bit shift 1))
      else (let start = drop_bit (bit_len i - len) (id_value i) in (start, start + 1)))"

definition clip :: "nat \<times> nat \<Rightarrow> nat \<times> nat \<Rightarrow> (nat \<times> nat) option" where
  "clip r iv =
     (if snd iv > fst r \<and> fst iv < snd r
      then Some (max (fst iv) (fst r), min (snd iv) (snd r)) else None)"

text \<open>
  The merging loop keeps its result in reverse, so that the interval the code reads with
  \<open>last_mut\<close> is the head.
\<close>

fun merge_intervals :: "(nat \<times> nat) list \<Rightarrow> (nat \<times> nat) list \<Rightarrow> (nat \<times> nat) list" where
  "merge_intervals merged [] = rev merged"
| "merge_intervals [] (iv # ivs) = merge_intervals [iv] ivs"
| "merge_intervals ((ls, le) # merged) ((s, e) # ivs) =
     (if s \<le> le then merge_intervals ((ls, max le e) # merged) ivs
      else merge_intervals ((s, e) # (ls, le) # merged) ivs)"

definition blocked_intervals :: "nat \<times> nat \<Rightarrow> rule_id list \<Rightarrow> nat \<Rightarrow> (nat \<times> nat) list" where
  "blocked_intervals r occupied len =
     merge_intervals [] (sort (List.map_filter (\<lambda>i. clip r (leaf_interval len i)) occupied))"

fun first_free_from :: "nat \<Rightarrow> nat \<Rightarrow> (nat \<times> nat) list \<Rightarrow> nat option" where
  "first_free_from c hi [] = (if c < hi then Some c else None)"
| "first_free_from c hi ((s, e) # ivs) =
     (if e \<le> c then first_free_from c hi ivs
      else if s > c then (if c < hi then Some c else None)
      else if e \<ge> hi then None
      else first_free_from e hi ivs)"

definition first_free :: "nat \<times> nat \<Rightarrow> (nat \<times> nat) list \<Rightarrow> nat option" where
  "first_free r blocked = first_free_from (fst r) (snd r) blocked"

subsection \<open>Allocation\<close>

fun allocate_depths :: "rule_id_spec \<Rightarrow> rule_id list \<Rightarrow> nat list \<Rightarrow> rule_id_tree_error + rule_id" where
  "allocate_depths p occupied [] = Inl Exhausted"
| "allocate_depths p occupied (len # lens) =
     (let r = candidate_range p len in
      case first_free r (blocked_intervals r occupied len) of
        Some v \<Rightarrow> Inr (RuleId v len)
      | None \<Rightarrow> allocate_depths p occupied lens)"

definition allocate :: "namespace \<Rightarrow> rule_id list \<Rightarrow> rule_id_tree_error + rule_id" where
  "allocate ns ids =
     attempt (validate ns) (\<lambda>n.
     attempt (try_all (\<lambda>i. attempt (rule_id_spec_new (id_value i) (bit_len i)) (\<lambda>_. Inr i)) ids)
       (\<lambda>occupied.
       if list_ex (\<lambda>i. overlaps i (spec_rule_id (prefix n)) \<and> \<not> accepts_normalized n i) occupied
       then Inl (Collision (spec_value (prefix n)) (spec_length (prefix n)))
       else allocate_depths (prefix n) occupied (allowed_lengths n)))"

subsection \<open>What validation establishes\<close>

definition valid_id :: "rule_id \<Rightarrow> bool" where
  "valid_id i \<longleftrightarrow> 1 \<le> bit_len i \<and> bit_len i \<le> 32 \<and> id_value i < 2 ^ bit_len i"

definition valid_namespace :: "namespace \<Rightarrow> bool" where
  "valid_namespace ns \<longleftrightarrow> valid_id (spec_rule_id (prefix ns)) \<and> allowed_lengths ns \<noteq> [] \<and>
     sorted (allowed_lengths ns) \<and> distinct (allowed_lengths ns) \<and>
     (\<forall>len \<in> set (allowed_lengths ns). spec_length (prefix ns) < len \<and> len \<le> 32)"

lemma pow_le_u32: "n \<le> 32 \<Longrightarrow> (2::nat) ^ n \<le> u32_bound"
  unfolding u32_bound_def by (rule power_increasing) auto

lemma rule_id_spec_new_Inr_iff:
  "rule_id_spec_new v len = Inr s \<longleftrightarrow>
     valid_id (RuleId v len) \<and> s = \<lparr>spec_value = v, spec_length = len\<rparr>"
  using pow_le_u32 [of len]
  by (auto simp: rule_id_spec_new_def valid_id_def push_bit_eq_mult split: if_splits)

lemma remdups_adj_sorted_distinct: "sorted xs \<Longrightarrow> distinct (remdups_adj (xs :: nat list))"
  by (induction xs rule: remdups_adj.induct) auto

lemma sorted_unique_id: "sorted xs \<Longrightarrow> distinct (xs :: nat list) \<Longrightarrow> remdups_adj (sort xs) = xs"
proof -
  have "distinct xs \<Longrightarrow> remdups_adj xs = xs"
    by (induction xs rule: remdups_adj.induct) auto
  then show "sorted xs \<Longrightarrow> distinct xs \<Longrightarrow> ?thesis"
    by (simp add: sort_key_id_if_sorted)
qed

lemma validate_Inr_iff:
  "validate ns = Inr n \<longleftrightarrow>
     valid_namespace n \<and> prefix n = prefix ns \<and> allowed_lengths n = remdups_adj (sort (allowed_lengths ns))"
proof -
  let ?ls = "remdups_adj (sort (allowed_lengths ns))"
  let ?p = "prefix ns"
  have id: "\<lparr>spec_value = spec_value ?p, spec_length = spec_length ?p\<rparr> = ?p"
    by simp
  have "validate ns = Inr n \<longleftrightarrow> valid_id (spec_rule_id ?p) \<and> ?ls \<noteq> [] \<and>
      (\<forall>len \<in> set ?ls. Suc (spec_length ?p) \<le> len \<and> len \<le> 32) \<and>
      n = \<lparr>prefix = ?p, allowed_lengths = ?ls\<rparr>"
    unfolding validate_def attempt_Inr_iff rule_id_spec_new_Inr_iff spec_rule_id_def Let_def id
    by (auto simp: find_None_iff2 simp del: remdups_adj_set set_sort split: option.splits
        dest: find_Some_iff2)
  moreover have "sorted ?ls" and "distinct ?ls"
    by (simp_all add: sorted_remdups_adj remdups_adj_sorted_distinct)
  ultimately show ?thesis
    by (cases n) (auto simp: valid_namespace_def Suc_le_eq)
qed

lemma validate_idem: "validate ns = Inr n \<Longrightarrow> validate n = Inr n"
  by (auto simp: validate_Inr_iff valid_namespace_def sorted_unique_id)

lemma accepts_iff: "validate ns = Inr n \<Longrightarrow> accepts ns i \<longleftrightarrow> accepts_normalized n i"
  by (simp add: accepts_def)

lemma validate_ids:
  "try_all (\<lambda>i. attempt (rule_id_spec_new (id_value i) (bit_len i)) (\<lambda>_. Inr i)) ids = Inr occ
     \<longleftrightarrow> occ = ids \<and> list_all valid_id ids"
proof -
  have *: "attempt (rule_id_spec_new (id_value i) (bit_len i)) (\<lambda>_. Inr i) = Inr j
      \<longleftrightarrow> i = j \<and> valid_id j" for i j :: rule_id
    by (cases i) (auto simp: attempt_Inr_iff rule_id_spec_new_Inr_iff)
  show ?thesis
  proof (induction ids arbitrary: occ)
    case (Cons i ids)
    have "try_all (\<lambda>i. attempt (rule_id_spec_new (id_value i) (bit_len i)) (\<lambda>_. Inr i)) (i # ids) = Inr occ
        \<longleftrightarrow> valid_id i \<and> (\<exists>ys. try_all (\<lambda>i. attempt (rule_id_spec_new (id_value i) (bit_len i)) (\<lambda>_. Inr i)) ids
          = Inr ys \<and> occ = i # ys)"
      unfolding try_all.simps attempt_Inr_iff [of _ "\<lambda>y. attempt _ (_ y)"] * by (auto simp: attempt_Inr_iff)
    then show ?case by (auto simp: Cons.IH)
  qed auto
qed

subsection \<open>Prefixes\<close>

lemma is_prefix_refl [simp]: "is_prefix i i"
  by (simp add: is_prefix_def)

lemma overlaps_refl [simp]: "overlaps i i"
  by (simp add: overlaps_def)

lemma overlaps_sym: "overlaps i j \<longleftrightarrow> overlaps j i"
  by (auto simp: overlaps_def)

lemma is_prefix_div:
  "is_prefix p v \<longleftrightarrow> bit_len p \<le> bit_len v \<and> id_value v div 2 ^ (bit_len v - bit_len p) = id_value p"
  by (auto simp: is_prefix_def drop_bit_eq_div)

lemma is_prefix_trans:
  assumes "is_prefix a b" and "is_prefix b c"
  shows "is_prefix a c"
proof -
  have "bit_len c - bit_len a = (bit_len c - bit_len b) + (bit_len b - bit_len a)"
    using assms by (simp add: is_prefix_div)
  then have "id_value c div 2 ^ (bit_len c - bit_len a)
      = id_value c div 2 ^ (bit_len c - bit_len b) div 2 ^ (bit_len b - bit_len a)"
    by (simp add: power_add div_mult2_eq)
  with assms show ?thesis by (simp add: is_prefix_div)
qed

lemma is_prefix_same_len: "bit_len i = bit_len j \<Longrightarrow> is_prefix i j \<longleftrightarrow> i = j"
  by (cases i; cases j) (auto simp: is_prefix_div)

subsection \<open>Intervals\<close>

text \<open>A point is covered when an interval of the list holds it.\<close>

definition covered :: "(nat \<times> nat) list \<Rightarrow> nat \<Rightarrow> bool" where
  "covered ivs v \<longleftrightarrow> (\<exists>iv \<in> set ivs. fst iv \<le> v \<and> v < snd iv)"

lemma covered_simps [simp]:
  "\<not> covered [] v"
  "covered (iv # ivs) v \<longleftrightarrow> fst iv \<le> v \<and> v < snd iv \<or> covered ivs v"
  "covered (xs @ ys) v \<longleftrightarrow> covered xs v \<or> covered ys v"
  "covered (rev xs) v \<longleftrightarrow> covered xs v"
  "covered (sort xs) v \<longleftrightarrow> covered xs v"
  by (auto simp: covered_def)

lemma block_div: "(d::nat) > 0 \<Longrightarrow> a * d \<le> v \<and> v < a * d + d \<longleftrightarrow> v div d = a"
  by (metis add.commute div_mult_mod_eq div_nat_eqI le_add1 mod_less_divisor mult.commute
      mult_Suc_right nat_add_left_cancel_less)

lemma leaf_interval_overlaps:
  "fst (leaf_interval len i) \<le> v \<and> v < snd (leaf_interval len i) \<longleftrightarrow> overlaps i (RuleId v len)"
proof (cases "bit_len i \<le> len")
  case True
  have "is_prefix (RuleId v len) i \<Longrightarrow> is_prefix i (RuleId v len)"
    using True by (auto simp: is_prefix_div)
  then have "overlaps i (RuleId v len) \<longleftrightarrow> v div 2 ^ (len - bit_len i) = id_value i"
    using True by (auto simp: overlaps_def is_prefix_div)
  with True show ?thesis
    by (simp add: leaf_interval_def Let_def push_bit_eq_mult block_div)
next
  case False
  then show ?thesis
    by (auto simp: leaf_interval_def Let_def overlaps_def is_prefix_div drop_bit_eq_div)
qed

lemma candidate_range_prefix:
  "fst (candidate_range p len) \<le> v \<and> v < snd (candidate_range p len)
     \<longleftrightarrow> v div 2 ^ (len - spec_length p) = spec_value p"
  by (simp add: candidate_range_def Let_def push_bit_eq_mult block_div)

lemma clip_covered:
  assumes "fst r \<le> v" and "v < snd r"
  shows "covered (List.map_filter (\<lambda>i. clip r (f i)) is) v
     \<longleftrightarrow> (\<exists>i \<in> set is. fst (f i) \<le> v \<and> v < snd (f i))"
  using assms
  by (induction "is") (auto simp: List.map_filter_simps clip_def)

lemma merge_intervals_covered:
  assumes "sorted (map fst ivs)" and "merged \<noteq> [] \<Longrightarrow> ivs \<noteq> [] \<Longrightarrow> fst (hd merged) \<le> fst (hd ivs)"
  shows "covered (merge_intervals merged ivs) v \<longleftrightarrow> covered merged v \<or> covered ivs v"
  using assms
proof (induction merged ivs rule: merge_intervals.induct)
  case (3 ls le merged s e ivs)
  then show ?case
    by (cases ivs) (auto simp: max_def)
qed (auto split: list.splits)

lemma merge_intervals_sorted:
  assumes "sorted (map fst ivs)" and "merged \<noteq> [] \<Longrightarrow> ivs \<noteq> [] \<Longrightarrow> fst (hd merged) \<le> fst (hd ivs)"
    and "sorted_wrt (\<lambda>x y. fst y \<le> fst x) merged"
  shows "sorted (map fst (merge_intervals merged ivs))"
  using assms
proof (induction merged ivs rule: merge_intervals.induct)
  case (1 merged)
  then show ?case by (simp add: sorted_map sorted_wrt_rev)
next
  case (2 iv ivs)
  then show ?case by (cases ivs) auto
next
  case (3 ls le merged s e ivs)
  show ?case
  proof (cases "s \<le> le")
    case True
    with 3 show ?thesis by (cases ivs) auto
  next
    case False
    have "sorted_wrt (\<lambda>x y. fst y \<le> fst x) ((s, e) # (ls, le) # merged)"
      using "3.prems" by (auto intro: le_trans)
    with False 3 show ?thesis by (cases ivs) auto
  qed
qed

lemma sorted_fst: "sorted ivs \<Longrightarrow> sorted (map fst (ivs :: (nat \<times> nat) list))"
  by (induction ivs) (auto simp: less_eq_prod_def)

lemma merge_sorted_covered:
  "covered (merge_intervals [] (sort ivs)) v \<longleftrightarrow> covered ivs v"
  using merge_intervals_covered [of "sort ivs" "[]" v] sorted_fst [OF sorted_sort, of ivs] by simp

lemma merge_sorted_sorted: "sorted (map fst (merge_intervals [] (sort ivs)))"
  using merge_intervals_sorted [of "sort ivs" "[]"] sorted_fst [OF sorted_sort, of ivs] by simp

lemma blocked_intervals_covered:
  assumes "fst r \<le> v" and "v < snd r"
  shows "covered (blocked_intervals r occ len) v \<longleftrightarrow> (\<exists>i \<in> set occ. overlaps i (RuleId v len))"
  using assms
  by (simp add: blocked_intervals_def merge_sorted_covered clip_covered leaf_interval_overlaps)

lemma blocked_intervals_sorted: "sorted (map fst (blocked_intervals r occ len))"
  by (simp add: blocked_intervals_def merge_sorted_sorted)

lemma first_free_from_Some:
  assumes "first_free_from c hi ivs = Some v" and "sorted (map fst ivs)"
  shows "c \<le> v \<and> v < hi \<and> \<not> covered ivs v \<and> (\<forall>u. c \<le> u \<longrightarrow> u < v \<longrightarrow> covered ivs u)"
  using assms
proof (induction c hi ivs rule: first_free_from.induct)
  case (2 c hi s e ivs)
  have later: "c < s \<Longrightarrow> \<not> covered ivs c"
    using "2.prems"(2) by (fastforce simp: covered_def)
  show ?case
    using "2.prems" "2.IH" later by (auto split: if_splits) (meson le_trans linorder_not_le)+
qed (auto split: if_splits)

lemma first_free_from_None:
  "first_free_from c hi ivs = None \<Longrightarrow> c \<le> u \<Longrightarrow> u < hi \<Longrightarrow> covered ivs u"
proof (induction c hi ivs rule: first_free_from.induct)
  case (2 c hi s e ivs)
  then show ?case by (auto split: if_splits) (meson le_trans linorder_not_le)+
qed (auto split: if_splits)

subsection \<open>One depth and all depths\<close>

text \<open>A leaf of the subtree below \<open>p\<close> is free when no occupied identity overlaps it.\<close>

definition free_leaf :: "rule_id_spec \<Rightarrow> rule_id list \<Rightarrow> rule_id \<Rightarrow> bool" where
  "free_leaf p occ i \<longleftrightarrow> is_prefix (spec_rule_id p) i \<and> (\<forall>o' \<in> set occ. \<not> overlaps o' i)"

lemma in_range_prefix:
  "spec_length p \<le> len \<Longrightarrow>
     fst (candidate_range p len) \<le> v \<and> v < snd (candidate_range p len)
       \<longleftrightarrow> is_prefix (spec_rule_id p) (RuleId v len)"
  unfolding candidate_range_prefix by (simp add: is_prefix_div spec_rule_id_def)

lemma free_leaf_range:
  assumes "spec_length p \<le> len" and "r = candidate_range p len"
  shows "free_leaf p occ (RuleId v len) \<longleftrightarrow>
     fst r \<le> v \<and> v < snd r \<and> \<not> covered (blocked_intervals r occ len) v"
proof -
  have "is_prefix (spec_rule_id p) (RuleId v len) \<longleftrightarrow> fst r \<le> v \<and> v < snd r"
    using in_range_prefix [OF assms(1)] assms(2) by simp
  then show ?thesis
    using blocked_intervals_covered [of r v occ len] by (auto simp: free_leaf_def)
qed

lemma search_depth_Some:
  assumes "spec_length p \<le> len" and "r = candidate_range p len"
    and "first_free r (blocked_intervals r occ len) = Some v"
  shows "free_leaf p occ (RuleId v len) \<and> (\<forall>u. free_leaf p occ (RuleId u len) \<longrightarrow> v \<le> u)"
proof -
  note * = first_free_from_Some [OF assms(3) [unfolded first_free_def] blocked_intervals_sorted]
  then have "free_leaf p occ (RuleId v len)"
    using free_leaf_range [OF assms(1,2)] by blast
  moreover have "v \<le> u" if "free_leaf p occ (RuleId u len)" for u
    using that * free_leaf_range [OF assms(1,2)] by (meson linorder_not_le)
  ultimately show ?thesis by blast
qed

lemma search_depth_None:
  assumes "spec_length p \<le> len" and "r = candidate_range p len"
    and "first_free r (blocked_intervals r occ len) = None"
  shows "\<not> free_leaf p occ (RuleId v len)"
  using first_free_from_None [OF assms(3) [unfolded first_free_def]] free_leaf_range [OF assms(1,2)]
  by blast

lemma allocate_depths_Inr:
  assumes "allocate_depths p occ lens = Inr i" and "\<forall>len \<in> set lens. spec_length p \<le> len"
    and "sorted lens"
  shows "free_leaf p occ i \<and> bit_len i \<in> set lens \<and>
     (\<forall>j. free_leaf p occ j \<and> bit_len j \<in> set lens \<longrightarrow> (bit_len i, id_value i) \<le> (bit_len j, id_value j))"
  using assms
proof (induction lens)
  case (Cons len lens)
  let ?r = "candidate_range p len"
  have le: "spec_length p \<le> len" using Cons.prems by simp
  show ?case
  proof (cases "first_free ?r (blocked_intervals ?r occ len)")
    case None
    have "free_leaf p occ j \<Longrightarrow> bit_len j \<noteq> len" for j
      using search_depth_None [OF le refl None, of "id_value j"] by (cases j) auto
    with None Cons show ?thesis by (auto simp: Let_def)
  next
    case (Some v)
    have *: "(len, v) \<le> (bit_len j, id_value j)"
      if "free_leaf p occ j" and "bit_len j \<in> set (len # lens)" for j
    proof (cases "bit_len j = len")
      case True
      then have "v \<le> id_value j"
        using that search_depth_Some [OF le refl Some] by (cases j) auto
      with True show ?thesis by simp
    next
      case False
      then have "len < bit_len j" using that Cons.prems by auto
      then show ?thesis by simp
    qed
    from Some Cons.prems have "i = RuleId v len" by (simp add: Let_def)
    then show ?thesis using search_depth_Some [OF le refl Some] * by simp
  qed
qed simp

lemma allocate_depths_Inl:
  assumes "\<forall>len \<in> set lens. spec_length p \<le> len"
  shows "allocate_depths p occ lens = Inl e \<longleftrightarrow>
     e = Exhausted \<and> (\<forall>j. bit_len j \<in> set lens \<longrightarrow> \<not> free_leaf p occ j)"
  using assms
proof (induction lens)
  case (Cons len lens)
  let ?r = "candidate_range p len"
  have le: "spec_length p \<le> len" using Cons.prems by simp
  show ?case
  proof (cases "first_free ?r (blocked_intervals ?r occ len)")
    case None
    have "free_leaf p occ j \<Longrightarrow> bit_len j \<noteq> len" for j
      using search_depth_None [OF le refl None, of "id_value j"] by (cases j) auto
    with None Cons show ?thesis by (auto simp: Let_def)
  next
    case (Some v)
    then show ?thesis
      using search_depth_Some [OF le refl Some] by (auto simp: Let_def intro!: exI [of _ "RuleId v len"])
  qed
qed auto

text \<open>An occupied identity that overlaps the reserved prefix must be a leaf of the namespace.\<close>

definition collides :: "namespace \<Rightarrow> rule_id \<Rightarrow> bool" where
  "collides n i \<longleftrightarrow> overlaps i (spec_rule_id (prefix n)) \<and> \<not> accepts_normalized n i"

lemma allocate_unfold:
  assumes "validate ns = Inr n" and "list_all valid_id occ"
  shows "allocate ns occ =
     (if list_ex (collides n) occ then Inl (Collision (spec_value (prefix n)) (spec_length (prefix n)))
      else allocate_depths (prefix n) occ (allowed_lengths n))"
  using validate_ids [of occ occ] assms
  by (simp add: allocate_def collides_def [abs_def])

lemma allocate_InrD:
  assumes "allocate ns occ = Inr i"
  obtains n where "validate ns = Inr n" and "list_all valid_id occ" and "\<not> list_ex (collides n) occ"
    and "allocate_depths (prefix n) occ (allowed_lengths n) = Inr i"
proof -
  from assms obtain n o' where n: "validate ns = Inr n"
    and ids: "try_all (\<lambda>i. attempt (rule_id_spec_new (id_value i) (bit_len i)) (\<lambda>_. Inr i)) occ = Inr o'"
    by (auto simp: allocate_def attempt_Inr_iff)
  from ids have "list_all valid_id occ" by (simp add: validate_ids)
  with n assms that show ?thesis by (auto simp: allocate_unfold split: if_splits)
qed

lemma free_accepted:
  assumes "validate ns = Inr n"
  shows "accepts ns i \<and> (\<forall>o' \<in> set occ. \<not> overlaps o' i) \<longleftrightarrow>
     free_leaf (prefix n) occ i \<and> bit_len i \<in> set (allowed_lengths n)"
  using assms by (auto simp: accepts_iff accepts_normalized_def free_leaf_def)

lemma allowed_depths:
  "validate ns = Inr n \<Longrightarrow> \<forall>len \<in> set (allowed_lengths n). spec_length (prefix n) \<le> len"
  by (auto simp: validate_Inr_iff valid_namespace_def less_imp_le)

lemma prefix_value_bound:
  assumes "is_prefix p i" and "id_value p < 2 ^ bit_len p"
  shows "id_value i < 2 ^ bit_len i"
proof -
  let ?k = "bit_len i - bit_len p"
  have "id_value i div 2 ^ ?k < 2 ^ bit_len p" using assms by (simp add: is_prefix_div)
  then have "id_value i < 2 ^ bit_len p * 2 ^ ?k" by (simp add: div_less_iff_less_mult)
  also have "\<dots> = 2 ^ bit_len i" using assms by (simp add: is_prefix_div flip: power_add)
  finally show ?thesis .
qed

lemma accepts_valid:
  assumes "accepts ns i"
  shows "valid_id i"
proof -
  from assms obtain n where n: "validate ns = Inr n" and acc: "accepts_normalized n i"
    by (auto simp: accepts_def split: sum.splits)
  from n have val: "valid_namespace n" by (simp add: validate_Inr_iff)
  with acc have "spec_length (prefix n) < bit_len i \<and> bit_len i \<le> 32"
    by (auto simp: accepts_normalized_def valid_namespace_def)
  moreover from val acc have "id_value i < 2 ^ bit_len i"
    using prefix_value_bound [of "spec_rule_id (prefix n)" i]
    by (auto simp: accepts_normalized_def valid_namespace_def valid_id_def)
  ultimately show ?thesis by (simp add: valid_id_def)
qed

subsection \<open>The interface of an allocator\<close>

text \<open>
  What the flow planner relies on: an allocated identity is accepted by the namespace and
  overlaps no occupied one. Two facts follow for every client: the identity is fresh, and a
  prefix-free set of identities stays prefix-free when the allocated one joins it.
\<close>

definition prefix_free :: "rule_id list \<Rightarrow> bool" where
  "prefix_free ids \<longleftrightarrow> sorted_wrt (\<lambda>i j. \<not> overlaps i j) ids"

locale leaf_allocator =
  fixes alloc :: "rule_id list \<Rightarrow> 'e + rule_id"
    and accepted :: "rule_id \<Rightarrow> bool"
  assumes alloc_accepted: "alloc occ = Inr i \<Longrightarrow> accepted i"
    and alloc_free: "alloc occ = Inr i \<Longrightarrow> o' \<in> set occ \<Longrightarrow> \<not> overlaps o' i"
begin

lemma alloc_fresh: "alloc occ = Inr i \<Longrightarrow> i \<notin> set occ"
  using alloc_free [of occ i i] by auto

lemma alloc_prefix_free: "alloc occ = Inr i \<Longrightarrow> prefix_free occ \<Longrightarrow> prefix_free (occ @ [i])"
  using alloc_free [of occ i] by (simp add: prefix_free_def sorted_wrt_append)

end

lemma allocate_accepted_free:
  assumes "allocate ns occ = Inr i"
  shows "accepts ns i \<and> (\<forall>o' \<in> set occ. \<not> overlaps o' i)"
proof -
  obtain n where n: "validate ns = Inr n" and a: "allocate_depths (prefix n) occ (allowed_lengths n) = Inr i"
    using allocate_InrD [OF assms] by blast
  have "sorted (allowed_lengths n)" using n by (simp add: validate_Inr_iff valid_namespace_def)
  then show ?thesis
    using allocate_depths_Inr [OF a allowed_depths [OF n]] free_accepted [OF n] by blast
qed

interpretation alloc: leaf_allocator "allocate ns" "accepts ns" for ns
  by unfold_locales (auto dest: allocate_accepted_free)

subsection \<open>Properties\<close>

text \<open>C15: allocation is sound. The identity it returns is a well-formed RuleID that the namespace
  accepts, and neither it nor any occupied identity is a prefix of the other.\<close>

theorem allocate_sound:
  assumes "allocate ns occ = Inr i"
  shows "valid_id i \<and> accepts ns i \<and> (\<forall>o' \<in> set occ. \<not> overlaps o' i)"
  using alloc.alloc_accepted [OF assms] alloc.alloc_free [OF assms] accepts_valid by blast

text \<open>C16: allocation is deterministic in tree order. No accepted leaf that is free is shallower
  than the returned one, and none at the same depth has a smaller value.\<close>

theorem allocate_least:
  assumes "allocate ns occ = Inr i" and "accepts ns j" and "\<forall>o' \<in> set occ. \<not> overlaps o' j"
  shows "(bit_len i, id_value i) \<le> (bit_len j, id_value j)"
proof -
  obtain n where n: "validate ns = Inr n" and a: "allocate_depths (prefix n) occ (allowed_lengths n) = Inr i"
    using allocate_InrD [OF assms(1)] by blast
  have "sorted (allowed_lengths n)" using n by (simp add: validate_Inr_iff valid_namespace_def)
  then show ?thesis
    using allocate_depths_Inr [OF a allowed_depths [OF n]] free_accepted [OF n] assms(2,3) by blast
qed

text \<open>C17: allocation is complete. On a valid namespace and well-formed occupied identities that do
  not collide with the reserved prefix, it fails exactly when no accepted leaf is free, and then
  with the exhaustion error.\<close>

theorem allocate_exhausted_iff:
  assumes "validate ns = Inr n" and "list_all valid_id occ" and "\<not> list_ex (collides n) occ"
  shows "allocate ns occ = Inl e \<longleftrightarrow>
     e = Exhausted \<and> (\<forall>j. accepts ns j \<longrightarrow> (\<exists>o' \<in> set occ. overlaps o' j))"
proof -
  have "allocate ns occ = Inl e \<longleftrightarrow> e = Exhausted \<and>
      (\<forall>j. \<not> (free_leaf (prefix n) occ j \<and> bit_len j \<in> set (allowed_lengths n)))"
    using allocate_depths_Inl [OF allowed_depths [OF assms(1)], of occ e] assms
    by (auto simp: allocate_unfold)
  then show ?thesis by (auto simp flip: free_accepted [OF assms(1)])
qed

text \<open>C18: The shifts of the interval computation cannot overflow the code's 64-bit arithmetic: on
  well-formed identities every bound is at most two to the 32.\<close>

theorem allocate_no_overflow:
  assumes "valid_id i" and "1 \<le> len" and "len \<le> 32"
  shows "fst (leaf_interval len i) < snd (leaf_interval len i) \<and> snd (leaf_interval len i) \<le> 2 ^ 32"
proof (cases "bit_len i \<le> len")
  case True
  have "id_value i * 2 ^ (len - bit_len i) + 2 ^ (len - bit_len i) = Suc (id_value i) * 2 ^ (len - bit_len i)"
    by simp
  also have "\<dots> \<le> 2 ^ bit_len i * 2 ^ (len - bit_len i)"
    using assms by (intro mult_right_mono) (auto simp: valid_id_def)
  also have "\<dots> = 2 ^ len" using True by (simp flip: power_add)
  also have "\<dots> \<le> 2 ^ 32" using assms by (intro power_increasing) auto
  finally show ?thesis using True by (simp add: leaf_interval_def Let_def push_bit_eq_mult)
next
  case False
  have "id_value i div 2 ^ (bit_len i - len) \<le> id_value i" by simp
  also have "\<dots> < 2 ^ bit_len i" using assms by (simp add: valid_id_def)
  also have "\<dots> \<le> 2 ^ 32" using assms by (intro power_increasing) (auto simp: valid_id_def)
  finally show ?thesis using False by (simp add: leaf_interval_def Let_def drop_bit_eq_div)
qed

text \<open>A context whose identities are prefix-free stays prefix-free when an allocated identity
  joins it, and the allocated identity is new.\<close>

theorem allocate_prefix_free:
  assumes "allocate ns occ = Inr i" and "prefix_free occ"
  shows "prefix_free (occ @ [i]) \<and> i \<notin> set occ"
  using alloc.alloc_prefix_free [OF assms] alloc.alloc_fresh [OF assms(1)] by blast

subsection \<open>Witnesses\<close>

lemmas allocation_eval = allocate_def validate_def rule_id_spec_new_def spec_rule_id_def u32_bound_def
  Let_def push_bit_eq_mult drop_bit_eq_div candidate_range_def blocked_intervals_def leaf_interval_def
  clip_def first_free_def accepts_def accepts_normalized_def overlaps_def is_prefix_def
  List.map_filter_simps collides_def valid_id_def prefix_free_def

abbreviation sample_ns :: namespace where
  "sample_ns \<equiv> \<lparr>prefix = \<lparr>spec_value = 0, spec_length = 1\<rparr>, allowed_lengths = [4, 2]\<rparr>"

lemma sample_allocate:
  "allocate sample_ns [RuleId 0 2, RuleId 4 4, RuleId 5 3] = Inr (RuleId 5 4)"
  by (simp add: allocation_eval)

lemma allocate_sound_witness:
  "valid_id (RuleId 5 4) \<and> accepts sample_ns (RuleId 5 4) \<and> \<not> overlaps (RuleId 4 4) (RuleId 5 4)"
  using allocate_sound [OF sample_allocate] by (auto simp del: accepts_def)

lemma allocate_least_witness: "(4::nat, 5::nat) \<le> (4, 6)"
proof -
  have "accepts sample_ns (RuleId 6 4)"
    and "\<forall>o' \<in> set [RuleId 0 2, RuleId 4 4, RuleId 5 3]. \<not> overlaps o' (RuleId 6 4)"
    by (simp_all add: allocation_eval)
  from allocate_least [OF sample_allocate this] show ?thesis by simp
qed

lemma allocate_exhausted_witness: "allocate sample_ns [RuleId 0 2, RuleId 1 2] = Inl Exhausted"
proof -
  let ?n = "\<lparr>prefix = \<lparr>spec_value = 0, spec_length = 1\<rparr>, allowed_lengths = [2, 4]\<rparr> :: namespace"
  have v: "validate sample_ns = Inr ?n" by (simp add: allocation_eval)
  have "list_all valid_id [RuleId 0 2, RuleId 1 2]" by (simp add: allocation_eval)
  moreover have "\<not> list_ex (collides ?n) [RuleId 0 2, RuleId 1 2]" by (simp add: allocation_eval)
  moreover have "\<exists>o' \<in> set [RuleId 0 2, RuleId 1 2]. overlaps o' j" if "accepts sample_ns j" for j
  proof -
    from that have len: "2 \<le> bit_len j" and "id_value j div 2 ^ (bit_len j - 1) = 0"
      unfolding accepts_iff [OF v] by (auto simp: accepts_normalized_def is_prefix_div spec_rule_id_def)
    moreover have "bit_len j - 1 = (bit_len j - 2) + 1" using len by simp
    ultimately have "id_value j div 2 ^ (bit_len j - 2) div 2 = 0"
      by (simp only: power_add div_mult2_eq) simp
    then have "id_value j div 2 ^ (bit_len j - 2) \<in> {0, 1}" by auto
    then show ?thesis using len by (auto simp: overlaps_def is_prefix_div)
  qed
  ultimately show ?thesis
    using allocate_exhausted_iff [OF v, of "[RuleId 0 2, RuleId 1 2]" Exhausted] by blast
qed

lemma allocate_no_overflow_witness: "snd (leaf_interval 4 (RuleId 3 2)) \<le> 2 ^ 32"
  using allocate_no_overflow [of "RuleId 3 2" 4] by (simp add: valid_id_def)

lemma allocate_prefix_free_witness:
  "prefix_free ([RuleId 0 2, RuleId 4 4, RuleId 5 3] @ [RuleId 5 4])"
proof -
  have "prefix_free [RuleId 0 2, RuleId 4 4, RuleId 5 3]" by (simp add: allocation_eval)
  from allocate_prefix_free [OF sample_allocate this] show ?thesis by blast
qed

end
