(* ===== verification/Codec.thy ===== *)
theory Codec
  imports Values Allocation "HOL-Library.Multiset"
begin

text \<open>
  Strict decoding and canonical form (\<open>src/codec.rs\<close>). The CBOR reader and writer, the SID model
  conversion, the JSON printer and SHA-256 are third-party code: they are the fields of the
  record \<open>cbor_ext\<close> and of \<open>coreconf_model\<close>, arguments of the definitions that call them.
\<close>

subsection \<open>Errors of the context layer (\<open>src/lib.rs\<close>)\<close>

datatype context_error =
    Cbor string
  | Model string
  | Schc string
  | RuntimeError string
  | NonCanonicalCandidate
  | ProtectedRuleChanged string
  | CandidateRecipeMismatch
  | Rustconf string
  | RuleIdTree rule_id_tree_error

subsection \<open>Third-party code\<close>

text \<open>
  \<open>from_reader\<close> reads one value from the start of the bytes and returns it with the number of
  bytes consumed; a failure is the text of the library's error.
\<close>

record cbor_ext =
  from_reader :: "bytes \<Rightarrow> string + cbor \<times> nat"
  into_writer :: "cbor \<Rightarrow> string + bytes"
  json_to_vec :: "json \<Rightarrow> string + bytes"
  sha256 :: "bytes \<Rightarrow> bytes"

text \<open>A loaded SID model, as the methods of \<open>CoreconfModel\<close> and \<open>CompositeModel\<close> the code calls.\<close>

record coreconf_model =
  get_sid :: "string \<Rightarrow> int option"
  get_identifier :: "int \<Rightarrow> string option"
  get_keys :: "int \<Rightarrow> int list option"
  to_value :: "bytes \<Rightarrow> string + json"
  json_to_cbor :: "json \<Rightarrow> string + cbor"
  sid_to_identifier_at :: "json \<Rightarrow> string \<Rightarrow> string + json"
  identifier_to_sid_at :: "json \<Rightarrow> string \<Rightarrow> string + json"
  validate_identifier :: "json \<Rightarrow> string + unit"
  identity_sid_for :: "json \<Rightarrow> string + int"
  sid_json_to_cbor :: "json \<Rightarrow> int \<Rightarrow> string + cbor"

subsection \<open>Strict CBOR\<close>

text \<open>
  The loop over map entries rejects a key equal to an earlier one before it looks inside the
  key and the value, and stops at the first error.
\<close>

function (sequential) reject_duplicate_map_keys :: "cbor \<Rightarrow> context_error + unit"
  and reject_list :: "cbor list \<Rightarrow> context_error + unit"
  and reject_entries :: "cbor list \<Rightarrow> (cbor \<times> cbor) list \<Rightarrow> context_error + unit" where
  "reject_duplicate_map_keys (CArray vs) = reject_list vs"
| "reject_duplicate_map_keys (CMap es) = reject_entries [] es"
| "reject_duplicate_map_keys (CTag _ v) = reject_duplicate_map_keys v"
| "reject_duplicate_map_keys _ = Inr ()"
| "reject_list [] = Inr ()"
| "reject_list (v # vs) = attempt (reject_duplicate_map_keys v) (\<lambda>_. reject_list vs)"
| "reject_entries seen [] = Inr ()"
| "reject_entries seen ((k, v) # es) =
     (if list_ex (\<lambda>p. cbor_eq p k) seen then Inl (Cbor ''duplicate CBOR map key'')
      else attempt (reject_duplicate_map_keys k) (\<lambda>_.
           attempt (reject_duplicate_map_keys v) (\<lambda>_. reject_entries (seen @ [k]) es)))"
  by pat_completeness auto
termination
  by (relation "measure (case_sum size (case_sum (size_list size)
        (\<lambda>p. size_list (size_prod size size) (snd p))))") auto

definition strict_cbor_value :: "'x cbor_ext_scheme \<Rightarrow> bytes \<Rightarrow> context_error + cbor" where
  "strict_cbor_value x bs =
     attempt (map_err Cbor (from_reader x bs)) (\<lambda>(v, position).
       if position \<noteq> length bs then
         Inl (Cbor (''trailing bytes after root value at offset '' @ show_nat position
                    @ '' of '' @ show_nat (length bs)))
       else attempt (reject_duplicate_map_keys v) (\<lambda>_. Inr v))"

definition ensure_schc_root :: "cbor \<Rightarrow> int \<Rightarrow> context_error + unit" where
  "ensure_schc_root v root_sid =
     (case v of
        CMap es \<Rightarrow>
          if list_ex (\<lambda>(k, _). case k of CInteger i \<Rightarrow> i = root_sid | _ \<Rightarrow> False) es then Inr ()
          else Inl (Cbor (''SoR root is missing SCHC SID '' @ show_int root_sid))
      | _ \<Rightarrow> Inl (Cbor ''SoR root must be a CBOR map''))"

subsection \<open>Canonical trees\<close>

definition rule_sort_key :: "json \<Rightarrow> nat \<times> nat" where
  "rule_sort_key v =
     (case get_u64 v ''rule-id-length'' of None \<Rightarrow> 0 | Some n \<Rightarrow> n,
      case get_u64 v ''rule-id-value'' of None \<Rightarrow> 0 | Some n \<Rightarrow> n)"

definition entry_sort_key :: "json \<Rightarrow> nat" where
  "entry_sort_key v = (case get_u64 v ''entry-index'' of None \<Rightarrow> 0 | Some n \<Rightarrow> n)"

text \<open>Rust's \<open>sort_by\<close> is stable, as \<open>sort_key\<close> is.\<close>

fun check_entry_indices :: "nat list \<Rightarrow> json list \<Rightarrow> context_error + unit" where
  "check_entry_indices seen [] = Inr ()"
| "check_entry_indices seen (v # vs) =
     (case get_u64 v ''entry-index'' of
        None \<Rightarrow> Inl (Model ''SCHC entry is missing numeric entry-index'')
      | Some i \<Rightarrow>
          if i \<in> set seen then Inl (Model (''duplicate SCHC entry-index '' @ show_nat i))
          else check_entry_indices (i # seen) vs)"

definition normalize_array :: "string option \<Rightarrow> json list \<Rightarrow> context_error + json list" where
  "normalize_array key vs =
     (if key = Some ''rule'' then Inr (sort_key rule_sort_key vs)
      else if key = Some ''entry-universal'' then
        (let es = sort_key entry_sort_key vs in
         attempt (check_entry_indices [] es) (\<lambda>_. Inr es))
      else Inr vs)"

fun normalize_value :: "string option \<Rightarrow> json \<Rightarrow> context_error + json"
  and normalize_list :: "json list \<Rightarrow> context_error + json list"
  and normalize_object :: "(string \<times> json) list \<Rightarrow> context_error + (string \<times> json) list" where
  "normalize_value key (JObject es) = attempt (normalize_object es) (\<lambda>es'. Inr (JObject es'))"
| "normalize_value key (JArray vs) =
     attempt (normalize_list vs) (\<lambda>vs'. attempt (normalize_array key vs') (\<lambda>ws. Inr (JArray ws)))"
| "normalize_value key v = Inr v"
| "normalize_list [] = Inr []"
| "normalize_list (v # vs) =
     attempt (normalize_value None v) (\<lambda>v'. attempt (normalize_list vs) (\<lambda>vs'. Inr (v' # vs')))"
| "normalize_object [] = Inr []"
| "normalize_object ((k, v) # es) =
     attempt (normalize_value (Some k) v) (\<lambda>v'.
     attempt (normalize_object es) (\<lambda>es'. Inr ((k, v') # es')))"

definition normalize_tree :: "json \<Rightarrow> context_error + json" where
  "normalize_tree tree = normalize_value None tree"

subsection \<open>Encoding and identity of a context\<close>

definition encode_tree :: "'x cbor_ext_scheme \<Rightarrow> coreconf_model \<Rightarrow> json \<Rightarrow> context_error + bytes" where
  "encode_tree x model tree =
     attempt (map_err Rustconf (json_to_cbor model tree)) (\<lambda>value.
     attempt (map_err Cbor (into_writer x value)) (\<lambda>bs.
     attempt (strict_cbor_value x bs) (\<lambda>_. Inr bs)))"

definition bytes_of_string :: "string \<Rightarrow> bytes" where
  "bytes_of_string s = map of_char s"

definition digest_domain :: bytes where
  "digest_domain = bytes_of_string ''schc-coreconf/managed-context/v1'' @ [0]"

text \<open>The hashed text: each part is preceded by its length on eight bytes.\<close>

definition digest_input :: "bytes \<Rightarrow> bytes \<Rightarrow> bytes" where
  "digest_input tree_bytes sor =
     digest_domain @ be_bytes 8 (length tree_bytes) @ tree_bytes
       @ be_bytes 8 (length sor) @ sor"

definition digest_context :: "'x cbor_ext_scheme \<Rightarrow> json \<Rightarrow> bytes \<Rightarrow> context_error + bytes" where
  "digest_context x tree sor =
     attempt (map_err (\<lambda>e. Model (''tree serialization: '' @ e)) (json_to_vec x tree)) (\<lambda>tree_bytes.
       Inr (sha256 x (digest_input tree_bytes sor)))"

definition context_tag_len :: nat where
  "context_tag_len = 8"

definition context_tag :: "bytes \<Rightarrow> bytes" where
  "context_tag digest = take context_tag_len digest"

subsection \<open>The strict loader accepts exactly the maps without repeated keys\<close>

lemma reject_distinct:
  "reject_duplicate_map_keys v = Inr () \<longleftrightarrow> distinct_keys v"
  "reject_list vs = Inr () \<longleftrightarrow> (\<forall>v \<in> set vs. distinct_keys v)"
  "reject_entries seen es = Inr () \<longleftrightarrow>
     sorted_wrt (\<lambda>k l. \<not> cbor_eq k l) (map fst es) \<and> (\<forall>p \<in> set seen. \<forall>e \<in> set es. \<not> cbor_eq p (fst e)) \<and>
     (\<forall>e \<in> set es. distinct_keys (fst e) \<and> distinct_keys (snd e))"
  by (induction v and vs and seen es rule: reject_duplicate_map_keys_reject_list_reject_entries.induct)
     (auto simp: attempt_Inr_iff list_ex_iff)

lemma strict_cbor_value_Inr_iff:
  "strict_cbor_value x bs = Inr v \<longleftrightarrow> from_reader x bs = Inr (v, length bs) \<and> distinct_keys v"
proof -
  have "reject_duplicate_map_keys w = Inr u \<longleftrightarrow> distinct_keys w" for w u
    using reject_distinct(1) [of w] by (cases u) simp
  then show ?thesis
    by (auto simp: strict_cbor_value_def attempt_Inr_iff map_err_Inr_iff split: if_splits)
qed

subsection \<open>Normal forms\<close>

text \<open>
  A tree is in normal form when its rule lists are sorted by length and value and its entry
  lists are strictly sorted by their index, at any depth.
\<close>

definition array_normal :: "string option \<Rightarrow> json list \<Rightarrow> bool" where
  "array_normal key vs \<longleftrightarrow>
     (key = Some ''rule'' \<longrightarrow> sorted (map rule_sort_key vs)) \<and>
     (key = Some ''entry-universal'' \<longrightarrow>
        sorted (map entry_sort_key vs) \<and> distinct (map entry_sort_key vs) \<and>
        (\<forall>v \<in> set vs. get_u64 v ''entry-index'' \<noteq> None))"

fun normal_value :: "string option \<Rightarrow> json \<Rightarrow> bool" where
  "normal_value key (JObject es) \<longleftrightarrow> (\<forall>e \<in> set es. normal_value (Some (fst e)) (snd e))"
| "normal_value key (JArray vs) \<longleftrightarrow> (\<forall>v \<in> set vs. normal_value None v) \<and> array_normal key vs"
| "normal_value key _ \<longleftrightarrow> True"

lemma check_entry_indices_Inr:
  "check_entry_indices seen vs = Inr u \<longleftrightarrow>
     distinct (map entry_sort_key vs) \<and> set seen \<inter> entry_sort_key ` set vs = {} \<and>
     (\<forall>v \<in> set vs. get_u64 v ''entry-index'' \<noteq> None)"
  by (induction seen vs rule: check_entry_indices.induct)
     (auto simp: entry_sort_key_def split: option.splits)

lemma normalize_array_normal:
  "normalize_array key vs = Inr ws \<Longrightarrow> array_normal key ws \<and> set ws = set vs"
  by (auto simp: normalize_array_def array_normal_def attempt_Inr_iff check_entry_indices_Inr Let_def
      split: if_splits)

lemma normalize_array_id: "array_normal key vs \<Longrightarrow> normalize_array key vs = Inr vs"
proof (cases "key = Some ''entry-universal''")
  case True
  assume n: "array_normal key vs"
  with True have "check_entry_indices [] vs = Inr ()"
    by (simp add: check_entry_indices_Inr array_normal_def)
  with n True show ?thesis
    by (simp add: normalize_array_def array_normal_def sort_key_id_if_sorted)
qed (auto simp: normalize_array_def array_normal_def sort_key_id_if_sorted)

lemma normalize_normal:
  "normalize_value key v = Inr w \<Longrightarrow> normal_value key w"
  "normalize_list vs = Inr ws \<Longrightarrow> \<forall>w \<in> set ws. normal_value None w"
  "normalize_object es = Inr fs \<Longrightarrow> \<forall>e \<in> set fs. normal_value (Some (fst e)) (snd e)"
  by (induction key v and vs and es arbitrary: w and ws and fs
        rule: normalize_value_normalize_list_normalize_object.induct)
     (fastforce simp: attempt_Inr_iff dest: normalize_array_normal)+

lemma normalize_id:
  "normal_value key v \<Longrightarrow> normalize_value key v = Inr v"
  "\<forall>w \<in> set vs. normal_value None w \<Longrightarrow> normalize_list vs = Inr vs"
  "\<forall>e \<in> set es. normal_value (Some (fst e)) (snd e) \<Longrightarrow> normalize_object es = Inr es"
  by (induction key v and vs and es rule: normalize_value_normalize_list_normalize_object.induct)
     (auto simp: normalize_array_id)

lemma normalize_value_iff_normal: "normalize_value key v = Inr v \<longleftrightarrow> normal_value key v"
  using normalize_normal(1) normalize_id(1) by blast

subsection \<open>Normalization only reorders\<close>

text \<open>
  The leaves of a tree, each with the object keys on its path; the position in an array is not
  part of it. Normalization keeps this multiset.
\<close>

fun leaf_paths :: "json \<Rightarrow> (string list \<times> json) multiset" where
  "leaf_paths (JObject es) =
     (\<Sum>e \<in># mset es. image_mset (\<lambda>(path, leaf). (fst e # path, leaf)) (leaf_paths (snd e)))"
| "leaf_paths (JArray vs) = (\<Sum>v \<in># mset vs. leaf_paths v)"
| "leaf_paths v = {#([], v)#}"

lemma normalize_array_mset: "normalize_array key vs = Inr ws \<Longrightarrow> mset ws = mset vs"
  by (auto simp: normalize_array_def attempt_Inr_iff Let_def split: if_splits)

lemma normalize_leaf_paths:
  "normalize_value key v = Inr w \<Longrightarrow> leaf_paths w = leaf_paths v"
  "normalize_list vs = Inr ws \<Longrightarrow> leaf_paths (JArray ws) = leaf_paths (JArray vs)"
  "normalize_object es = Inr fs \<Longrightarrow> leaf_paths (JObject fs) = leaf_paths (JObject es)"
proof (induction key v and vs and es arbitrary: w and ws and fs
        rule: normalize_value_normalize_list_normalize_object.induct)
  case (2 key vs)
  then show ?case by (auto simp: attempt_Inr_iff dest!: normalize_array_mset)
qed (auto simp: attempt_Inr_iff)

subsection \<open>Framing of the hashed text\<close>

lemma digest_input_inject:
  assumes "digest_input t s = digest_input t' s'"
    and "length t < 2 ^ 64" and "length t' < 2 ^ 64"
  shows "t = t' \<and> s = s'"
proof -
  have *: "be_bytes 8 (length t) @ t @ be_bytes 8 (length s) @ s
      = be_bytes 8 (length t') @ t' @ be_bytes 8 (length s') @ s'"
    using assms(1) by (simp add: digest_input_def)
  then have "be_bytes 8 (length t) = be_bytes 8 (length t')" by simp
  moreover have "(256::nat) ^ 8 = 2 ^ 64" by simp
  ultimately have "length t = length t'"
    using assms(2,3) be_bytes_inject [of "length t" 8 "length t'"] by simp
  with * show ?thesis by simp
qed

subsection \<open>Properties\<close>

text \<open>The strict loader accepts a byte string exactly when the reader consumes all of it and
  no map of the value, at any depth, repeats a key; it returns that value unchanged.\<close>

theorem strict_loader_accepts:
  "strict_cbor_value x bs = Inr v \<longleftrightarrow> from_reader x bs = Inr (v, length bs) \<and> distinct_keys v"
  by (rule strict_cbor_value_Inr_iff)

text \<open>Normalization produces a tree in normal form, keeps every leaf with its path, and
  leaves a tree in normal form unchanged, so that it is idempotent.\<close>

theorem normalize_tree_canonical:
  assumes "normalize_tree v = Inr w"
  shows "normal_value None w \<and> leaf_paths w = leaf_paths v \<and> normalize_tree w = Inr w"
  using assms normalize_normal(1) normalize_leaf_paths(1) normalize_id(1)
  unfolding normalize_tree_def by blast

text \<open>The hashed text identifies its two parts. Contexts with different trees or different
  encodings never share it, because each part carries its length on eight bytes.\<close>

theorem digest_input_framing:
  assumes "length t < 2 ^ 64" and "length t' < 2 ^ 64"
  shows "digest_input t s = digest_input t' s' \<longleftrightarrow> t = t' \<and> s = s'"
  using digest_input_inject [OF _ assms] by blast

lemma normalize_tree_canonical_witness:
  "normal_value None (JObject [(''rule'', JArray
     [JObject [(''rule-id-length'', JNumber (PosInt 3))], JObject [(''rule-id-length'', JNumber (PosInt 8))]])])"
proof -
  have "normalize_tree (JObject [(''rule'', JArray
     [JObject [(''rule-id-length'', JNumber (PosInt 8))], JObject [(''rule-id-length'', JNumber (PosInt 3))]])])
     = Inr (JObject [(''rule'', JArray
     [JObject [(''rule-id-length'', JNumber (PosInt 3))], JObject [(''rule-id-length'', JNumber (PosInt 8))]])])"
    by (simp add: normalize_tree_def normalize_array_def rule_sort_key_def)
  from normalize_tree_canonical [OF this] show ?thesis by blast
qed

lemma digest_input_framing_witness: "digest_input [1] [2, 3] \<noteq> digest_input [1, 2] [3]"
  using digest_input_framing [of "[1]" "[1, 2]" "[2, 3]" "[3]"] by simp

end
