(* ===== verification/Rules.thy ===== *)
theory Rules
  imports Codec
begin

text \<open>
  The rule data of the SCHC library as this code reads it (the variants are those of its
  exhaustive matches), and the protected-rule policy of \<open>src/policy.rs\<close>: which rules of a context
  are protected, and the check that a candidate context keeps them.
\<close>

subsection \<open>Rules\<close>

datatype rule_nature = NatureCompression | NatureManagement | NatureOther string

datatype field_ref =
    FieldIpv6 string
  | FieldUdp string
  | FieldCoap string
  | FieldIcmpv6 string
  | FieldCoapOption nat
  | FieldUnused
  | FieldPayload
  | FieldSyntheticCoapMarker
  | FieldUnknownSid int

datatype direction = Up | Down

datatype direction_selector = Bidirectional | UpOnly | DownOnly

datatype length_unit = UnitBytes | UnitBits

datatype field_length =
    FixedBits nat
  | VariableBytes
  | VariableBits
  | Remaining
  | TokenLength
  | FromPreviousField nat length_unit
  | FunctionSid int

datatype target_value = TargetNone | TargetBytes bytes | TargetMapping "bytes list"

datatype matching_operator = Equal | Ignore | Msb nat | MatchMapping

datatype cda = NotSent | ValueSent | MappingSent | Lsb | Compute | DeviceIid | AppIid

record field_rule =
  fr_entry_index :: nat
  fr_field :: field_ref
  fr_position :: nat
  fr_direction :: direction_selector
  fr_length :: field_length
  fr_target :: target_value
  fr_matching :: matching_operator
  fr_action :: cda

record rule =
  rule_id_of :: rule_id
  nature :: rule_nature
  rule_fields :: "field_rule list"

text \<open>A rule context: its rules in order, and the library's lookup by identity.\<close>

record rule_context =
  ctx_rules :: "rule list"
  find_rule :: "rule_id \<Rightarrow> rule option"

text \<open>The documented behaviour of the lookup, used where a property needs it.\<close>

definition lookup_ok :: "rule_context \<Rightarrow> bool" where
  "lookup_ok ctx \<longleftrightarrow> (\<forall>i. find_rule ctx i = List.find (\<lambda>r. rule_id_of r = i) (ctx_rules ctx))"

subsection \<open>Protected rules\<close>

record protected_rule =
  pr_id :: rule_id
  pr_rule :: rule

type_synonym protected_rules = "protected_rule list"

definition rule_id_order :: "rule_id \<Rightarrow> nat \<times> nat" where
  "rule_id_order i = (bit_len i, id_value i)"

definition show_id :: "rule_id \<Rightarrow> string" where
  "show_id i = show_nat (id_value i) @ ''/'' @ show_nat (bit_len i)"

definition management_ids :: "rule_context \<Rightarrow> rule_id list" where
  "management_ids ctx =
     remdups_adj (sort_key rule_id_order (map rule_id_of (filter (\<lambda>r. nature r = NatureManagement) (ctx_rules ctx))))"

definition derive :: "rule_context \<Rightarrow> context_error + protected_rules" where
  "derive ctx =
     try_all (\<lambda>i. case find_rule ctx i of
         None \<Rightarrow> Inl (ProtectedRuleChanged (''management RuleID '' @ show_id i @ '' is absent from the context''))
       | Some r \<Rightarrow> Inr \<lparr>pr_id = i, pr_rule = r\<rparr>)
     (management_ids ctx)"

definition protected_ids :: "protected_rules \<Rightarrow> rule_id list" where
  "protected_ids ps = map pr_id ps"

definition protected_contains :: "protected_rules \<Rightarrow> rule_id \<Rightarrow> bool" where
  "protected_contains ps i \<longleftrightarrow> list_ex (\<lambda>p. pr_id p = i) ps"

text \<open>
  The debug format of a list of identities, which only appears in an error text, is the argument
  \<open>dbg\<close>.
\<close>

fun enforce_each :: "protected_rules \<Rightarrow> protected_rules \<Rightarrow> context_error + unit" where
  "enforce_each candidate [] = Inr ()"
| "enforce_each candidate (e # es) =
     (case List.find (\<lambda>p. pr_id p = pr_id e) candidate of
        None \<Rightarrow> Inl (ProtectedRuleChanged (''RuleID '' @ show_id (pr_id e) @ '' was deleted or re-identified''))
      | Some a \<Rightarrow>
          if pr_rule a \<noteq> pr_rule e then
            Inl (ProtectedRuleChanged (''RuleID '' @ show_id (pr_id e) @ '' content or nature differs''))
          else enforce_each candidate es)"

definition enforce ::
  "(rule_id list \<Rightarrow> string) \<Rightarrow> protected_rules \<Rightarrow> protected_rules \<Rightarrow> context_error + unit" where
  "enforce dbg ps candidate =
     (if length ps \<noteq> length candidate then
        Inl (ProtectedRuleChanged (''protected RuleID set changed from '' @ dbg (protected_ids ps)
               @ '' to '' @ dbg (protected_ids candidate)))
      else enforce_each candidate ps)"

subsection \<open>Order and contents of a derived set\<close>

lemma rule_id_order_inj: "inj rule_id_order"
  by (rule injI) (simp add: rule_id_order_def)

lemma inj_on_rule_id_order [simp]: "inj_on rule_id_order A"
  using rule_id_order_inj by (rule inj_on_subset) simp

lemma remdups_adj_key_distinct:
  "inj_on f (set xs) \<Longrightarrow> sorted (map f xs) \<Longrightarrow> distinct (remdups_adj (xs :: 'a list))" for f :: "'a \<Rightarrow> 'b :: linorder"
proof (induction xs rule: remdups_adj.induct)
  case (3 x y xs)
  then show ?case by (auto simp: inj_on_def dest!: antisym)
qed auto

lemma sorted_remdups_adj_key: "sorted (map f xs) \<Longrightarrow> sorted (map f (remdups_adj xs))"
  by (induction xs rule: remdups_adj.induct) auto

lemma management_ids_props:
  "distinct (management_ids ctx)" "sorted (map rule_id_order (management_ids ctx))"
  "set (management_ids ctx) = {rule_id_of r | r. r \<in> set (ctx_rules ctx) \<and> nature r = NatureManagement}"
  by (auto simp: management_ids_def
      intro!: remdups_adj_key_distinct [where f = rule_id_order] sorted_remdups_adj_key)

lemma derive_Inr:
  "derive ctx = Inr ps \<longleftrightarrow>
     list_all2 (\<lambda>i p. find_rule ctx i = Some (pr_rule p) \<and> pr_id p = i) (management_ids ctx) ps"
proof -
  have "(case find_rule ctx i of
         None \<Rightarrow> Inl (ProtectedRuleChanged (''management RuleID '' @ show_id i @ '' is absent from the context''))
       | Some r \<Rightarrow> Inr \<lparr>pr_id = i, pr_rule = r\<rparr>) = Inr p
     \<longleftrightarrow> find_rule ctx i = Some (pr_rule p) \<and> pr_id p = i" for i p
    by (cases p) (auto split: option.splits)
  then show ?thesis by (simp add: derive_def try_all_Inr_iff)
qed

lemma derive_ids: "derive ctx = Inr ps \<Longrightarrow> protected_ids ps = management_ids ctx"
  unfolding derive_Inr protected_ids_def
  by (auto simp: list_all2_conv_all_nth intro: nth_equalityI)

lemma protected_contains_iff: "protected_contains ps i \<longleftrightarrow> i \<in> set (protected_ids ps)"
  by (auto simp: protected_contains_def protected_ids_def list_ex_iff)

subsection \<open>What enforcement guarantees\<close>

lemma enforce_each_Inr:
  "enforce_each c es = Inr () \<longleftrightarrow>
     (\<forall>e \<in> set es. \<exists>a. List.find (\<lambda>p. pr_id p = pr_id e) c = Some a \<and> pr_rule a = pr_rule e)"
  by (induction c es rule: enforce_each.induct) (auto split: option.splits)

text \<open>On sets derived from contexts, enforcement is equality.\<close>

lemma enforce_each_subset:
  "enforce_each c es = Inr () \<Longrightarrow> set es \<subseteq> set c"
proof
  fix e
  assume "enforce_each c es = Inr ()" and "e \<in> set es"
  then obtain a where a: "List.find (\<lambda>p. pr_id p = pr_id e) c = Some a" "pr_rule a = pr_rule e"
    by (auto simp: enforce_each_Inr)
  then have "a \<in> set c" and "pr_id a = pr_id e" by (auto dest: find_Some_iff2)
  with a(2) show "e \<in> set c" by (cases a; cases e) simp
qed

lemma sorted_key_set_unique:
  assumes "sorted (map f xs)" and "sorted (map f ys)" and "distinct (map f xs)" and "distinct (map f ys)"
    and "set xs = set ys"
  shows "xs = ys"
  using assms map_sorted_distinct_set_unique [of f xs ys] by (simp add: distinct_map)

lemma enforce_derived:
  assumes "derive c1 = Inr ps" and "derive c2 = Inr qs" and "enforce dbg ps qs = Inr ()"
  shows "ps = qs"
proof -
  have len: "length ps = length qs" and sub: "set ps \<subseteq> set qs"
    using assms(3) by (auto simp: enforce_def enforce_each_subset split: if_splits)
  have keys: "sorted (map (\<lambda>p. rule_id_order (pr_id p)) rs) \<and> distinct (map (\<lambda>p. rule_id_order (pr_id p)) rs)"
    if "derive c = Inr rs" for c rs
  proof -
    have "map (\<lambda>p. rule_id_order (pr_id p)) rs = map rule_id_order (management_ids c)"
      using derive_ids [OF that, symmetric] by (simp add: protected_ids_def)
    then show ?thesis
      using management_ids_props [of c] by (simp add: distinct_map)
  qed
  have "distinct ps" and "distinct qs"
    using keys [OF assms(1)] keys [OF assms(2)] by (auto simp: distinct_map)
  then have "set ps = set qs"
    using sub len by (metis card_subset_eq distinct_card finite_set)
  then show ?thesis
    using sorted_key_set_unique keys [OF assms(1)] keys [OF assms(2)] by blast
qed

lemma find_distinct_key:
  "distinct (map f xs) \<Longrightarrow> e \<in> set xs \<Longrightarrow> List.find (\<lambda>p. f p = f e) xs = Some e"
  by (induction xs) force+

lemma enforce_refl:
  assumes "distinct (protected_ids ps)"
  shows "enforce dbg ps ps = Inr ()"
  using assms find_distinct_key [of pr_id ps]
  by (auto simp: enforce_def enforce_each_Inr protected_ids_def)

lemma derive_total:
  assumes "lookup_ok ctx"
  shows "\<exists>ps. derive ctx = Inr ps"
proof -
  have *: "\<exists>p :: protected_rule. find_rule ctx i = Some (pr_rule p) \<and> pr_id p = i" if "i \<in> set (management_ids ctx)" for i
  proof -
    have "List.find (\<lambda>r. rule_id_of r = i) (ctx_rules ctx) \<noteq> None"
      using that by (auto simp: management_ids_props find_None_iff2)
    with assms obtain r where "find_rule ctx i = Some r" by (auto simp: lookup_ok_def)
    then show ?thesis by (intro exI [of _ "\<lparr>pr_id = i, pr_rule = r\<rparr>"]) simp
  qed
  have "\<exists>ps :: protected_rules. list_all2 (\<lambda>i p. find_rule ctx i = Some (pr_rule p) \<and> pr_id p = i) ks ps"
    if "set ks \<subseteq> set (management_ids ctx)" for ks
    using that
  proof (induction ks)
    case (Cons i ks)
    then show ?case using * [of i] by (fastforce simp: list_all2_Cons1)
  qed (auto intro: exI [of _ "[]"])
  then show ?thesis by (simp add: derive_Inr)
qed

subsection \<open>Properties\<close>

text \<open>Deriving the protected set of a context never fails when the lookup finds what the
  context lists. The set has one element for each identity of a management rule, in strict order
  of length and value, with the rule the lookup returns, and its membership test is exact.\<close>

theorem derive_protects_management:
  assumes "lookup_ok ctx"
  shows "\<exists>ps. derive ctx = Inr ps \<and> sorted_wrt (<) (map rule_id_order (protected_ids ps)) \<and>
     (\<forall>i. protected_contains ps i \<longleftrightarrow>
        (\<exists>r \<in> set (ctx_rules ctx). nature r = NatureManagement \<and> rule_id_of r = i)) \<and>
     (\<forall>p \<in> set ps. find_rule ctx (pr_id p) = Some (pr_rule p) \<and> rule_id_of (pr_rule p) = pr_id p)"
proof -
  obtain ps where d: "derive ctx = Inr ps" using derive_total [OF assms] by blast
  have ids: "protected_ids ps = management_ids ctx" using d by (rule derive_ids)
  have "sorted_wrt (<) (map rule_id_order (protected_ids ps))"
    using management_ids_props(1,2) [of ctx] by (simp add: ids strict_sorted_iff distinct_map)
  moreover have "find_rule ctx (pr_id p) = Some (pr_rule p)" if "p \<in> set ps" for p
    using that d by (auto simp: derive_Inr list_all2_conv_all_nth in_set_conv_nth)
  moreover have "rule_id_of r = i" if "find_rule ctx i = Some r" for i r
    using that assms by (auto simp: lookup_ok_def dest: find_Some_iff2)
  ultimately show ?thesis
    using d by (auto simp: protected_contains_iff ids management_ids_props)
qed

text \<open>A candidate passes the policy exactly when its protected set is the one of the active
  context: no management rule was added, removed, renumbered or changed.\<close>

theorem enforce_iff_same:
  assumes "derive active = Inr ps" and "derive candidate = Inr qs"
  shows "enforce dbg ps qs = Inr () \<longleftrightarrow> ps = qs"
proof
  show "enforce dbg ps qs = Inr () \<Longrightarrow> ps = qs"
    using enforce_derived [OF assms] by simp
  have "distinct (protected_ids ps)"
    using derive_ids [OF assms(1)] management_ids_props(1) by simp
  then show "ps = qs \<Longrightarrow> enforce dbg ps qs = Inr ()"
    using enforce_refl by blast
qed

definition sample_context :: rule_context where
  "sample_context =
     (let rs = [\<lparr>rule_id_of = \<lparr>id_value = 5, bit_len = 3\<rparr>, nature = NatureCompression, rule_fields = []\<rparr>,
                \<lparr>rule_id_of = \<lparr>id_value = 2, bit_len = 3\<rparr>, nature = NatureManagement, rule_fields = []\<rparr>]
      in \<lparr>ctx_rules = rs, find_rule = (\<lambda>i. List.find (\<lambda>r. rule_id_of r = i) rs)\<rparr>)"

lemma derive_protects_management_witness: "\<exists>ps. derive sample_context = Inr ps"
  using derive_protects_management [of sample_context]
  by (auto simp: sample_context_def lookup_ok_def Let_def)

lemma enforce_iff_same_witness:
  "enforce (\<lambda>_. []) [\<lparr>pr_id = \<lparr>id_value = 2, bit_len = 3\<rparr>,
      pr_rule = \<lparr>rule_id_of = \<lparr>id_value = 2, bit_len = 3\<rparr>, nature = NatureManagement, rule_fields = []\<rparr>\<rparr>] []
   \<noteq> Inr ()"
proof -
  have 1: "derive sample_context = Inr [\<lparr>pr_id = \<lparr>id_value = 2, bit_len = 3\<rparr>,
      pr_rule = \<lparr>rule_id_of = \<lparr>id_value = 2, bit_len = 3\<rparr>, nature = NatureManagement, rule_fields = []\<rparr>\<rparr>]"
    by (simp add: sample_context_def derive_def management_ids_def Let_def)
  have 2: "derive \<lparr>ctx_rules = [], find_rule = (\<lambda>_. None)\<rparr> = Inr []"
    by (simp add: derive_def management_ids_def)
  show ?thesis using enforce_iff_same [OF 1 2] by simp
qed

end
