(* ===== verification/Context.thy ===== *)
theory Context
  imports Rules
begin

text \<open>
  Loading, preparing and publishing a managed context (\<open>src/context.rs\<close> and the entry points of
  \<open>src/lib.rs\<close>): the strict canonical loader, the application runtime without the protected
  rules, the immutable snapshot, and the compare-and-swap backend of the datastore. The model
  libraries, the rule-context parser and the runtime are third-party code: the fields of
  \<open>context_ext\<close> and of \<open>runtime\<close>.
\<close>

subsection \<open>Third-party code\<close>

text \<open>
  Device identities, device profiles, endpoints, flows and the SID registry are handles that
  this code stores, compares and passes on.
\<close>

type_synonym device_id = nat
type_synonym device_profile = nat
type_synonym sid_registry = nat
type_synonym endpoint_flow = "nat \<times> nat"

record schc_frame =
  frame_data :: bytes
  frame_bits :: nat

record encoded_packet =
  enc_rule_id :: rule_id
  enc_frame :: schc_frame

record decoded_packet =
  dec_rule_id :: rule_id
  dec_packet :: bytes

record runtime =
  rt_device :: device_id
  encode_detailed :: "device_id \<Rightarrow> endpoint_flow \<Rightarrow> bytes \<Rightarrow> string + encoded_packet"
  decode_padded_detailed :: "device_id \<Rightarrow> endpoint_flow \<Rightarrow> bytes \<Rightarrow> string + decoded_packet"

record context_ext = cbor_ext +
  model_from_sid_str :: "string \<Rightarrow> string + coreconf_model"
  registry_from_json_str :: "string \<Rightarrow> string + sid_registry"
  context_from_cbor_slice :: "bytes \<Rightarrow> sid_registry \<Rightarrow> string + rule_context"
  runtime_new :: "device_id \<Rightarrow> rule_context \<Rightarrow> device_profile \<Rightarrow> string + runtime"
  debug_rule_ids :: "rule_id list \<Rightarrow> string"

subsection \<open>Guard period and context tag\<close>

record guard_period =
  ticks_duration :: nat
  ticks_numbers :: nat

definition hex_digit :: "nat \<Rightarrow> char" where
  "hex_digit d = char_of (if d < 10 then 48 + d else 87 + d)"

definition hex_byte :: "byte \<Rightarrow> string" where
  "hex_byte b = [hex_digit (unat b div 16), hex_digit (unat b mod 16)]"

definition to_hex :: "bytes \<Rightarrow> string" where
  "to_hex bs = concat (map hex_byte bs)"

definition bounded_u64 :: "nat \<Rightarrow> json \<Rightarrow> nat option" where
  "bounded_u64 bound v = Option.bind (as_u64 v) (\<lambda>n. if n < bound then Some n else None)"

definition guard_period_from_tree :: "json \<Rightarrow> context_error + guard_period option" where
  "guard_period_from_tree tree =
     (case (case get_key tree ''ietf-schc:context'' of None \<Rightarrow> get_key tree ''context'' | Some c \<Rightarrow> Some c) of
        None \<Rightarrow> Inr None
      | Some ctx \<Rightarrow>
        (case get_key ctx ''guard-period'' of
           None \<Rightarrow> Inr None
         | Some period_value \<Rightarrow>
           (case as_object period_value of
              None \<Rightarrow> Inl (Model ''guard-period is not an object'')
            | Some period \<Rightarrow>
                attempt (case map_of period ''ticks-duration'' of
                    None \<Rightarrow> Inr 20
                  | Some v \<Rightarrow> ok_or (Model ''guard-period/ticks-duration is not uint8'') (bounded_u64 256 v))
                  (\<lambda>duration.
                (case map_of period ''ticks-numbers'' of
                   None \<Rightarrow> Inr None
                 | Some v \<Rightarrow>
                     attempt (ok_or (Model ''guard-period/ticks-numbers is not uint16'') (bounded_u64 65536 v))
                       (\<lambda>numbers. Inr (Some \<lparr>ticks_duration = duration, ticks_numbers = numbers\<rparr>)))))))"

subsection \<open>The strict canonical loader\<close>

record loaded_context =
  lc_model :: coreconf_model
  lc_registry :: sid_registry
  lc_rule_context :: rule_context
  lc_tree :: json
  lc_sor :: bytes
  lc_protected :: protected_rules
  lc_guard :: "guard_period option"

definition load_sor :: "'x context_ext_scheme \<Rightarrow> string \<Rightarrow> bytes \<Rightarrow> context_error + loaded_context" where
  "load_sor x sid_json sor =
     attempt (map_err Model (model_from_sid_str x sid_json)) (\<lambda>model.
     attempt (map_err Schc (registry_from_json_str x sid_json)) (\<lambda>registry.
     attempt (strict_cbor_value x sor) (\<lambda>v.
     attempt (ok_or (Model ''SID model is missing /ietf-schc:schc'') (get_sid model ''/ietf-schc:schc'')) (\<lambda>root_sid.
     attempt (ensure_schc_root v root_sid) (\<lambda>_.
     attempt (map_err Model (to_value model sor)) (\<lambda>tree.
     attempt (normalize_tree tree) (\<lambda>initial_tree.
     attempt (encode_tree x model initial_tree) (\<lambda>canonical_sor.
     attempt (strict_cbor_value x canonical_sor) (\<lambda>_.
     attempt (map_err Model (to_value model canonical_sor)) (\<lambda>tree2.
     attempt (normalize_tree tree2) (\<lambda>canonical_tree.
     if canonical_tree \<noteq> initial_tree then
       Inl (Model ''canonical tree does not round-trip through rustconf'')
     else
     attempt (map_err Schc (context_from_cbor_slice x canonical_sor registry)) (\<lambda>rule_context.
     attempt (derive rule_context) (\<lambda>protected.
     attempt (guard_period_from_tree canonical_tree) (\<lambda>guard.
       Inr \<lparr>lc_model = model, lc_registry = registry, lc_rule_context = rule_context,
            lc_tree = canonical_tree, lc_sor = canonical_sor, lc_protected = protected,
            lc_guard = guard\<rparr>))))))))))))))"

definition canonicalize_sor :: "'x context_ext_scheme \<Rightarrow> string \<Rightarrow> bytes \<Rightarrow> context_error + json \<times> bytes" where
  "canonicalize_sor x sid_json sor =
     attempt (load_sor x sid_json sor) (\<lambda>l. Inr (lc_tree l, lc_sor l))"

text \<open>The parser of a SID file of the model library is used nowhere else and is an argument.\<close>

definition validate_sid_with_both_models ::
  "'x context_ext_scheme \<Rightarrow> (string \<Rightarrow> string + 's) \<Rightarrow> string \<Rightarrow> context_error + 's \<times> sid_registry" where
  "validate_sid_with_both_models x sid_file_from_json_str sid_json =
     attempt (map_err Model (sid_file_from_json_str sid_json)) (\<lambda>sid_file.
     attempt (map_err Schc (registry_from_json_str x sid_json)) (\<lambda>registry. Inr (sid_file, registry)))"

definition tree_from_sor :: "'x context_ext_scheme \<Rightarrow> string \<Rightarrow> bytes \<Rightarrow> context_error + json" where
  "tree_from_sor x sid_json sor = attempt (load_sor x sid_json sor) (\<lambda>l. Inr (lc_tree l))"

definition derive_protected_management_rule_ids ::
  "'x context_ext_scheme \<Rightarrow> string \<Rightarrow> bytes \<Rightarrow> context_error + rule_id list" where
  "derive_protected_management_rule_ids x sid_json sor =
     attempt (load_sor x sid_json sor) (\<lambda>l. Inr (protected_ids (lc_protected l)))"

definition canonical_sor_from_tree :: "'x context_ext_scheme \<Rightarrow> string \<Rightarrow> json \<Rightarrow> context_error + bytes" where
  "canonical_sor_from_tree x sid_json tree =
     attempt (map_err Model (model_from_sid_str x sid_json)) (\<lambda>model.
     attempt (normalize_tree tree) (\<lambda>normalized.
     if normalized \<noteq> tree then Inl NonCanonicalCandidate else
     attempt (encode_tree x model tree) (\<lambda>sor.
     attempt (load_sor x sid_json sor) (\<lambda>loaded.
     if lc_tree loaded \<noteq> tree then Inl NonCanonicalCandidate else Inr (lc_sor loaded)))))"

subsection \<open>Construction parameters and sources\<close>

record recipe =
  rc_sid_json :: string
  rc_device :: device_id
  rc_profile :: device_profile
  rc_dynamic :: "namespace option"
  rc_context_profile :: "context_profile option"

datatype context_source = SorSource bytes | TreeSource json

fun load_source :: "'x context_ext_scheme \<Rightarrow> string \<Rightarrow> context_source \<Rightarrow> context_error + loaded_context" where
  "load_source x sid_json (SorSource sor) = load_sor x sid_json sor"
| "load_source x sid_json (TreeSource tree) =
     attempt (map_err Model (model_from_sid_str x sid_json)) (\<lambda>model.
     attempt (normalize_tree tree) (\<lambda>canonical_tree.
     if canonical_tree \<noteq> tree then Inl NonCanonicalCandidate else
     attempt (encode_tree x model canonical_tree) (\<lambda>sor.
     attempt (load_sor x sid_json sor) (\<lambda>loaded.
     if lc_tree loaded \<noteq> canonical_tree then Inl NonCanonicalCandidate else Inr loaded))))"

subsection \<open>The application runtime\<close>

definition i64_checked_sub :: "int \<Rightarrow> int \<Rightarrow> int option" where
  "i64_checked_sub a b =
     (let d = a - b in if - (2 ^ 63) \<le> d \<and> d \<le> i64_max then Some d else None)"

fun cbor_i64 :: "cbor \<Rightarrow> int option" where
  "cbor_i64 (CInteger i) = (if - (2 ^ 63) \<le> i \<and> i \<le> i64_max then Some i else None)"
| "cbor_i64 _ = None"

fun cbor_u64 :: "cbor \<Rightarrow> nat option" where
  "cbor_u64 (CInteger i) = (if 0 \<le> i \<and> i < 2 ^ 64 then Some (nat i) else None)"
| "cbor_u64 _ = None"

fun cbor_map_value :: "cbor \<Rightarrow> int \<Rightarrow> cbor option" where
  "cbor_map_value (CMap es) sid = map_option snd (List.find (\<lambda>e. cbor_i64 (fst e) = Some sid) es)"
| "cbor_map_value _ sid = None"

text \<open>
  \<open>cbor_map_value_mut\<close> lends the same value for update: \<open>cbor_map_update\<close> is the value after the
  borrowed part has been replaced.
\<close>

fun update_first :: "('k \<Rightarrow> bool) \<Rightarrow> 'v \<Rightarrow> ('k \<times> 'v) list \<Rightarrow> ('k \<times> 'v) list" where
  "update_first P w [] = []"
| "update_first P w ((k, v) # es) = (if P k then (k, w) # es else (k, v) # update_first P w es)"

fun cbor_map_update :: "cbor \<Rightarrow> int \<Rightarrow> cbor \<Rightarrow> cbor" where
  "cbor_map_update (CMap es) sid w = CMap (update_first (\<lambda>k. cbor_i64 k = Some sid) w es)"
| "cbor_map_update v sid w = v"

definition cbor_rule_id :: "int \<Rightarrow> int \<Rightarrow> cbor \<Rightarrow> rule_id option" where
  "cbor_rule_id value_delta length_delta r =
     (case (Option.bind (cbor_map_value r value_delta) cbor_u64,
            Option.bind (cbor_map_value r length_delta) cbor_u64) of
        (Some v, Some bits) \<Rightarrow> Some (RuleId v bits)
      | _ \<Rightarrow> None)"

definition retained :: "protected_rules \<Rightarrow> int \<Rightarrow> int \<Rightarrow> cbor \<Rightarrow> bool" where
  "retained ps value_delta length_delta r =
     (case cbor_rule_id value_delta length_delta r of
        Some i \<Rightarrow> \<not> protected_contains ps i
      | None \<Rightarrow> True)"

definition filter_sor_rules ::
  "coreconf_model \<Rightarrow> protected_rules \<Rightarrow> cbor \<Rightarrow> context_error + cbor" where
  "filter_sor_rules model ps v =
     attempt (ok_or (Model ''SID model is missing /ietf-schc:schc'') (get_sid model ''/ietf-schc:schc'')) (\<lambda>root_sid.
     attempt (ok_or (Model ''SID model is missing /ietf-schc:schc/rule'')
         (get_sid model ''/ietf-schc:schc/rule'')) (\<lambda>rule_sid.
     attempt (ok_or (Model ''SID model is missing rule-id-length'')
         (get_sid model ''/ietf-schc:schc/rule/rule-id-length'')) (\<lambda>length_sid.
     attempt (ok_or (Model ''SID model is missing rule-id-value'')
         (get_sid model ''/ietf-schc:schc/rule/rule-id-value'')) (\<lambda>value_sid.
     attempt (ok_or (Model ''rule SID precedes the SCHC root SID'')
         (i64_checked_sub rule_sid root_sid)) (\<lambda>rule_delta.
     attempt (ok_or (Model ''rule-id-length SID precedes the rule SID'')
         (i64_checked_sub length_sid rule_sid)) (\<lambda>length_delta.
     attempt (ok_or (Model ''rule-id-value SID precedes the rule SID'')
         (i64_checked_sub value_sid rule_sid)) (\<lambda>value_delta.
     attempt (ok_or (Cbor ''missing SCHC root in canonical SoR'') (cbor_map_value v root_sid)) (\<lambda>root.
     (case cbor_map_value root rule_delta of
        Some (CArray rules) \<Rightarrow>
          Inr (cbor_map_update v root_sid (cbor_map_update root rule_delta
                 (CArray (filter (retained ps value_delta length_delta) rules))))
      | _ \<Rightarrow> Inl (Cbor ''missing rule list in canonical SoR''))))))))))"

definition application_runtime ::
  "'x context_ext_scheme \<Rightarrow> bytes \<Rightarrow> coreconf_model \<Rightarrow> sid_registry \<Rightarrow> protected_rules \<Rightarrow> rule_context
     \<Rightarrow> device_id \<Rightarrow> device_profile \<Rightarrow> context_error + runtime \<times> rule_id list" where
  "application_runtime x sor model registry ps ctx device profile =
     (if protected_ids ps = [] then
        attempt (map_err RuntimeError (runtime_new x device ctx profile)) (\<lambda>rt.
          Inr (rt, map rule_id_of (ctx_rules ctx)))
      else
        attempt (map_err Cbor (from_reader x sor)) (\<lambda>(v, _).
        attempt (filter_sor_rules model ps v) (\<lambda>filtered.
        attempt (map_err Cbor (into_writer x filtered)) (\<lambda>filtered_sor.
        attempt (map_err Schc (context_from_cbor_slice x filtered_sor registry)) (\<lambda>fctx.
        attempt (map_err RuntimeError (runtime_new x device fctx profile)) (\<lambda>rt.
          Inr (rt, map rule_id_of (ctx_rules fctx))))))))"

subsection \<open>Prepared contexts\<close>

record context_data =
  cd_tree :: json
  cd_sor :: bytes
  cd_runtime :: runtime
  cd_application_runtime :: runtime
  cd_application_rule_ids :: "rule_id list"
  cd_protected :: protected_rules
  cd_guard :: "guard_period option"
  cd_rule_ids :: "rule_id list"
  cd_rules :: "rule list"
  cd_digest :: bytes
  cd_tag :: bytes

record prepared_context =
  pc_recipe :: recipe
  pc_data :: context_data

definition check_namespace :: "rule_context \<Rightarrow> namespace option \<Rightarrow> context_error + namespace option" where
  "check_namespace ctx dyn =
     (case dyn of
        None \<Rightarrow> Inr None
      | Some ns \<Rightarrow>
          attempt (map_err RuleIdTree (validate ns)) (\<lambda>n.
          (case List.find (\<lambda>r. overlaps (rule_id_of r) (spec_rule_id (prefix n)) \<and> \<not> accepts n (rule_id_of r))
                  (ctx_rules ctx) of
             Some r \<Rightarrow> Inl (RuleIdTree (Collision (id_value (rule_id_of r)) (bit_len (rule_id_of r))))
           | None \<Rightarrow> Inr (Some n))))"

definition from_loaded ::
  "'x context_ext_scheme \<Rightarrow> recipe \<Rightarrow> loaded_context \<Rightarrow> context_error + prepared_context" where
  "from_loaded x rc l =
     attempt (check_namespace (lc_rule_context l) (rc_dynamic rc)) (\<lambda>dyn.
     attempt (map_err RuntimeError (runtime_new x (rc_device rc) (lc_rule_context l) (rc_profile rc))) (\<lambda>rt.
     attempt (application_runtime x (lc_sor l) (lc_model l) (lc_registry l) (lc_protected l)
                (lc_rule_context l) (rc_device rc) (rc_profile rc)) (\<lambda>(app, app_ids).
     attempt (digest_context x (lc_tree l) (lc_sor l)) (\<lambda>digest.
       Inr \<lparr>pc_recipe = rc\<lparr>rc_dynamic := dyn\<rparr>,
            pc_data = \<lparr>cd_tree = lc_tree l, cd_sor = lc_sor l, cd_runtime = rt,
              cd_application_runtime = app, cd_application_rule_ids = app_ids,
              cd_protected = lc_protected l, cd_guard = lc_guard l,
              cd_rule_ids = map rule_id_of (ctx_rules (lc_rule_context l)),
              cd_rules = ctx_rules (lc_rule_context l),
              cd_digest = digest, cd_tag = context_tag digest\<rparr>\<rparr>))))"

definition from_source ::
  "'x context_ext_scheme \<Rightarrow> recipe \<Rightarrow> context_source \<Rightarrow> context_error + prepared_context" where
  "from_source x rc src =
     attempt (load_source x (rc_sid_json rc) src) (\<lambda>l. from_loaded x rc l)"

definition prepared_from_sor ::
  "'x context_ext_scheme \<Rightarrow> string \<Rightarrow> bytes \<Rightarrow> device_id \<Rightarrow> device_profile \<Rightarrow> context_error + prepared_context" where
  "prepared_from_sor x sid_json sor device profile =
     from_source x \<lparr>rc_sid_json = sid_json, rc_device = device, rc_profile = profile,
       rc_dynamic = None, rc_context_profile = None\<rparr> (SorSource sor)"

definition from_sor_with_context_profile ::
  "'x context_ext_scheme \<Rightarrow> string \<Rightarrow> bytes \<Rightarrow> device_id \<Rightarrow> device_profile \<Rightarrow> context_profile
     \<Rightarrow> context_error + prepared_context" where
  "from_sor_with_context_profile x sid_json sor device profile cp =
     attempt (map_err RuleIdTree (profile_validate cp)) (\<lambda>cp'.
       from_source x \<lparr>rc_sid_json = sid_json, rc_device = device, rc_profile = profile,
         rc_dynamic = dynamic_rule_ids cp', rc_context_profile = Some cp'\<rparr> (SorSource sor))"

definition prepared_from_tree ::
  "'x context_ext_scheme \<Rightarrow> string \<Rightarrow> json \<Rightarrow> device_id \<Rightarrow> device_profile \<Rightarrow> context_error + prepared_context" where
  "prepared_from_tree x sid_json tree device profile =
     from_source x \<lparr>rc_sid_json = sid_json, rc_device = device, rc_profile = profile,
       rc_dynamic = None, rc_context_profile = None\<rparr> (TreeSource tree)"

definition from_tree_for_recipe ::
  "'x context_ext_scheme \<Rightarrow> recipe \<Rightarrow> json \<Rightarrow> context_error + prepared_context" where
  "from_tree_for_recipe x rc tree = from_source x rc (TreeSource tree)"

subsection \<open>The active context\<close>

record context_snapshot =
  sn_data :: context_data
  sn_generation :: nat
  sn_dynamic :: "namespace option"
  sn_context_profile :: "context_profile option"

definition from_prepared :: "prepared_context \<Rightarrow> nat \<Rightarrow> context_snapshot" where
  "from_prepared p g =
     \<lparr>sn_data = pc_data p, sn_generation = g, sn_dynamic = rc_dynamic (pc_recipe p),
      sn_context_profile = rc_context_profile (pc_recipe p)\<rparr>"

definition contains_rule_id :: "context_snapshot \<Rightarrow> rule_id \<Rightarrow> bool" where
  "contains_rule_id s i \<longleftrightarrow> i \<in> set (cd_rule_ids (sn_data s))"

definition contains_application_rule_id :: "context_snapshot \<Rightarrow> rule_id \<Rightarrow> bool" where
  "contains_application_rule_id s i \<longleftrightarrow> i \<in> set (cd_application_rule_ids (sn_data s))"

record active_context =
  ac_snapshot :: context_snapshot
  ac_recipe :: recipe

definition active_new :: "prepared_context \<Rightarrow> active_context" where
  "active_new p = \<lparr>ac_snapshot = from_prepared p 1, ac_recipe = pc_recipe p\<rparr>"

text \<open>The generation is a \<open>u64\<close>; the code panics when it would overflow, which is \<open>None\<close> here.\<close>

definition publish_locked :: "active_context \<Rightarrow> prepared_context \<Rightarrow> active_context option" where
  "publish_locked a p =
     (let g = sn_generation (ac_snapshot a) + 1 in
      if u64_bound \<le> g then None else Some (a\<lparr>ac_snapshot := from_prepared p g\<rparr>))"

definition validate_candidate ::
  "'x context_ext_scheme \<Rightarrow> active_context \<Rightarrow> context_snapshot \<Rightarrow> prepared_context \<Rightarrow> context_error + unit" where
  "validate_candidate x a current p =
     (if rc_sid_json (pc_recipe p) \<noteq> rc_sid_json (ac_recipe a)
       \<or> rc_device (pc_recipe p) \<noteq> rc_device (ac_recipe a)
       \<or> rc_profile (pc_recipe p) \<noteq> rc_profile (ac_recipe a)
       \<or> rc_dynamic (pc_recipe p) \<noteq> rc_dynamic (ac_recipe a)
       \<or> rc_context_profile (pc_recipe p) \<noteq> rc_context_profile (ac_recipe a)
      then Inl CandidateRecipeMismatch
      else
        attempt (canonical_sor_from_tree x (rc_sid_json (ac_recipe a)) (cd_tree (pc_data p))) (\<lambda>sor.
        if sor \<noteq> cd_sor (pc_data p) then Inl NonCanonicalCandidate
        else enforce (debug_rule_ids x) (cd_protected (sn_data current)) (cd_protected (pc_data p))))"

subsection \<open>The datastore backend\<close>

fun show_rule_id_tree_error :: "rule_id_tree_error \<Rightarrow> string" where
  "show_rule_id_tree_error (Invalid e) = ''invalid RuleID tree configuration: '' @ e"
| "show_rule_id_tree_error (Collision v len) =
     ''RuleID tree namespace overlaps existing RuleID '' @ show_nat v @ ''/'' @ show_nat len"
| "show_rule_id_tree_error Exhausted = ''dynamic RuleID namespace is exhausted''"

fun show_context_error :: "context_error \<Rightarrow> string" where
  "show_context_error (Cbor e) = ''invalid complete CBOR: '' @ e"
| "show_context_error (Model e) = ''model loading failed: '' @ e"
| "show_context_error (Schc e) = ''SCHC context construction failed: '' @ e"
| "show_context_error (RuntimeError e) = ''SCHC runtime construction failed: '' @ e"
| "show_context_error NonCanonicalCandidate = ''candidate tree is not canonical''"
| "show_context_error (ProtectedRuleChanged e) = ''protected management rule changed: '' @ e"
| "show_context_error CandidateRecipeMismatch =
     ''candidate construction parameters differ from the active context''"
| "show_context_error (Rustconf e) = ''rustconf error: '' @ e"
| "show_context_error (RuleIdTree e) = ''invalid dynamic RuleID namespace: '' @ show_rule_id_tree_error e"

definition backend_error :: "context_error \<Rightarrow> string" where
  "backend_error e = ''schc-coreconf backend rejected candidate: '' @ show_context_error e"

text \<open>
  A backend handle remembers the digest of the snapshot it read. Handles share the active
  context; every operation runs under the writer lock or reads one snapshot, so it is one step
  on the pair of the active context and the handle's digest.
\<close>

datatype replace_outcome = Published | Rejected string | Panicked

definition backend_new :: "active_context \<Rightarrow> bytes option" where
  "backend_new a = Some (cd_digest (sn_data (ac_snapshot a)))"

definition read_tree :: "active_context \<Rightarrow> bytes option \<times> json" where
  "read_tree a = (Some (cd_digest (sn_data (ac_snapshot a))), cd_tree (sn_data (ac_snapshot a)))"

definition replace_tree ::
  "'x context_ext_scheme \<Rightarrow> active_context \<Rightarrow> bytes option \<Rightarrow> json
     \<Rightarrow> active_context \<times> bytes option \<times> replace_outcome" where
  "replace_tree x a observed next =
     (let current = ac_snapshot a in
      if observed \<noteq> Some (cd_digest (sn_data current)) then
        (a, observed, Rejected ''active context changed while candidate was being built'')
      else case from_tree_for_recipe x (ac_recipe a) next of
        Inl e \<Rightarrow> (a, observed, Rejected (backend_error e))
      | Inr p \<Rightarrow>
          (case validate_candidate x a current p of
             Inl e \<Rightarrow> (a, observed, Rejected (backend_error e))
           | Inr _ \<Rightarrow>
               (case publish_locked a p of
                  None \<Rightarrow> (a, observed, Panicked)
                | Some a' \<Rightarrow> (a', Some (cd_digest (pc_data p)), Published))))"

subsection \<open>Loaded contexts are coherent\<close>

text \<open>
  Every component of a loaded context is determined by its canonical encoding, which is itself
  the encoding of its tree. \<open>rooted\<close> is the one check the loader makes on its input only.
\<close>

definition coherent :: "'x context_ext_scheme \<Rightarrow> string \<Rightarrow> loaded_context \<Rightarrow> bool" where
  "coherent x sid_json l \<longleftrightarrow>
     model_from_sid_str x sid_json = Inr (lc_model l) \<and>
     registry_from_json_str x sid_json = Inr (lc_registry l) \<and>
     get_sid (lc_model l) ''/ietf-schc:schc'' \<noteq> None \<and>
     encode_tree x (lc_model l) (lc_tree l) = Inr (lc_sor l) \<and>
     (\<exists>t. to_value (lc_model l) (lc_sor l) = Inr t \<and> normalize_tree t = Inr (lc_tree l)) \<and>
     context_from_cbor_slice x (lc_sor l) (lc_registry l) = Inr (lc_rule_context l) \<and>
     derive (lc_rule_context l) = Inr (lc_protected l) \<and>
     guard_period_from_tree (lc_tree l) = Inr (lc_guard l)"

definition rooted :: "'x context_ext_scheme \<Rightarrow> coreconf_model \<Rightarrow> bytes \<Rightarrow> bool" where
  "rooted x model sor \<longleftrightarrow>
     (\<exists>v root_sid. strict_cbor_value x sor = Inr v \<and> get_sid model ''/ietf-schc:schc'' = Some root_sid \<and>
        ensure_schc_root v root_sid = Inr ())"

lemma load_sor_coherent:
  assumes "load_sor x sid_json sor = Inr l"
  shows "coherent x sid_json l" and "rooted x (lc_model l) sor"
  using assms
  by (auto simp: load_sor_def coherent_def rooted_def result_simps split: if_splits)

lemma normalize_idem: "normalize_tree v = Inr w \<Longrightarrow> normalize_tree w = Inr w"
  using normalize_normal(1) normalize_id(1) unfolding normalize_tree_def by blast

lemma encode_tree_strict: "encode_tree x model tree = Inr bs \<Longrightarrow> \<exists>v. strict_cbor_value x bs = Inr v"
  by (auto simp: encode_tree_def result_simps)

lemma coherent_normal: "coherent x sid_json l \<Longrightarrow> normalize_tree (lc_tree l) = Inr (lc_tree l)"
  using normalize_idem by (auto simp: coherent_def)

lemma coherent_load:
  assumes "coherent x sid_json l" and "rooted x (lc_model l) (lc_sor l)"
  shows "load_sor x sid_json (lc_sor l) = Inr l"
  using assms by (auto simp: load_sor_def coherent_def rooted_def)

lemma coherent_source:
  assumes "coherent x sid_json l" and "rooted x (lc_model l) (lc_sor l)"
  shows "load_source x sid_json (TreeSource (lc_tree l)) = Inr l"
    and "canonical_sor_from_tree x sid_json (lc_tree l) = Inr (lc_sor l)"
  using coherent_load [OF assms] coherent_normal [OF assms(1)] assms(1)
  by (auto simp: canonical_sor_from_tree_def coherent_def)

lemma load_source_coherent:
  assumes "load_source x sid_json src = Inr l"
  shows "coherent x sid_json l" and "src = TreeSource t \<Longrightarrow> lc_tree l = t"
  using assms by (cases src; auto simp: result_simps dest: load_sor_coherent split: if_splits)+

lemma tree_source_rooted:
  assumes "load_source x sid_json (TreeSource t) = Inr l"
  shows "rooted x (lc_model l) (lc_sor l)"
proof -
  obtain model sor where m: "model_from_sid_str x sid_json = Inr model"
    and e: "encode_tree x model t = Inr sor" and l: "load_sor x sid_json sor = Inr l" and t: "lc_tree l = t"
    using assms by (auto simp: result_simps split: if_splits)
  from load_sor_coherent(1) [OF l] m have "encode_tree x model t = Inr (lc_sor l)"
    by (auto simp: coherent_def t)
  with e load_sor_coherent(2) [OF l] show ?thesis by simp
qed

subsection \<open>Prepared contexts are coherent\<close>

definition prepared_for :: "'x context_ext_scheme \<Rightarrow> prepared_context \<Rightarrow> loaded_context \<Rightarrow> bool" where
  "prepared_for x p l \<longleftrightarrow> coherent x (rc_sid_json (pc_recipe p)) l \<and> from_loaded x (pc_recipe p) l = Inr p"

lemma check_namespace_idem:
  "check_namespace ctx dyn = Inr d \<Longrightarrow> check_namespace ctx d = Inr d"
  by (auto simp: check_namespace_def result_simps validate_idem split: option.splits)

lemma check_namespace_unique:
  "check_namespace c dyn = Inr d \<Longrightarrow> check_namespace c' dyn = Inr d' \<Longrightarrow> d = d'"
  by (auto simp: check_namespace_def result_simps split: option.splits)

lemma from_loaded_namespace:
  "from_loaded x rc l = Inr p \<Longrightarrow>
     check_namespace (lc_rule_context l) (rc_dynamic rc) = Inr (rc_dynamic (pc_recipe p))"
  by (auto simp: from_loaded_def attempt_Inr_iff)

lemma from_loaded_recipe:
  assumes "from_loaded x rc l = Inr p"
  shows "from_loaded x (pc_recipe p) l = Inr p"
    and "rc_sid_json (pc_recipe p) = rc_sid_json rc" and "rc_device (pc_recipe p) = rc_device rc"
    and "rc_profile (pc_recipe p) = rc_profile rc"
    and "rc_context_profile (pc_recipe p) = rc_context_profile rc"
    and "cd_tree (pc_data p) = lc_tree l" and "cd_sor (pc_data p) = lc_sor l"
    and "cd_protected (pc_data p) = lc_protected l"
    and "cd_rules (pc_data p) = ctx_rules (lc_rule_context l)"
    and "cd_rule_ids (pc_data p) = map rule_id_of (ctx_rules (lc_rule_context l))"
    and "digest_context x (lc_tree l) (lc_sor l) = Inr (cd_digest (pc_data p))"
    and "cd_tag (pc_data p) = context_tag (cd_digest (pc_data p))"
  using assms by (auto simp: from_loaded_def result_simps dest: check_namespace_idem)

lemma from_source_prepared:
  assumes "from_source x rc src = Inr p"
  obtains l where "prepared_for x p l" and "load_source x (rc_sid_json rc) src = Inr l"
proof -
  obtain l where l: "load_source x (rc_sid_json rc) src = Inr l" and p: "from_loaded x rc l = Inr p"
    using assms by (auto simp: from_source_def result_simps)
  with load_source_coherent(1) [OF l] from_loaded_recipe(1,2) [OF p] that show ?thesis
    by (simp add: prepared_for_def)
qed

subsection \<open>Publication\<close>

text \<open>
  The one way the active context changes: a candidate tree built with the recipe of the active
  context, validated against the current snapshot under the writer lock, then published.
\<close>

definition active_prepared :: "active_context \<Rightarrow> prepared_context" where
  "active_prepared a = \<lparr>pc_recipe = ac_recipe a, pc_data = sn_data (ac_snapshot a)\<rparr>"

definition active_ok :: "'x context_ext_scheme \<Rightarrow> active_context \<Rightarrow> bool" where
  "active_ok x a \<longleftrightarrow>
     (\<exists>l. prepared_for x (active_prepared a) l) \<and>
     1 \<le> sn_generation (ac_snapshot a) \<and> sn_generation (ac_snapshot a) < u64_bound \<and>
     sn_dynamic (ac_snapshot a) = rc_dynamic (ac_recipe a) \<and>
     sn_context_profile (ac_snapshot a) = rc_context_profile (ac_recipe a)"

inductive publication :: "'x context_ext_scheme \<Rightarrow> active_context \<Rightarrow> active_context \<Rightarrow> bool" for x where
  publish: "from_tree_for_recipe x (ac_recipe a) tree = Inr p \<Longrightarrow>
     validate_candidate x a (ac_snapshot a) p = Inr () \<Longrightarrow>
     publish_locked a p = Some a' \<Longrightarrow> publication x a a'"

inductive_cases publicationE: "publication x a a'"

abbreviation active_data :: "active_context \<Rightarrow> context_data" where
  "active_data a \<equiv> sn_data (ac_snapshot a)"

abbreviation active_generation :: "active_context \<Rightarrow> nat" where
  "active_generation a \<equiv> sn_generation (ac_snapshot a)"

lemma validate_candidate_Inr:
  assumes "validate_candidate x a s p = Inr u"
  shows "pc_recipe p = ac_recipe a"
    and "canonical_sor_from_tree x (rc_sid_json (ac_recipe a)) (cd_tree (pc_data p)) = Inr (cd_sor (pc_data p))"
    and "enforce (debug_rule_ids x) (cd_protected (sn_data s)) (cd_protected (pc_data p)) = Inr ()"
  using assms by (auto simp: validate_candidate_def attempt_Inr_iff split: if_splits)

lemma publish_locked_Some:
  "publish_locked a p = Some a' \<longleftrightarrow>
     active_generation a + 1 < u64_bound \<and> a' = a\<lparr>ac_snapshot := from_prepared p (active_generation a + 1)\<rparr>"
  by (auto simp: publish_locked_def Let_def)

lemma publish_locked_facts:
  assumes "publish_locked a p = Some a'"
  shows "active_data a' = pc_data p" and "active_generation a' = active_generation a + 1"
    and "ac_recipe a' = ac_recipe a"
  using assms by (simp_all add: publish_locked_Some from_prepared_def)

lemma prepared_for_protected:
  assumes "prepared_for x p l"
  shows "derive (lc_rule_context l) = Inr (cd_protected (pc_data p))"
  using assms from_loaded_recipe(8) [of x "pc_recipe p" l p] by (auto simp: prepared_for_def coherent_def)

lemma active_new_ok:
  assumes "prepared_for x p l"
  shows "active_ok x (active_new p)"
proof -
  have "active_prepared (active_new p) = p"
    by (cases p) (simp add: active_prepared_def active_new_def from_prepared_def)
  with assms show ?thesis
    by (auto simp: active_ok_def active_new_def from_prepared_def u64_bound_def)
qed

lemma publication_ok:
  assumes "active_ok x a" and "publication x a a'"
  shows "active_ok x a'" and "cd_protected (active_data a') = cd_protected (active_data a)"
proof -
  obtain tree p where p: "from_tree_for_recipe x (ac_recipe a) tree = Inr p"
    and v: "validate_candidate x a (ac_snapshot a) p = Inr ()" and a': "publish_locked a p = Some a'"
    using assms(2) by (rule publicationE)
  obtain l where l: "prepared_for x p l"
    using p from_source_prepared unfolding from_tree_for_recipe_def by blast
  have "active_prepared a' = p"
    using a' validate_candidate_Inr(1) [OF v] by (simp add: active_prepared_def publish_locked_facts)
  with l a' validate_candidate_Inr(1) [OF v] show "active_ok x a'"
    by (auto simp: active_ok_def publish_locked_Some from_prepared_def)
  obtain k where k: "prepared_for x (active_prepared a) k"
    using assms(1) by (auto simp: active_ok_def)
  have "cd_protected (pc_data (active_prepared a)) = cd_protected (pc_data p)"
    using prepared_for_protected [OF k] prepared_for_protected [OF l] validate_candidate_Inr(3) [OF v]
    by (intro enforce_derived [where dbg = "debug_rule_ids x"]) (simp_all add: active_prepared_def)
  with a' show "cd_protected (active_data a') = cd_protected (active_data a)"
    by (simp add: active_prepared_def publish_locked_facts)
qed

lemma publication_facts:
  assumes "publication x a a'"
  shows "active_generation a' = active_generation a + 1" and "ac_recipe a' = ac_recipe a"
  using assms by (auto elim!: publicationE simp: publish_locked_facts)

lemma publishable:
  assumes ok: "active_ok x a" and p: "from_tree_for_recipe x (ac_recipe a) tree = Inr p"
    and same: "enforce (debug_rule_ids x) (cd_protected (active_data a)) (cd_protected (pc_data p)) = Inr ()"
  shows "validate_candidate x a (ac_snapshot a) p = Inr ()"
proof -
  obtain l where src: "load_source x (rc_sid_json (ac_recipe a)) (TreeSource tree) = Inr l"
    and fl: "from_loaded x (ac_recipe a) l = Inr p"
    using p by (auto simp: from_tree_for_recipe_def from_source_def attempt_Inr_iff simp del: load_source.simps)
  obtain k where "from_loaded x (ac_recipe a) k = Inr (active_prepared a)"
    using ok by (auto simp: active_ok_def prepared_for_def active_prepared_def)
  from from_loaded_namespace [OF this] from_loaded_namespace [OF fl]
  have "rc_dynamic (pc_recipe p) = rc_dynamic (ac_recipe a)"
    by (auto simp: active_prepared_def dest: check_namespace_unique)
  with from_loaded_recipe [OF fl] have "pc_recipe p = ac_recipe a"
    by (cases "pc_recipe p"; cases "ac_recipe a") simp
  moreover have "canonical_sor_from_tree x (rc_sid_json (ac_recipe a)) (lc_tree l) = Inr (lc_sor l)"
    using coherent_source(2) load_source_coherent(1) [OF src] tree_source_rooted [OF src] by blast
  ultimately show ?thesis
    using from_loaded_recipe [OF fl] same by (simp add: validate_candidate_def)
qed

subsection \<open>The interface of a publisher\<close>

text \<open>
  What the readers of the active context rely on, whoever publishes: a step keeps the invariant
  and the policy, and either leaves the published content alone or gives it the next generation.
  The consequences for whole runs are proved here once, for a single writer and for the shared
  system of backend handles.
\<close>

locale publisher =
  fixes step :: "'s \<Rightarrow> 's \<Rightarrow> bool"
    and ok :: "'s \<Rightarrow> bool"
    and generation :: "'s \<Rightarrow> nat"
    and content :: "'s \<Rightarrow> 'c"
    and policy :: "'s \<Rightarrow> 'p"
  assumes step_ok: "ok s \<Longrightarrow> step s t \<Longrightarrow> ok t"
    and step_policy: "ok s \<Longrightarrow> step s t \<Longrightarrow> policy t = policy s"
    and step_content: "step s t \<Longrightarrow>
      generation t = generation s + 1 \<or> generation t = generation s \<and> content t = content s"
begin

lemma run_ok: "step\<^sup>*\<^sup>* s t \<Longrightarrow> ok s \<Longrightarrow> ok t \<and> policy t = policy s"
proof (induction rule: rtranclp_induct)
  case (step y z)
  then show ?case using step_ok [of y z] step_policy [of y z] by simp
qed simp

lemma run_generation: "step\<^sup>*\<^sup>* s t \<Longrightarrow> generation s \<le> generation t"
proof (induction rule: rtranclp_induct)
  case (step y z)
  then show ?case using step_content [of y z] by auto
qed simp

lemma run_same_generation:
  "step\<^sup>*\<^sup>* s t \<Longrightarrow> generation t = generation s \<Longrightarrow> content t = content s"
proof (induction rule: rtranclp_induct)
  case (step y z)
  have "generation s \<le> generation y" using step.hyps(1) by (rule run_generation)
  with step step_content [of y z] show ?case by auto
qed simp

end

interpretation writer: publisher "publication x" "active_ok x" active_generation ac_snapshot
    "\<lambda>a. (cd_protected (active_data a), ac_recipe a)" for x
  by unfold_locales (auto simp: publication_ok publication_facts)

subsection \<open>Shared use through backend handles\<close>

record context_system =
  sy_active :: active_context
  sy_handles :: "bytes option list"

inductive system_step :: "'x context_ext_scheme \<Rightarrow> context_system \<Rightarrow> context_system \<Rightarrow> bool" for x where
  open_handle: "system_step x s (s\<lparr>sy_handles := sy_handles s @ [backend_new (sy_active s)]\<rparr>)"
| read_handle: "h < length (sy_handles s) \<Longrightarrow>
    system_step x s (s\<lparr>sy_handles := (sy_handles s)[h := fst (read_tree (sy_active s))]\<rparr>)"
| replace_handle: "h < length (sy_handles s) \<Longrightarrow>
    replace_tree x (sy_active s) (sy_handles s ! h) tree = (a, observed, r) \<Longrightarrow>
    system_step x s (s\<lparr>sy_active := a, sy_handles := (sy_handles s)[h := observed]\<rparr>)"
| other_writer: "publication x (sy_active s) a \<Longrightarrow> system_step x s (s\<lparr>sy_active := a\<rparr>)"

inductive_cases system_stepE: "system_step x s t"

lemma replace_tree_cases:
  obtains (kept) e where "replace_tree x a observed tree = (a, observed, Rejected e)"
  | (panicked) "replace_tree x a observed tree = (a, observed, Panicked)"
  | (published) p a' where "replace_tree x a observed tree = (a', Some (cd_digest (pc_data p)), Published)"
      and "observed = Some (cd_digest (active_data a))"
      and "from_tree_for_recipe x (ac_recipe a) tree = Inr p"
      and "validate_candidate x a (ac_snapshot a) p = Inr ()" and "publish_locked a p = Some a'"
proof (cases "observed = Some (cd_digest (active_data a))")
  case True
  note def = replace_tree_def [of x a observed tree, unfolded Let_def]
  show thesis
  proof (cases "from_tree_for_recipe x (ac_recipe a) tree")
    case (Inl e)
    with True that(1) [unfolded def] show thesis by simp
  next
    case p: (Inr p)
    show thesis
    proof (cases "validate_candidate x a (ac_snapshot a) p")
      case (Inl e)
      with True p that(1) [unfolded def] show thesis by simp
    next
      case v: (Inr u)
      with True p that(2) [unfolded def] that(3) [unfolded def] show thesis
        by (cases "publish_locked a p") auto
    qed
  qed
next
  case False
  then show thesis using that(1) by (simp add: replace_tree_def)
qed

lemma replace_tree_publication:
  assumes "replace_tree x a observed tree = (a', observed', r)"
  shows "a' = a \<and> observed' = observed \<and> r \<noteq> Published \<or> publication x a a' \<and> r = Published"
  using assms by (cases rule: replace_tree_cases [of x a observed tree]) (auto intro: publish)

lemma system_step_active:
  assumes "system_step x s t"
  shows "sy_active t = sy_active s \<or> publication x (sy_active s) (sy_active t)"
  using assms by (cases rule: system_step.cases) (auto dest: replace_tree_publication)

interpretation shared: publisher "system_step x" "\<lambda>s. active_ok x (sy_active s)"
    "\<lambda>s. active_generation (sy_active s)" "\<lambda>s. ac_snapshot (sy_active s)"
    "\<lambda>s. (cd_protected (active_data (sy_active s)), ac_recipe (sy_active s))" for x
proof unfold_locales
  fix s t
  assume "system_step x s t"
  note step = system_step_active [OF this]
  show "active_ok x (sy_active s) \<Longrightarrow> active_ok x (sy_active t)"
    using step writer.step_ok by auto
  show "active_ok x (sy_active s) \<Longrightarrow>
      (cd_protected (active_data (sy_active t)), ac_recipe (sy_active t))
      = (cd_protected (active_data (sy_active s)), ac_recipe (sy_active s))"
    using step writer.step_policy by metis
  show "active_generation (sy_active t) = active_generation (sy_active s) + 1 \<or>
      active_generation (sy_active t) = active_generation (sy_active s) \<and>
      ac_snapshot (sy_active t) = ac_snapshot (sy_active s)"
    using step writer.step_content by metis
qed

lemma replace_tree_Published_iff:
  "replace_tree x a observed tree = (a', observed', Published) \<longleftrightarrow>
     observed = Some (cd_digest (active_data a)) \<and>
     (\<exists>p. from_tree_for_recipe x (ac_recipe a) tree = Inr p \<and>
        validate_candidate x a (ac_snapshot a) p = Inr () \<and> publish_locked a p = Some a' \<and>
        observed' = Some (cd_digest (pc_data p)))"
  by (cases rule: replace_tree_cases [of x a observed tree])
    (auto simp: replace_tree_def Let_def split: if_splits)

lemma replace_own_tree:
  assumes ok: "active_ok x a" and model: "model_from_sid_str x (rc_sid_json (ac_recipe a)) = Inr model"
    and root: "rooted x model (cd_sor (active_data a))"
    and gen: "active_generation a + 1 < u64_bound"
  shows "replace_tree x a (fst (read_tree a)) (snd (read_tree a))
    = (a\<lparr>ac_snapshot := (ac_snapshot a)\<lparr>sn_generation := active_generation a + 1\<rparr>\<rparr>,
       fst (read_tree a), Published)"
proof -
  obtain l where l: "coherent x (rc_sid_json (ac_recipe a)) l"
    and fl: "from_loaded x (ac_recipe a) l = Inr (active_prepared a)"
    using ok by (auto simp: active_ok_def prepared_for_def active_prepared_def)
  note facts = from_loaded_recipe [OF fl]
  from facts l have tree: "cd_tree (active_data a) = lc_tree l" and sor: "cd_sor (active_data a) = lc_sor l"
    by (simp_all add: active_prepared_def)
  have "rooted x (lc_model l) (lc_sor l)" using l model root sor by (auto simp: coherent_def)
  from coherent_source(1) [OF l this] have
    src: "from_tree_for_recipe x (ac_recipe a) (cd_tree (active_data a)) = Inr (active_prepared a)"
    by (simp add: from_tree_for_recipe_def from_source_def tree fl del: load_source.simps)
  have "prepared_for x (active_prepared a) l"
    using l fl facts(1) by (simp add: prepared_for_def active_prepared_def)
  then have "distinct (protected_ids (cd_protected (active_data a)))"
    using derive_ids management_ids_props(1) by (fastforce dest: prepared_for_protected simp: active_prepared_def)
  then have "validate_candidate x a (ac_snapshot a) (active_prepared a) = Inr ()"
    using enforce_refl by (intro publishable [OF ok src]) (simp add: active_prepared_def)
  moreover have "from_prepared (active_prepared a) g = (ac_snapshot a)\<lparr>sn_generation := g\<rparr>" for g
    using ok by (cases "ac_snapshot a") (simp add: from_prepared_def active_prepared_def active_ok_def)
  ultimately show ?thesis
    using gen src by (simp add: replace_tree_def read_tree_def Let_def publish_locked_def active_prepared_def)
qed

subsection \<open>What the application runtime sees\<close>

lemma find_update_first:
  "List.find (\<lambda>e. P (fst e)) es \<noteq> None \<Longrightarrow>
     map_option snd (List.find (\<lambda>e. P (fst e)) (update_first P w es)) = Some w"
  by (induction P w es rule: update_first.induct) (auto split: if_splits)

lemma cbor_map_value_update:
  "cbor_map_value v sid \<noteq> None \<Longrightarrow> cbor_map_value (cbor_map_update v sid w) sid = Some w"
  using find_update_first [of "\<lambda>k. cbor_i64 k = Some sid"] by (cases v) fastforce+

text \<open>The rule list of an encoded context, at the two SIDs of the model.\<close>

definition sor_rules :: "coreconf_model \<Rightarrow> cbor \<Rightarrow> cbor list option" where
  "sor_rules model v =
     Option.bind (get_sid model ''/ietf-schc:schc'') (\<lambda>root_sid.
     Option.bind (get_sid model ''/ietf-schc:schc/rule'') (\<lambda>rule_sid.
     Option.bind (cbor_map_value v root_sid) (\<lambda>root.
     case cbor_map_value root (rule_sid - root_sid) of Some (CArray rules) \<Rightarrow> Some rules | _ \<Rightarrow> None)))"

definition sor_rule_id :: "coreconf_model \<Rightarrow> cbor \<Rightarrow> rule_id option" where
  "sor_rule_id model r =
     cbor_rule_id
       (the (get_sid model ''/ietf-schc:schc/rule/rule-id-value'') - the (get_sid model ''/ietf-schc:schc/rule''))
       (the (get_sid model ''/ietf-schc:schc/rule/rule-id-length'') - the (get_sid model ''/ietf-schc:schc/rule'')) r"

lemma i64_checked_sub_Some: "i64_checked_sub a b = Some d \<Longrightarrow> d = a - b"
  by (auto simp: i64_checked_sub_def Let_def split: if_splits)

lemma filter_sor_rules_spec:
  assumes "filter_sor_rules model ps v = Inr w"
  shows "\<exists>rules. sor_rules model v = Some rules \<and>
     sor_rules model w = Some (filter (\<lambda>r. \<not> (\<exists>i. sor_rule_id model r = Some i \<and> protected_contains ps i)) rules)"
proof -
  obtain root_sid rule_sid length_sid value_sid rule_delta length_delta value_delta root where
    sids: "get_sid model ''/ietf-schc:schc'' = Some root_sid"
      "get_sid model ''/ietf-schc:schc/rule'' = Some rule_sid"
      "get_sid model ''/ietf-schc:schc/rule/rule-id-length'' = Some length_sid"
      "get_sid model ''/ietf-schc:schc/rule/rule-id-value'' = Some value_sid"
    and deltas: "i64_checked_sub rule_sid root_sid = Some rule_delta"
      "i64_checked_sub length_sid rule_sid = Some length_delta"
      "i64_checked_sub value_sid rule_sid = Some value_delta"
    and root: "cbor_map_value v root_sid = Some root"
    and list: "(case cbor_map_value root rule_delta of
        Some (CArray rules) \<Rightarrow>
          Inr (cbor_map_update v root_sid (cbor_map_update root rule_delta
                 (CArray (filter (retained ps value_delta length_delta) rules))))
      | _ \<Rightarrow> Inl (Cbor ''missing rule list in canonical SoR'')) = Inr w"
    using assms unfolding filter_sor_rules_def attempt_Inr_iff ok_or_Inr_iff
    by (elim exE conjE)
  obtain rules where rules: "cbor_map_value root rule_delta = Some (CArray rules)"
    and w: "w = cbor_map_update v root_sid (cbor_map_update root rule_delta
        (CArray (filter (retained ps value_delta length_delta) rules)))"
    using list by (auto split: option.splits cbor.splits)
  have "retained ps value_delta length_delta
      = (\<lambda>r. \<not> (\<exists>i. sor_rule_id model r = Some i \<and> protected_contains ps i))"
    by (auto simp: retained_def sor_rule_id_def sids deltas [THEN i64_checked_sub_Some] split: option.splits)
  moreover have "rule_sid - root_sid = rule_delta" using i64_checked_sub_Some [OF deltas(1)] by simp
  ultimately show ?thesis
    using root rules by (simp add: sor_rules_def sids w cbor_map_value_update)
qed

subsection \<open>A concrete instance of the third-party code\<close>

text \<open>
  Two contexts, told apart by one byte; used to evaluate the properties at concrete inputs.
\<close>

definition demo_tree :: "bool \<Rightarrow> json" where
  "demo_tree b = JObject [(''v'', JBool b)]"

definition demo_bytes :: "bool \<Rightarrow> bytes" where
  "demo_bytes b = [if b then 1 else 0]"

definition demo_model :: coreconf_model where
  "demo_model =
     \<lparr>get_sid = (\<lambda>s. if s = ''/ietf-schc:schc'' then Some 1 else None),
      get_identifier = (\<lambda>_. None), get_keys = (\<lambda>_. None),
      to_value = (\<lambda>bs. Inr (demo_tree (bs = demo_bytes True))),
      json_to_cbor = (\<lambda>t. Inr (CMap [(CInteger 1, CBool (t = demo_tree True))])),
      sid_to_identifier_at = (\<lambda>v _. Inr v), identifier_to_sid_at = (\<lambda>v _. Inr v),
      validate_identifier = (\<lambda>_. Inr ()), identity_sid_for = (\<lambda>_. Inl []),
      sid_json_to_cbor = (\<lambda>_ _. Inl [])\<rparr>"

definition demo_rules :: rule_context where
  "demo_rules =
     (let rs = [\<lparr>rule_id_of = RuleId 5 3, nature = NatureCompression, rule_fields = []\<rparr>]
      in \<lparr>ctx_rules = rs, find_rule = (\<lambda>i. List.find (\<lambda>r. rule_id_of r = i) rs)\<rparr>)"

definition demo_runtime :: "device_id \<Rightarrow> runtime" where
  "demo_runtime d =
     \<lparr>rt_device = d,
      encode_detailed = (\<lambda>_ _ packet. Inr \<lparr>enc_rule_id = RuleId 5 3,
         enc_frame = \<lparr>frame_data = 160 # packet, frame_bits = 3 + 8 * length packet\<rparr>\<rparr>),
      decode_padded_detailed = (\<lambda>_ _ frame. case frame of [] \<Rightarrow> Inl ''short''
         | b # packet \<Rightarrow> Inr \<lparr>dec_rule_id = RuleId 5 3, dec_packet = packet\<rparr>)\<rparr>"

definition demo_ext :: context_ext where
  "demo_ext =
     \<lparr>from_reader = (\<lambda>bs. Inr (CMap [(CInteger 1, CBool (bs = demo_bytes True))], length bs)),
      into_writer = (\<lambda>v. Inr (demo_bytes (v = CMap [(CInteger 1, CBool True)]))),
      json_to_vec = (\<lambda>t. Inr (demo_bytes (t = demo_tree True))),
      sha256 = (\<lambda>bs. bs),
      model_from_sid_str = (\<lambda>_. Inr demo_model),
      registry_from_json_str = (\<lambda>_. Inr 0),
      context_from_cbor_slice = (\<lambda>_ _. Inr demo_rules),
      runtime_new = (\<lambda>d _ _. Inr (demo_runtime d)),
      debug_rule_ids = (\<lambda>_. [])\<rparr>"

definition demo_loaded :: "bool \<Rightarrow> loaded_context" where
  "demo_loaded b =
     \<lparr>lc_model = demo_model, lc_registry = 0, lc_rule_context = demo_rules,
      lc_tree = demo_tree b, lc_sor = demo_bytes b, lc_protected = [], lc_guard = None\<rparr>"

definition demo_prepared :: "bool \<Rightarrow> prepared_context" where
  "demo_prepared b =
     (let digest = digest_input (demo_bytes b) (demo_bytes b) in
      \<lparr>pc_recipe = \<lparr>rc_sid_json = ''m'', rc_device = 3, rc_profile = 0, rc_dynamic = None, rc_context_profile = None\<rparr>,
       pc_data = \<lparr>cd_tree = demo_tree b, cd_sor = demo_bytes b, cd_runtime = demo_runtime 3,
         cd_application_runtime = demo_runtime 3, cd_application_rule_ids = [RuleId 5 3],
         cd_protected = [], cd_guard = None, cd_rule_ids = [RuleId 5 3],
         cd_rules = ctx_rules demo_rules, cd_digest = digest, cd_tag = context_tag digest\<rparr>\<rparr>)"

lemma demo_eq [simp]:
  "demo_tree b = demo_tree c \<longleftrightarrow> b = c" "demo_bytes b = demo_bytes c \<longleftrightarrow> b = c" "length (demo_bytes b) = 1"
  by (simp_all add: demo_tree_def demo_bytes_def)

lemma demo_tree_normal [simp]: "normalize_tree (demo_tree b) = Inr (demo_tree b)"
  by (simp add: normalize_tree_def demo_tree_def)

lemma demo_model_simps [simp]:
  "get_sid demo_model ''/ietf-schc:schc'' = Some 1"
  "to_value demo_model bs = Inr (demo_tree (bs = demo_bytes True))"
  "json_to_cbor demo_model t = Inr (CMap [(CInteger 1, CBool (t = demo_tree True))])"
  by (simp_all add: demo_model_def)

lemma demo_ext_simps [simp]:
  "strict_cbor_value demo_ext bs = Inr (CMap [(CInteger 1, CBool (bs = demo_bytes True))])"
  "into_writer demo_ext v = Inr (demo_bytes (v = CMap [(CInteger 1, CBool True)]))"
  "json_to_vec demo_ext t = Inr (demo_bytes (t = demo_tree True))"
  "sha256 demo_ext = (\<lambda>bs. bs)"
  "model_from_sid_str demo_ext sid = Inr demo_model"
  "registry_from_json_str demo_ext sid = Inr 0"
  "context_from_cbor_slice demo_ext bs reg = Inr demo_rules"
  "runtime_new demo_ext d ctx prof = Inr (demo_runtime d)"
  by (simp_all add: demo_ext_def strict_cbor_value_def)

lemma demo_encode [simp]: "encode_tree demo_ext demo_model (demo_tree b) = Inr (demo_bytes b)"
  by (simp add: encode_tree_def)

lemma demo_derive [simp]: "derive demo_rules = Inr []"
  by (simp add: derive_def management_ids_def demo_rules_def Let_def)

lemma demo_guard [simp]: "guard_period_from_tree (demo_tree b) = Inr None"
  by (simp add: guard_period_from_tree_def demo_tree_def)

lemma demo_load [simp]: "load_sor demo_ext sid (demo_bytes b) = Inr (demo_loaded b)"
  by (simp add: load_sor_def demo_loaded_def ensure_schc_root_def)

lemma demo_from_tree [simp]:
  "from_tree_for_recipe demo_ext (pc_recipe (demo_prepared b)) (demo_tree c) = Inr (demo_prepared c)"
  by (simp add: from_tree_for_recipe_def from_source_def from_loaded_def check_namespace_def
      application_runtime_def digest_context_def demo_prepared_def demo_loaded_def demo_rules_def
      protected_ids_def Let_def)

lemma demo_prepared_for: "prepared_for demo_ext (demo_prepared b) (demo_loaded b)"
proof -
  have "prepared_for demo_ext (demo_prepared b) l" if "load_source demo_ext [] (TreeSource (demo_tree b)) = Inr l" for l
    using that demo_from_tree [of b b] load_source_coherent(1) [OF that]
    by (auto simp: prepared_for_def from_tree_for_recipe_def from_source_def coherent_def demo_loaded_def)
  then show ?thesis by (simp add: demo_loaded_def)
qed

lemma demo_active_ok: "active_ok demo_ext (active_new (demo_prepared b))"
  using demo_prepared_for by (rule active_new_ok)

text \<open>
  What is assumed of the libraries for two contexts: their hashed texts do not collide, their
  trees are printed differently when they differ, and a printed tree fits the address space.
\<close>

definition no_collision :: "'x context_ext_scheme \<Rightarrow> context_data \<Rightarrow> context_data \<Rightarrow> bool" where
  "no_collision x d e \<longleftrightarrow>
     (\<forall>w w'. json_to_vec x (cd_tree d) = Inr w \<and> json_to_vec x (cd_tree e) = Inr w' \<longrightarrow>
        length w < 2 ^ 64 \<and> length w' < 2 ^ 64 \<and> (w = w' \<longrightarrow> cd_tree d = cd_tree e) \<and>
        (sha256 x (digest_input w (cd_sor d)) = sha256 x (digest_input w' (cd_sor e)) \<longrightarrow>
           digest_input w (cd_sor d) = digest_input w' (cd_sor e)))"

lemma digest_identifies:
  assumes "active_ok x a" and "active_ok x b" and "cd_digest (active_data a) = cd_digest (active_data b)"
    and "no_collision x (active_data a) (active_data b)"
  shows "cd_tree (active_data a) = cd_tree (active_data b) \<and> cd_sor (active_data a) = cd_sor (active_data b)"
proof -
  have "\<exists>w. json_to_vec x (cd_tree (active_data c)) = Inr w \<and>
      cd_digest (active_data c) = sha256 x (digest_input w (cd_sor (active_data c)))"
    if "active_ok x c" for c
  proof -
    obtain l where "from_loaded x (ac_recipe c) l = Inr (active_prepared c)"
      using \<open>active_ok x c\<close> by (auto simp: active_ok_def prepared_for_def active_prepared_def)
    from from_loaded_recipe(6,7,11) [OF this] show ?thesis
      by (auto simp: active_prepared_def digest_context_def result_simps)
  qed
  from this [OF assms(1)] this [OF assms(2)] obtain w w' where
    w: "json_to_vec x (cd_tree (active_data a)) = Inr w" "json_to_vec x (cd_tree (active_data b)) = Inr w'"
    and eq: "sha256 x (digest_input w (cd_sor (active_data a))) = sha256 x (digest_input w' (cd_sor (active_data b)))"
    using assms(3) by auto
  then have *: "digest_input w (cd_sor (active_data a)) = digest_input w' (cd_sor (active_data b))"
    and len: "length w < 2 ^ 64" "length w' < 2 ^ 64"
    and inj: "w = w' \<longrightarrow> cd_tree (active_data a) = cd_tree (active_data b)"
    using assms(4) unfolding no_collision_def by blast+
  with digest_input_inject [OF * len] show ?thesis by blast
qed

subsection \<open>Properties\<close>

text \<open>C19: the loader is a fixpoint on its own output. When the canonical encoding still has the
  SCHC root, reloading it gives the same context in every component, converting its tree back
  gives the same bytes, and the tree is in normal form.\<close>

theorem load_sor_fixpoint:
  assumes "load_sor x sid_json sor = Inr l" and "rooted x (lc_model l) (lc_sor l)"
  shows "load_sor x sid_json (lc_sor l) = Inr l \<and>
     canonical_sor_from_tree x sid_json (lc_tree l) = Inr (lc_sor l) \<and>
     normal_value None (lc_tree l)"
proof -
  note c = load_sor_coherent(1) [OF assms(1)]
  have "normal_value None (lc_tree l)"
    using coherent_normal [OF c] normalize_normal(1) unfolding normalize_tree_def by blast
  with coherent_load [OF c assms(2)] coherent_source(2) [OF c assms(2)] show ?thesis by blast
qed

text \<open>A candidate tree is accepted only when it is canonical. The prepared context holds
  exactly that tree, its encoding, the protected rules of the rule context decoded from that
  encoding, and a tag that is the first eight bytes of the digest of the two.\<close>

theorem prepared_tree_exact:
  assumes "from_tree_for_recipe x rc tree = Inr p"
  shows "cd_tree (pc_data p) = tree \<and> normalize_tree tree = Inr tree \<and>
     (\<exists>model registry ctx. model_from_sid_str x (rc_sid_json rc) = Inr model \<and>
        encode_tree x model tree = Inr (cd_sor (pc_data p)) \<and>
        context_from_cbor_slice x (cd_sor (pc_data p)) registry = Inr ctx \<and>
        cd_rules (pc_data p) = ctx_rules ctx \<and> derive ctx = Inr (cd_protected (pc_data p))) \<and>
     digest_context x tree (cd_sor (pc_data p)) = Inr (cd_digest (pc_data p)) \<and>
     cd_tag (pc_data p) = take 8 (cd_digest (pc_data p))"
proof -
  obtain l where src: "load_source x (rc_sid_json rc) (TreeSource tree) = Inr l"
    and fl: "from_loaded x rc l = Inr p"
    using assms by (auto simp: from_tree_for_recipe_def from_source_def attempt_Inr_iff simp del: load_source.simps)
  note c = load_source_coherent(1) [OF src] and t = load_source_coherent(2) [OF src refl]
  from c t from_loaded_recipe [OF fl] coherent_normal [OF c] show ?thesis
    by (auto simp: coherent_def context_tag_def context_tag_len_def)
qed

text \<open>The rule list of the application view is the canonical one without the protected rules:
  every other rule stays, in its order and unchanged.\<close>

theorem application_view_drops_protected:
  assumes "filter_sor_rules model ps v = Inr w"
  shows "\<exists>rules. sor_rules model v = Some rules \<and>
     sor_rules model w = Some (filter (\<lambda>r. \<not> (\<exists>i. sor_rule_id model r = Some i \<and> protected_contains ps i)) rules)"
  using assms by (rule filter_sor_rules_spec)

text \<open>Replacement is compare-and-swap. It publishes exactly when the handle has observed the
  current digest and the candidate is built, is valid and has a generation left; the new snapshot
  is then the candidate at the next generation and the handle has observed it. In every other
  case the active context and the handle are unchanged.\<close>

theorem replace_tree_cas:
  "(replace_tree x a observed tree = (a', observed', Published) \<longleftrightarrow>
     observed = Some (cd_digest (active_data a)) \<and>
     (\<exists>p. from_tree_for_recipe x (ac_recipe a) tree = Inr p \<and>
        validate_candidate x a (ac_snapshot a) p = Inr () \<and>
        active_generation a + 1 < u64_bound \<and>
        a' = a\<lparr>ac_snapshot := from_prepared p (active_generation a + 1)\<rparr> \<and>
        observed' = Some (cd_digest (pc_data p)))) \<and>
   (snd (snd (replace_tree x a observed tree)) = Published \<or>
      fst (replace_tree x a observed tree) = a \<and> fst (snd (replace_tree x a observed tree)) = observed)"
proof
  show "snd (snd (replace_tree x a observed tree)) = Published \<or>
      fst (replace_tree x a observed tree) = a \<and> fst (snd (replace_tree x a observed tree)) = observed"
    by (cases rule: replace_tree_cases [of x a observed tree]) simp_all
qed (auto simp: replace_tree_Published_iff publish_locked_Some)

text \<open>Writing back the tree just read succeeds, whatever the context: it publishes the same
  content under the next generation.\<close>

theorem read_then_replace:
  assumes "active_ok x a" and "model_from_sid_str x (rc_sid_json (ac_recipe a)) = Inr model"
    and "rooted x model (cd_sor (active_data a))" and "active_generation a + 1 < u64_bound"
    and "read_tree a = (observed, tree)"
  shows "replace_tree x a observed tree
    = (a\<lparr>ac_snapshot := (ac_snapshot a)\<lparr>sn_generation := active_generation a + 1\<rparr>\<rparr>, observed, Published)"
  using replace_own_tree [OF assms(1-4)] by (simp add: assms(5))

text \<open>C13: whatever handles are opened, read and written in whatever order, and whoever else
  publishes, the protected rules and the construction parameters of the active context stay
  those of its start, it stays coherent, and its generation never decreases.\<close>

theorem run_keeps_protected_rules:
  assumes "(system_step x)\<^sup>*\<^sup>* s t" and "active_ok x (sy_active s)"
  shows "cd_protected (active_data (sy_active t)) = cd_protected (active_data (sy_active s)) \<and>
     ac_recipe (sy_active t) = ac_recipe (sy_active s) \<and> active_ok x (sy_active t) \<and>
     active_generation (sy_active s) \<le> active_generation (sy_active t)"
  using shared.run_ok [OF assms] shared.run_generation [OF assms(1)] by simp

text \<open>A generation names one snapshot. Two readers of a run that see the same generation see
  the same snapshot in every member.\<close>

theorem generation_names_snapshot:
  assumes "(system_step x)\<^sup>*\<^sup>* s t" and "active_generation (sy_active t) = active_generation (sy_active s)"
  shows "ac_snapshot (sy_active t) = ac_snapshot (sy_active s)"
  using assms by (rule shared.run_same_generation)

text \<open>C14: no update is lost. When a handle that read the context in state \<open>s\<close> publishes in a later
  state \<open>t\<close>, the tree and the encoding it replaces are those it read, provided their hashes do not
  collide and their printed trees differ when they do.\<close>

theorem no_lost_update:
  assumes "active_ok x (sy_active s)" and "(system_step x)\<^sup>*\<^sup>* s t"
    and "replace_tree x (sy_active t) (fst (read_tree (sy_active s))) tree = (a', observed', Published)"
    and "no_collision x (active_data (sy_active t)) (active_data (sy_active s))"
  shows "cd_tree (active_data (sy_active t)) = snd (read_tree (sy_active s)) \<and>
     cd_sor (active_data (sy_active t)) = cd_sor (active_data (sy_active s))"
proof -
  have "active_ok x (sy_active t)" using shared.run_ok [OF assms(2,1)] by simp
  moreover have "cd_digest (active_data (sy_active t)) = cd_digest (active_data (sy_active s))"
    using assms(3) by (simp add: replace_tree_Published_iff read_tree_def)
  ultimately show ?thesis
    using digest_identifies [of x "sy_active t" "sy_active s"] assms(1,4) by (simp add: read_tree_def)
qed

subsection \<open>Concrete runs\<close>

lemma demo_rooted [simp]: "rooted demo_ext demo_model bs"
  by (simp add: rooted_def ensure_schc_root_def)

lemma load_sor_fixpoint_witness:
  "canonical_sor_from_tree demo_ext ''m'' (demo_tree True) = Inr (demo_bytes True)"
  using load_sor_fixpoint [of demo_ext "''m''" "demo_bytes True" "demo_loaded True"]
  by (simp add: demo_loaded_def [of True])

lemma prepared_tree_exact_witness:
  "cd_tag (pc_data (demo_prepared True)) = take 8 (cd_digest (pc_data (demo_prepared True)))"
  using prepared_tree_exact [OF demo_from_tree [of True True]] by blast

definition filter_model :: coreconf_model where
  "filter_model = demo_model\<lparr>get_sid := (\<lambda>s. map_of
     [(''/ietf-schc:schc'', 10), (''/ietf-schc:schc/rule'', 20),
      (''/ietf-schc:schc/rule/rule-id-length'', 23), (''/ietf-schc:schc/rule/rule-id-value'', 25)] s)\<rparr>"

definition cbor_rule :: "int \<Rightarrow> int \<Rightarrow> cbor" where
  "cbor_rule v len = CMap [(CInteger 5, CInteger v), (CInteger 3, CInteger len)]"

lemma application_view_drops_protected_witness:
  "sor_rules filter_model (CMap [(CInteger 10, CMap [(CInteger 10, CArray [cbor_rule 5 3])])]) = Some [cbor_rule 5 3]"
proof -
  let ?ps = "[\<lparr>pr_id = RuleId 2 3,
      pr_rule = \<lparr>rule_id_of = RuleId 2 3, nature = NatureManagement, rule_fields = []\<rparr>\<rparr>]"
  have "filter_sor_rules filter_model ?ps
      (CMap [(CInteger 10, CMap [(CInteger 10, CArray [cbor_rule 2 3, cbor_rule 5 3])])])
    = Inr (CMap [(CInteger 10, CMap [(CInteger 10, CArray [cbor_rule 5 3])])])"
    by (simp add: filter_sor_rules_def filter_model_def i64_checked_sub_def i64_max_def Let_def
        retained_def cbor_rule_id_def cbor_rule_def protected_contains_def)
  from application_view_drops_protected [OF this] show ?thesis
    by (simp add: sor_rules_def filter_model_def sor_rule_id_def cbor_rule_id_def cbor_rule_def
        i64_max_def protected_contains_def)
qed

lemma replace_tree_cas_example:
  "replace_tree demo_ext (active_new (demo_prepared False)) None (demo_tree True)
   = (active_new (demo_prepared False), None, Rejected ''active context changed while candidate was being built'')"
  by (simp add: replace_tree_def)

lemma demo_model_active [simp]:
  "model_from_sid_str demo_ext (rc_sid_json (ac_recipe (active_new p))) = Inr demo_model"
  "active_generation (active_new p) = 1" "active_data (active_new p) = pc_data p"
  by (simp_all add: active_new_def from_prepared_def)

lemma read_then_replace_witness:
  "snd (snd (replace_tree demo_ext (active_new (demo_prepared True))
     (Some (cd_digest (pc_data (demo_prepared True)))) (cd_tree (pc_data (demo_prepared True))))) = Published"
  using read_then_replace [OF demo_active_ok [of True], of demo_model]
  by (simp add: read_tree_def u64_bound_def)

lemma demo_step:
  "(system_step demo_ext)\<^sup>*\<^sup>* \<lparr>sy_active = active_new (demo_prepared False), sy_handles = []\<rparr>
     \<lparr>sy_active = active_new (demo_prepared False), sy_handles = [backend_new (active_new (demo_prepared False))]\<rparr>"
  using open_handle [of demo_ext "\<lparr>sy_active = active_new (demo_prepared False), sy_handles = []\<rparr>"]
  by (intro r_into_rtranclp) simp

lemma run_keeps_protected_rules_witness:
  "active_ok demo_ext (sy_active \<lparr>sy_active = active_new (demo_prepared False),
     sy_handles = [backend_new (active_new (demo_prepared False))]\<rparr>)"
  using run_keeps_protected_rules [OF demo_step] demo_active_ok by simp

lemma generation_names_snapshot_witness:
  "ac_snapshot (sy_active \<lparr>sy_active = active_new (demo_prepared False),
      sy_handles = [backend_new (active_new (demo_prepared False))]\<rparr>)
   = ac_snapshot (active_new (demo_prepared False))"
  using generation_names_snapshot [OF demo_step] by simp

lemma demo_replace:
  "\<exists>a' observed'. replace_tree demo_ext (active_new (demo_prepared False))
     (Some (cd_digest (pc_data (demo_prepared False)))) (demo_tree True) = (a', observed', Published)"
proof -
  have recipe: "ac_recipe (active_new (demo_prepared False)) = pc_recipe (demo_prepared False)"
    by (simp add: active_new_def)
  have p: "from_tree_for_recipe demo_ext (ac_recipe (active_new (demo_prepared False))) (demo_tree True)
      = Inr (demo_prepared True)"
    by (simp add: recipe)
  have "enforce (debug_rule_ids demo_ext) (cd_protected (active_data (active_new (demo_prepared False))))
      (cd_protected (pc_data (demo_prepared True))) = Inr ()"
    by (simp add: demo_prepared_def Let_def enforce_def)
  from publishable [OF demo_active_ok p this] p show ?thesis
    by (auto simp: replace_tree_Published_iff publish_locked_Some u64_bound_def)
qed

lemma no_lost_update_witness:
  "cd_tree (active_data (active_new (demo_prepared False))) = demo_tree False"
proof -
  let ?s = "\<lparr>sy_active = active_new (demo_prepared False), sy_handles = []\<rparr>"
  let ?t = "\<lparr>sy_active = active_new (demo_prepared False),
      sy_handles = [backend_new (active_new (demo_prepared False))]\<rparr>"
  obtain a' o' where r: "replace_tree demo_ext (sy_active ?t) (fst (read_tree (sy_active ?s))) (demo_tree True)
      = (a', o', Published)"
    using demo_replace by (auto simp: read_tree_def)
  have no: "no_collision demo_ext (active_data (sy_active ?t)) (active_data (sy_active ?s))"
    by (simp add: no_collision_def demo_bytes_def)
  have "snd (read_tree (sy_active ?s)) = demo_tree False"
    by (simp add: read_tree_def demo_prepared_def Let_def)
  moreover have "active_ok demo_ext (sy_active ?s)" using demo_active_ok by simp
  note no_lost_update [OF this demo_step r no, THEN conjunct1]
  ultimately show ?thesis by (simp only: context_system.select_convs)
qed

end
