(* ===== verification/Packets.thy ===== *)
theory Packets
  imports Context
begin

text \<open>
  Packets as the code sees them. The IPv6/UDP/CoAP codecs are the codec library's
  (\<open>src/packet.rs\<close> only re-exports them) and the CoAP messages of the management plane are
  those of the CoAP library: the records here hold what their accessors return, and the parsers
  and serializers are fields of \<open>packet_ext\<close>. The duplicate-rule shape test of
  \<open>src/management/duplicate.rs\<close> is here because the link layer uses it as well.
\<close>

subsection \<open>Logical packets\<close>

record udp_packet =
  ud_bytes :: bytes
  ud_payload :: bytes
  ud_source :: bytes
  ud_destination :: bytes
  ud_source_port :: nat
  ud_destination_port :: nat
  ud_traffic_class :: nat
  ud_flow_label :: nat
  ud_ipv6_payload_length :: nat
  ud_next_header :: nat
  ud_hop_limit :: nat
  ud_udp_length :: nat
  ud_udp_checksum :: nat

record coap_option =
  co_number :: nat
  co_value :: bytes

record coap_message =
  cm_version :: nat
  cm_type :: nat
  cm_code :: nat
  cm_message_id :: nat
  cm_token :: bytes
  cm_options :: "coap_option list"
  cm_payload :: bytes

text \<open>A packet whose UDP payload is a CoAP datagram.\<close>

record coap_packet = udp_packet +
  cp_message :: coap_message

subsection \<open>Messages of the CoAP library\<close>

datatype lite_method = MGet | MPost | MPut | MDelete | MFetch | MPatch | MIPatch | MUnknown

datatype lite_code = LiteEmpty | LiteRequest lite_method | LiteResponse nat | LiteReserved nat

datatype lite_type = Confirmable | NonConfirmable | Acknowledgement | ResetMessage

record lite_packet =
  lp_code :: lite_code
  lp_type :: lite_type
  lp_message_id :: nat
  lp_token :: bytes
  lp_options :: "(nat \<times> bytes list) list"
  lp_payload :: bytes

definition opt_if_match :: nat where "opt_if_match = 1"
definition opt_uri_path :: nat where "opt_uri_path = 11"
definition opt_content_format :: nat where "opt_content_format = 12"

lemmas option_numbers = opt_if_match_def opt_uri_path_def opt_content_format_def

definition get_option :: "lite_packet \<Rightarrow> nat \<Rightarrow> bytes list option" where
  "get_option p n = map_of (lp_options p) n"

text \<open>The library keeps the options in a map from number to values, in order of number.\<close>

fun add_value :: "nat \<Rightarrow> bytes \<Rightarrow> (nat \<times> bytes list) list \<Rightarrow> (nat \<times> bytes list) list" where
  "add_value n v [] = [(n, [v])]"
| "add_value n v ((m, vs) # os) =
     (if n = m then (m, vs @ [v]) # os
      else if n < m then (n, [v]) # (m, vs) # os
      else (m, vs) # add_value n v os)"

definition add_option :: "nat \<Rightarrow> bytes \<Rightarrow> lite_packet \<Rightarrow> lite_packet" where
  "add_option n v p = p\<lparr>lp_options := add_value n v (lp_options p)\<rparr>"

definition clear_option :: "nat \<Rightarrow> lite_packet \<Rightarrow> lite_packet" where
  "clear_option n p = p\<lparr>lp_options := filter (\<lambda>o'. fst o' \<noteq> n) (lp_options p)\<rparr>"

lemma map_of_add_value:
  assumes "sorted (map fst os)"
  shows "map_of (add_value n v os) m =
    (if m = n then Some ((case map_of os n of None \<Rightarrow> [] | Some vs \<Rightarrow> vs) @ [v]) else map_of os m)"
  using assms
proof (induction n v os rule: add_value.induct)
  case (2 n v m' vs os)
  have "map_of os n = None" if "n < m'" and "sorted (map fst ((m', vs) # os))"
    using that by (auto simp: map_of_eq_None_iff)
  with 2 show ?case by auto
qed simp

lemma get_option_clear [simp]:
  "get_option (clear_option n p) m = (if m = n then None else get_option p m)"
proof -
  have "map_of (filter (\<lambda>o'. fst o' \<noteq> n) os) m = (if m = n then None else map_of os m)"
    for os :: "(nat \<times> bytes list) list"
    by (induction os) auto
  then show ?thesis by (simp add: get_option_def clear_option_def)
qed

subsection \<open>Third-party code\<close>

datatype node_role = RoleCore | RoleDevice

record packet_ext = context_ext +
  parse_udp_packet :: "bytes \<Rightarrow> string + udp_packet"
  coap_from_udp :: "udp_packet \<Rightarrow> string + coap_packet"
  coap_packet_new :: "bytes \<Rightarrow> bytes \<Rightarrow> nat \<Rightarrow> nat \<Rightarrow> bytes \<Rightarrow> string + coap_packet"
  lite_from_bytes :: "bytes \<Rightarrow> string + lite_packet"
  lite_to_bytes :: "lite_packet \<Rightarrow> string + bytes"
  role_outbound :: "node_role \<Rightarrow> endpoint_flow"
  role_inbound :: "node_role \<Rightarrow> endpoint_flow"

subsection \<open>The shape of a duplicate-rule request\<close>

definition schc_segment :: bytes where
  "schc_segment = bytes_of_string ''schc''"

definition is_duplicate_rule_coap_shape :: "lite_packet \<Rightarrow> bool" where
  "is_duplicate_rule_coap_shape p \<longleftrightarrow>
     lp_code p = LiteRequest MPost \<and> lp_type p = NonConfirmable \<and> lp_token p = [] \<and>
     get_option p opt_uri_path = Some [schc_segment] \<and>
     get_option p opt_content_format = Some [[142]]"

definition is_duplicate_rule_datagram :: "'x packet_ext_scheme \<Rightarrow> bytes \<Rightarrow> bool" where
  "is_duplicate_rule_datagram x datagram =
     (case lite_from_bytes x datagram of Inl _ \<Rightarrow> False | Inr p \<Rightarrow> is_duplicate_rule_coap_shape p)"

end
