(* ===== verification/Link.thy ===== *)
theory Link
  imports Packets
begin

text \<open>
  The SCHC link (\<open>src/link.rs\<close>) and the packet-device seam (\<open>src/packet_loop.rs\<close>): compression of
  a logical packet under its declared origin, decompression with the route derived from the
  matched rule, and the one-datagram socket operations. Every operation reads one snapshot, so
  the active context is an argument.
\<close>

subsection \<open>Traffic\<close>

definition core_logical_address :: bytes where
  "core_logical_address = [0x20, 0x01, 0x0d, 0xb8, 0, 0, 0, 0, 0, 0, 0, 0, 0, 0, 0, 2]"

definition device_logical_address :: bytes where
  "device_logical_address = [0x20, 0x01, 0x0d, 0xb8, 0, 0, 0, 0, 0, 0, 0, 0, 0, 0, 0, 1]"

definition application_port :: nat where "application_port = 5683"
definition management_port :: nat where "management_port = 8724"

datatype traffic_origin = OriginApplication | OriginManagement
datatype traffic_class = Ordinary | ProtectedManagement
datatype traffic_route = RouteApplication | RouteProtectedManagement

fun class_route :: "traffic_class \<Rightarrow> traffic_route" where
  "class_route Ordinary = RouteApplication"
| "class_route ProtectedManagement = RouteProtectedManagement"

datatype link_operation = OpEncode | OpDecode

record link_report =
  lr_operation :: link_operation
  lr_rule_id :: rule_id
  lr_generation :: nat
  lr_traffic_class :: traffic_class
  lr_packet_bytes :: bytes
  lr_frame_bytes :: bytes
  lr_packet_size :: nat
  lr_schc_bit_len :: "nat option"
  lr_padded_byte_len :: nat
  lr_management_rule :: "rule option"
  lr_management_rpc_sid :: "string option"

record link_encoding =
  le_frame :: schc_frame
  le_report :: link_report

record link_decoded_bytes =
  ld_packet :: bytes
  ld_rule_id :: rule_id
  ld_traffic_class :: traffic_class
  ld_route :: traffic_route
  ld_report :: link_report

record link_decoded =
  lk_packet :: coap_packet
  lk_rule_id :: rule_id
  lk_traffic_class :: traffic_class
  lk_route :: traffic_route
  lk_report :: link_report

datatype link_error =
    LinkRuntime string
  | LinkPacket string
  | UnknownRuleId nat nat
  | OriginRuleMismatch traffic_origin nat nat traffic_class
  | ShortSend nat nat
  | EmptyFrame
  | FrameMismatch bytes bytes
  | UnexpectedPeer string string
  | LinkIo string

text \<open>The report built by \<open>LinkReport::encoded\<close> and \<open>LinkReport::decoded\<close>.\<close>

definition report_of ::
  "link_operation \<Rightarrow> nat \<Rightarrow> rule_id \<Rightarrow> traffic_class \<Rightarrow> bytes \<Rightarrow> bytes \<Rightarrow> nat \<Rightarrow> rule option \<Rightarrow> string option
     \<Rightarrow> link_report" where
  "report_of op g i c packet frame bits r sid =
     \<lparr>lr_operation = op, lr_rule_id = i, lr_generation = g, lr_traffic_class = c,
      lr_packet_bytes = packet, lr_frame_bytes = frame, lr_packet_size = length packet,
      lr_schc_bit_len = Some bits, lr_padded_byte_len = length frame,
      lr_management_rule = r, lr_management_rpc_sid = sid\<rparr>"

fun show_origin :: "traffic_origin \<Rightarrow> string" where
  "show_origin OriginApplication = ''Application''"
| "show_origin OriginManagement = ''Management''"

fun show_class :: "traffic_class \<Rightarrow> string" where
  "show_class Ordinary = ''Ordinary''"
| "show_class ProtectedManagement = ''ProtectedManagement''"

fun show_link_error :: "link_error \<Rightarrow> string" where
  "show_link_error (LinkRuntime e) = ''SCHC runtime operation failed: '' @ e"
| "show_link_error (LinkPacket e) = ''logical packet validation failed: '' @ e"
| "show_link_error (UnknownRuleId v n) = ''matched unknown RuleID '' @ show_nat v @ ''/'' @ show_nat n"
| "show_link_error (OriginRuleMismatch origin v n c) =
     show_origin origin @ '' origin selected '' @ show_nat v @ ''/'' @ show_nat n
       @ '', classified as '' @ show_class c"
| "show_link_error (ShortSend expected actual) =
     ''short raw SCHC datagram send: expected '' @ show_nat expected @ '' bytes, sent '' @ show_nat actual"
| "show_link_error EmptyFrame = ''empty SCHC link datagram''"
| "show_link_error (FrameMismatch expected actual) =
     ''decoded frame is not canonical for its reconstructed packet''"
| "show_link_error (UnexpectedPeer expected actual) =
     ''unexpected SCHC peer: expected '' @ expected @ '', received '' @ actual"
| "show_link_error (LinkIo e) = ''raw SCHC UDP socket operation failed: '' @ e"

subsection \<open>Classification and origin\<close>

definition classify :: "context_snapshot \<Rightarrow> rule_id \<Rightarrow> link_error + traffic_class" where
  "classify s i =
     (if \<not> contains_rule_id s i \<and> \<not> contains_application_rule_id s i then
        Inl (UnknownRuleId (id_value i) (bit_len i))
      else if protected_contains (cd_protected (sn_data s)) i then Inr ProtectedManagement
      else Inr Ordinary)"

fun origin_accepts :: "traffic_origin \<Rightarrow> traffic_class \<Rightarrow> bool" where
  "origin_accepts OriginApplication Ordinary = True"
| "origin_accepts OriginManagement ProtectedManagement = True"
| "origin_accepts _ _ = False"

definition enforce_origin :: "traffic_origin \<Rightarrow> rule_id \<Rightarrow> traffic_class \<Rightarrow> link_error + unit" where
  "enforce_origin origin i c =
     (if origin_accepts origin c then Inr ()
      else Inl (OriginRuleMismatch origin (id_value i) (bit_len i) c))"

definition management_rule_of :: "context_snapshot \<Rightarrow> traffic_class \<Rightarrow> rule_id \<Rightarrow> rule option" where
  "management_rule_of s c i =
     (if c = ProtectedManagement then List.find (\<lambda>r. rule_id_of r = i) (cd_rules (sn_data s)) else None)"

definition management_rpc_sid_of ::
  "'x packet_ext_scheme \<Rightarrow> active_context \<Rightarrow> traffic_class \<Rightarrow> bytes \<Rightarrow> string option" where
  "management_rpc_sid_of x a c udp_payload =
     (if c = ProtectedManagement \<and> is_duplicate_rule_datagram x udp_payload
      then Some (rc_sid_json (ac_recipe a)) else None)"

subsection \<open>The link\<close>

record schc_link =
  sl_device :: device_id
  sl_role :: node_role

definition link_new :: "active_context \<Rightarrow> node_role \<Rightarrow> schc_link" where
  "link_new a role = \<lparr>sl_device = rt_device (cd_runtime (active_data a)), sl_role = role\<rparr>"

definition origin_runtime :: "context_snapshot \<Rightarrow> traffic_origin \<Rightarrow> runtime" where
  "origin_runtime s origin =
     (case origin of
        OriginApplication \<Rightarrow> cd_application_runtime (sn_data s)
      | OriginManagement \<Rightarrow> cd_runtime (sn_data s))"

definition encode_validated ::
  "'x packet_ext_scheme \<Rightarrow> active_context \<Rightarrow> schc_link \<Rightarrow> traffic_origin \<Rightarrow> bytes \<Rightarrow> bytes
     \<Rightarrow> link_error + link_encoding" where
  "encode_validated x a lk origin packet udp_payload =
     (let s = ac_snapshot a in
      attempt (map_err LinkRuntime
          (encode_detailed (origin_runtime s origin) (sl_device lk) (role_outbound x (sl_role lk)) packet)) (\<lambda>e.
      attempt (classify s (enc_rule_id e)) (\<lambda>c.
      attempt (enforce_origin origin (enc_rule_id e) c) (\<lambda>_.
        Inr \<lparr>le_frame = enc_frame e,
             le_report = report_of OpEncode (sn_generation s) (enc_rule_id e) c packet
               (frame_data (enc_frame e)) (frame_bits (enc_frame e))
               (management_rule_of s c (enc_rule_id e)) (management_rpc_sid_of x a c udp_payload)\<rparr>))))"

definition encode_packet ::
  "'x packet_ext_scheme \<Rightarrow> active_context \<Rightarrow> schc_link \<Rightarrow> traffic_origin \<Rightarrow> ('z udp_packet_scheme)
     \<Rightarrow> link_error + link_encoding" where
  "encode_packet x a lk origin packet =
     encode_validated x a lk origin (ud_bytes packet) (ud_payload packet)"

definition encode_bytes ::
  "'x packet_ext_scheme \<Rightarrow> active_context \<Rightarrow> schc_link \<Rightarrow> traffic_origin \<Rightarrow> bytes \<Rightarrow> link_error + link_encoding" where
  "encode_bytes x a lk origin packet =
     attempt (map_err LinkPacket (parse_udp_packet x packet)) (\<lambda>parsed.
       encode_validated x a lk origin (ud_bytes parsed) (ud_payload parsed))"

fun peer_role :: "node_role \<Rightarrow> node_role" where
  "peer_role RoleCore = RoleDevice"
| "peer_role RoleDevice = RoleCore"

definition decode_runtimes ::
  "context_snapshot \<Rightarrow> device_id \<Rightarrow> endpoint_flow \<Rightarrow> bytes \<Rightarrow> link_error + decoded_packet" where
  "decode_runtimes s device flow frame =
     (case decode_padded_detailed (cd_runtime (sn_data s)) device flow frame of
        Inr d \<Rightarrow> Inr d
      | Inl full_error \<Rightarrow>
          (case decode_padded_detailed (cd_application_runtime (sn_data s)) device flow frame of
             Inr d \<Rightarrow> Inr d
           | Inl _ \<Rightarrow> Inl (LinkRuntime full_error)))"

definition canonical_runtime :: "context_snapshot \<Rightarrow> rule_id \<Rightarrow> runtime" where
  "canonical_runtime s i =
     (if protected_contains (cd_protected (sn_data s)) i then cd_runtime (sn_data s)
      else cd_application_runtime (sn_data s))"

record decoded_link_packet =
  dp_packet :: udp_packet
  dp_rule_id :: rule_id
  dp_traffic_class :: traffic_class
  dp_route :: traffic_route
  dp_report :: link_report

definition decode_link_packet ::
  "'x packet_ext_scheme \<Rightarrow> active_context \<Rightarrow> schc_link \<Rightarrow> bytes \<Rightarrow> link_error + decoded_link_packet" where
  "decode_link_packet x a lk frame =
     (if frame = [] then Inl EmptyFrame else
      let s = ac_snapshot a in
      attempt (decode_runtimes s (sl_device lk) (role_inbound x (sl_role lk)) frame) (\<lambda>d.
      attempt (classify s (dec_rule_id d)) (\<lambda>c.
      attempt (map_err LinkPacket (parse_udp_packet x (dec_packet d))) (\<lambda>packet.
      attempt (map_err LinkRuntime
          (encode_detailed (canonical_runtime s (dec_rule_id d)) (sl_device lk)
             (role_outbound x (peer_role (sl_role lk))) (ud_bytes packet))) (\<lambda>e.
      if enc_rule_id e \<noteq> dec_rule_id d \<or> frame_data (enc_frame e) \<noteq> frame then
        Inl (FrameMismatch (frame_data (enc_frame e)) frame)
      else
        Inr \<lparr>dp_packet = packet, dp_rule_id = dec_rule_id d, dp_traffic_class = c,
             dp_route = class_route c,
             dp_report = report_of OpDecode (sn_generation s) (dec_rule_id d) c (ud_bytes packet)
               frame (frame_bits (enc_frame e))
               (management_rule_of s c (dec_rule_id d)) (management_rpc_sid_of x a c (ud_payload packet))\<rparr>)))))"

definition decode_bytes ::
  "'x packet_ext_scheme \<Rightarrow> active_context \<Rightarrow> schc_link \<Rightarrow> bytes \<Rightarrow> link_error + link_decoded_bytes" where
  "decode_bytes x a lk frame =
     attempt (decode_link_packet x a lk frame) (\<lambda>d.
       Inr \<lparr>ld_packet = ud_bytes (dp_packet d), ld_rule_id = dp_rule_id d,
            ld_traffic_class = dp_traffic_class d, ld_route = dp_route d, ld_report = dp_report d\<rparr>)"

definition decode_frame ::
  "'x packet_ext_scheme \<Rightarrow> active_context \<Rightarrow> schc_link \<Rightarrow> bytes \<Rightarrow> link_error + link_decoded" where
  "decode_frame x a lk frame =
     attempt (decode_link_packet x a lk frame) (\<lambda>d.
     attempt (map_err LinkPacket (coap_from_udp x (dp_packet d))) (\<lambda>packet.
       Inr \<lparr>lk_packet = packet, lk_rule_id = dp_rule_id d, lk_traffic_class = dp_traffic_class d,
            lk_route = dp_route d, lk_report = dp_report d\<rparr>))"

subsection \<open>Datagram sockets and the packet device\<close>

text \<open>
  The socket and the device are outside the program: their answer to one call is an argument.
  Addresses are their text.
\<close>

record raw_datagram =
  rd_bytes :: bytes
  rd_source :: string

definition send_bytes :: "string + nat \<Rightarrow> bytes \<Rightarrow> link_error + unit" where
  "send_bytes socket_send bs =
     (if bs = [] then Inl EmptyFrame else
      attempt (map_err LinkIo socket_send) (\<lambda>sent.
        if sent \<noteq> length bs then Inl (ShortSend (length bs) sent) else Inr ()))"

definition send_frame :: "string + nat \<Rightarrow> schc_frame \<Rightarrow> link_error + unit" where
  "send_frame socket_send frame = send_bytes socket_send (frame_data frame)"

text \<open>
  \<open>recv_from\<close> fills the 65535-byte buffer and returns the length and the source. The length is at
  most the buffer's; \<open>buffer\<close> is the buffer after the call.
\<close>

definition recv :: "string + (nat \<times> string) \<Rightarrow> bytes \<Rightarrow> string \<Rightarrow> link_error + raw_datagram" where
  "recv socket_recv buffer peer =
     attempt (map_err LinkIo socket_recv) (\<lambda>(len, source).
       if source \<noteq> peer then Inl (UnexpectedPeer peer source)
       else let bs = take len buffer in
         if bs = [] then Inl EmptyFrame else Inr \<lparr>rd_bytes = bs, rd_source = source\<rparr>)"

definition recv_bytes :: "string + (nat \<times> string) \<Rightarrow> bytes \<Rightarrow> string \<Rightarrow> link_error + bytes" where
  "recv_bytes socket_recv buffer peer = attempt (recv socket_recv buffer peer) (\<lambda>d. Inr (rd_bytes d))"

datatype device_error = WouldBlock | DeviceError string

datatype packet_poll = Idle | PollPacket bytes

datatype packet_loop_error = LoopDevice device_error | ShortWrite nat nat

fun poll :: "device_error + bytes \<Rightarrow> packet_loop_error + packet_poll" where
  "poll (Inr packet) = Inr (PollPacket packet)"
| "poll (Inl WouldBlock) = Inr Idle"
| "poll (Inl e) = Inl (LoopDevice e)"

definition write_packet :: "device_error + nat \<Rightarrow> bytes \<Rightarrow> packet_loop_error + unit" where
  "write_packet device_write packet =
     attempt (map_err LoopDevice device_write) (\<lambda>written.
       if written \<noteq> length packet then Inl (ShortWrite (length packet) written) else Inr ())"

subsection \<open>Lemmas\<close>

lemma peer_peer [simp]: "peer_role (peer_role r) = r"
  by (cases r) simp_all

lemma classify_Inr_iff:
  "classify s i = Inr c \<longleftrightarrow>
     (contains_rule_id s i \<or> contains_application_rule_id s i) \<and>
     c = (if protected_contains (cd_protected (sn_data s)) i then ProtectedManagement else Ordinary)"
  by (auto simp: classify_def)

lemma origin_accepts_iff:
  "origin_accepts origin c \<longleftrightarrow> (origin = OriginManagement \<longleftrightarrow> c = ProtectedManagement)"
  by (cases origin; cases c) simp_all

lemma enforce_origin_Inr_iff: "enforce_origin origin i c = Inr u \<longleftrightarrow> origin_accepts origin c"
  by (simp add: enforce_origin_def)

lemma class_route_iff: "class_route c = RouteProtectedManagement \<longleftrightarrow> c = ProtectedManagement"
  by (cases c) simp_all

lemma report_of_simps [simp]:
  "lr_operation (report_of op g i c p f b r sid) = op"
  "lr_rule_id (report_of op g i c p f b r sid) = i"
  "lr_generation (report_of op g i c p f b r sid) = g"
  "lr_traffic_class (report_of op g i c p f b r sid) = c"
  "lr_packet_bytes (report_of op g i c p f b r sid) = p"
  "lr_frame_bytes (report_of op g i c p f b r sid) = f"
  "lr_packet_size (report_of op g i c p f b r sid) = length p"
  "lr_schc_bit_len (report_of op g i c p f b r sid) = Some b"
  "lr_padded_byte_len (report_of op g i c p f b r sid) = length f"
  "lr_management_rule (report_of op g i c p f b r sid) = r"
  "lr_management_rpc_sid (report_of op g i c p f b r sid) = sid"
  by (simp_all add: report_of_def)

lemma encode_validated_Inr_iff:
  "encode_validated x a lk origin packet payload = Inr enc \<longleftrightarrow>
     (\<exists>e. encode_detailed (origin_runtime (ac_snapshot a) origin) (sl_device lk)
            (role_outbound x (sl_role lk)) packet = Inr e \<and>
        (contains_rule_id (ac_snapshot a) (enc_rule_id e) \<or>
         contains_application_rule_id (ac_snapshot a) (enc_rule_id e)) \<and>
        (protected_contains (cd_protected (active_data a)) (enc_rule_id e) \<longleftrightarrow> origin = OriginManagement) \<and>
        (let c = (if origin = OriginManagement then ProtectedManagement else Ordinary) in
         enc = \<lparr>le_frame = enc_frame e,
             le_report = report_of OpEncode (active_generation a) (enc_rule_id e) c packet
               (frame_data (enc_frame e)) (frame_bits (enc_frame e))
               (management_rule_of (ac_snapshot a) c (enc_rule_id e))
               (management_rpc_sid_of x a c payload)\<rparr>))"
  by (cases origin)
     (auto simp: encode_validated_def Let_def result_simps classify_Inr_iff enforce_origin_Inr_iff
        origin_accepts_iff)

lemma decode_link_packet_Inr:
  assumes "decode_link_packet x a lk frame = Inr d"
  obtains e where "frame \<noteq> []"
    and "decode_runtimes (ac_snapshot a) (sl_device lk) (role_inbound x (sl_role lk)) frame
      = Inr \<lparr>dec_rule_id = dp_rule_id d, dec_packet = e\<rparr>"
    and "parse_udp_packet x e = Inr (dp_packet d)"
    and "classify (ac_snapshot a) (dp_rule_id d) = Inr (dp_traffic_class d)"
    and "dp_route d = class_route (dp_traffic_class d)"
    and "\<exists>c. encode_detailed (canonical_runtime (ac_snapshot a) (dp_rule_id d)) (sl_device lk)
          (role_outbound x (peer_role (sl_role lk))) (ud_bytes (dp_packet d)) = Inr c \<and>
        enc_rule_id c = dp_rule_id d \<and> frame_data (enc_frame c) = frame \<and>
        dp_report d = report_of OpDecode (active_generation a) (dp_rule_id d) (dp_traffic_class d)
          (ud_bytes (dp_packet d)) frame (frame_bits (enc_frame c))
          (management_rule_of (ac_snapshot a) (dp_traffic_class d) (dp_rule_id d))
          (management_rpc_sid_of x a (dp_traffic_class d) (ud_payload (dp_packet d)))"
proof -
  have ne: "frame \<noteq> []" using assms by (auto simp: decode_link_packet_def)
  obtain r c u e where
    r: "decode_runtimes (ac_snapshot a) (sl_device lk) (role_inbound x (sl_role lk)) frame = Inr r"
    and c: "classify (ac_snapshot a) (dec_rule_id r) = Inr c"
    and u: "parse_udp_packet x (dec_packet r) = Inr u"
    and e: "encode_detailed (canonical_runtime (ac_snapshot a) (dec_rule_id r)) (sl_device lk)
          (role_outbound x (peer_role (sl_role lk))) (ud_bytes u) = Inr e"
    and d: "(if enc_rule_id e \<noteq> dec_rule_id r \<or> frame_data (enc_frame e) \<noteq> frame then
        Inl (FrameMismatch (frame_data (enc_frame e)) frame)
      else
        Inr \<lparr>dp_packet = u, dp_rule_id = dec_rule_id r, dp_traffic_class = c,
             dp_route = class_route c,
             dp_report = report_of OpDecode (active_generation a) (dec_rule_id r) c (ud_bytes u)
               frame (frame_bits (enc_frame e)) (management_rule_of (ac_snapshot a) c (dec_rule_id r))
               (management_rpc_sid_of x a c (ud_payload u))\<rparr>) = Inr d"
    using assms ne unfolding decode_link_packet_def Let_def
    by (simp only: if_False attempt_Inr_iff map_err_Inr_iff) (elim exE conjE)
  have "r = \<lparr>dec_rule_id = dec_rule_id r, dec_packet = dec_packet r\<rparr>" by simp
  with ne r c u e d show thesis by (intro that [of "dec_packet r"]) (auto split: if_splits)
qed

subsection \<open>Properties\<close>

text \<open>C21: A packet is sent only under a rule of its declared origin. Compression succeeds exactly
  when the runtime of the origin selects a known rule that is protected if and only if the origin
  is management; the report then describes the packet, the frame and the rule actually used.\<close>

theorem encode_respects_origin:
  "encode_validated x a lk origin packet payload = Inr enc \<longleftrightarrow>
     (\<exists>e. encode_detailed (origin_runtime (ac_snapshot a) origin) (sl_device lk)
            (role_outbound x (sl_role lk)) packet = Inr e \<and>
        (contains_rule_id (ac_snapshot a) (enc_rule_id e) \<or>
         contains_application_rule_id (ac_snapshot a) (enc_rule_id e)) \<and>
        (protected_contains (cd_protected (active_data a)) (enc_rule_id e) \<longleftrightarrow> origin = OriginManagement) \<and>
        (let c = (if origin = OriginManagement then ProtectedManagement else Ordinary) in
         enc = \<lparr>le_frame = enc_frame e,
             le_report = report_of OpEncode (active_generation a) (enc_rule_id e) c packet
               (frame_data (enc_frame e)) (frame_bits (enc_frame e))
               (management_rule_of (ac_snapshot a) c (enc_rule_id e))
               (management_rpc_sid_of x a c payload)\<rparr>))"
  by (rule encode_validated_Inr_iff)

text \<open>C22: The route of a received frame comes from its rule alone, and only canonical frames are
  accepted: the frame is what the peer's compressor produces for the reconstructed packet, with the
  full runtime for a protected rule and the application runtime for any other, and under the same
  rule; so two accepted frames with the same packet and rule are the same bytes.\<close>

theorem decode_route_and_canonicity:
  assumes "decode_link_packet x a lk frame = Inr d"
  shows "(dp_route d = RouteProtectedManagement \<longleftrightarrow> protected_contains (cd_protected (active_data a)) (dp_rule_id d)) \<and>
     (\<exists>e. encode_detailed
          (if protected_contains (cd_protected (active_data a)) (dp_rule_id d) then cd_runtime (active_data a)
           else cd_application_runtime (active_data a))
          (sl_device lk) (role_outbound x (case sl_role lk of RoleCore \<Rightarrow> RoleDevice | RoleDevice \<Rightarrow> RoleCore))
          (ud_bytes (dp_packet d)) = Inr e \<and>
        enc_rule_id e = dp_rule_id d \<and> frame_data (enc_frame e) = frame \<and>
        lr_schc_bit_len (dp_report d) = Some (frame_bits (enc_frame e))) \<and>
     lr_frame_bytes (dp_report d) = frame \<and> lr_packet_bytes (dp_report d) = ud_bytes (dp_packet d) \<and>
     (decode_link_packet x a lk frame' = Inr d' \<and> ud_bytes (dp_packet d') = ud_bytes (dp_packet d) \<and>
        dp_rule_id d' = dp_rule_id d \<longrightarrow> frame' = frame)"
proof -
  obtain e where c: "classify (ac_snapshot a) (dp_rule_id d) = Inr (dp_traffic_class d)"
      "dp_route d = class_route (dp_traffic_class d)"
    and e: "encode_detailed (canonical_runtime (ac_snapshot a) (dp_rule_id d)) (sl_device lk)
        (role_outbound x (peer_role (sl_role lk))) (ud_bytes (dp_packet d)) = Inr e"
      "enc_rule_id e = dp_rule_id d" "frame_data (enc_frame e) = frame"
    and r: "lr_frame_bytes (dp_report d) = frame" "lr_packet_bytes (dp_report d) = ud_bytes (dp_packet d)"
      "lr_schc_bit_len (dp_report d) = Some (frame_bits (enc_frame e))"
    using decode_link_packet_Inr [OF assms] by (metis report_of_simps(5,6,8))
  have "frame' = frame" if "decode_link_packet x a lk frame' = Inr d'"
    "ud_bytes (dp_packet d') = ud_bytes (dp_packet d)" "dp_rule_id d' = dp_rule_id d"
    using decode_link_packet_Inr [OF that(1)] e(1,3) that(2,3) by (metis Inr_inject)
  moreover have "peer_role (sl_role lk) = (case sl_role lk of RoleCore \<Rightarrow> RoleDevice | RoleDevice \<Rightarrow> RoleCore)"
    by (cases "sl_role lk") simp_all
  ultimately show ?thesis using c e r by (auto simp: classify_Inr_iff class_route_iff canonical_runtime_def)
qed

text \<open>C20: What one endpoint sends, its peer delivers. The decompressor of each runtime is only assumed to
  invert the compressor of the same runtime on what this endpoint sends, and the full runtime to give no
  other reading than the application runtime to a frame of an application rule: it may reject it, and
  then the application runtime is tried. The parser keeps the packet's bytes. Then the peer decodes the
  frame to the same packet, under the same rule, with the same meaningful length, and routes it by the
  origin the sender declared.\<close>

theorem link_delivers:
  assumes "encode_bytes x a lk origin packet = Inr enc" and "frame_data (le_frame enc) \<noteq> []"
    and "\<And>rt bs e. rt = cd_runtime (active_data a) \<or> rt = cd_application_runtime (active_data a) \<Longrightarrow>
        encode_detailed rt (sl_device lk) (role_outbound x (sl_role lk)) bs = Inr e \<Longrightarrow>
        decode_padded_detailed rt (sl_device lk) (role_inbound x (peer_role (sl_role lk))) (frame_data (enc_frame e))
          = Inr \<lparr>dec_rule_id = enc_rule_id e, dec_packet = bs\<rparr>"
    and "\<And>bs e d. encode_detailed (cd_application_runtime (active_data a)) (sl_device lk)
          (role_outbound x (sl_role lk)) bs = Inr e \<Longrightarrow>
        decode_padded_detailed (cd_runtime (active_data a)) (sl_device lk)
          (role_inbound x (peer_role (sl_role lk))) (frame_data (enc_frame e)) = Inr d \<Longrightarrow>
        d = \<lparr>dec_rule_id = enc_rule_id e, dec_packet = bs\<rparr>"
    and "\<And>bs u. parse_udp_packet x bs = Inr u \<Longrightarrow> ud_bytes u = bs"
  shows "\<exists>d. decode_bytes x a (lk\<lparr>sl_role := peer_role (sl_role lk)\<rparr>) (frame_data (le_frame enc)) = Inr d \<and>
     ld_packet d = packet \<and> ld_rule_id d = lr_rule_id (le_report enc) \<and>
     ld_route d = (case origin of OriginManagement \<Rightarrow> RouteProtectedManagement | OriginApplication \<Rightarrow> RouteApplication) \<and>
     lr_schc_bit_len (ld_report d) = Some (frame_bits (le_frame enc))"
proof -
  obtain u where u: "parse_udp_packet x packet = Inr u"
    and v: "encode_validated x a lk origin packet (ud_payload u) = Inr enc"
    using assms(1,5) by (auto simp: encode_bytes_def result_simps)
  then obtain e where e: "encode_detailed (origin_runtime (ac_snapshot a) origin) (sl_device lk)
        (role_outbound x (sl_role lk)) packet = Inr e"
    and known: "contains_rule_id (ac_snapshot a) (enc_rule_id e) \<or>
        contains_application_rule_id (ac_snapshot a) (enc_rule_id e)"
    and prot: "protected_contains (cd_protected (active_data a)) (enc_rule_id e) \<longleftrightarrow> origin = OriginManagement"
    and enc: "le_frame enc = enc_frame e" "lr_rule_id (le_report enc) = enc_rule_id e"
    by (auto simp: encode_validated_Inr_iff Let_def)
  have "canonical_runtime (ac_snapshot a) (enc_rule_id e) = origin_runtime (ac_snapshot a) origin"
    using prot by (cases origin) (simp_all add: canonical_runtime_def origin_runtime_def)
  moreover have "ud_bytes u = packet" using assms(5) u by blast
  moreover have "decode_runtimes (ac_snapshot a) (sl_device lk) (role_inbound x (peer_role (sl_role lk)))
      (frame_data (enc_frame e)) = Inr \<lparr>dec_rule_id = enc_rule_id e, dec_packet = packet\<rparr>"
    using assms(3) [OF _ e] assms(4) e
    by (cases origin) (auto simp: origin_runtime_def decode_runtimes_def split: sum.split)
  ultimately show ?thesis
    using assms(2) u e known prot enc
    by (cases origin) (auto simp: decode_bytes_def decode_link_packet_def Let_def classify_def)
qed

subsection \<open>A concrete link\<close>

definition demo_packet :: "bytes \<Rightarrow> udp_packet" where
  "demo_packet bs =
     \<lparr>ud_bytes = bs, ud_payload = drop 48 bs, ud_source = device_logical_address,
      ud_destination = core_logical_address, ud_source_port = 5683, ud_destination_port = 5683,
      ud_traffic_class = 0, ud_flow_label = 0, ud_ipv6_payload_length = length bs - 40,
      ud_next_header = 17, ud_hop_limit = 64, ud_udp_length = length bs - 40, ud_udp_checksum = 0\<rparr>"

definition demo_net :: packet_ext where
  "demo_net = context_ext.extend demo_ext
     (packet_ext.fields (\<lambda>bs. Inr (demo_packet bs)) (\<lambda>_. Inl []) (\<lambda>_ _ _ _ _. Inl []) (\<lambda>_. Inl [])
        (\<lambda>_. Inl []) (\<lambda>r. case r of RoleCore \<Rightarrow> (0, 1) | RoleDevice \<Rightarrow> (1, 0))
        (\<lambda>r. case r of RoleCore \<Rightarrow> (0, 0) | RoleDevice \<Rightarrow> (1, 1)))"

lemma demo_net_simps [simp]: "parse_udp_packet demo_net bs = Inr (demo_packet bs)"
  by (simp add: demo_net_def context_ext.defs packet_ext.defs)

abbreviation demo_active :: active_context where
  "demo_active \<equiv> active_new (demo_prepared True)"

abbreviation demo_link :: schc_link where
  "demo_link \<equiv> \<lparr>sl_device = 3, sl_role = RoleDevice\<rparr>"

lemma demo_decode:
  "decode_link_packet demo_net demo_active demo_link (160 # bs) = Inr
     \<lparr>dp_packet = demo_packet bs, dp_rule_id = RuleId 5 3, dp_traffic_class = Ordinary, dp_route = RouteApplication,
      dp_report = report_of OpDecode 1 (RuleId 5 3) Ordinary bs (160 # bs) (3 + 8 * length bs) None None\<rparr>"
  by (simp add: decode_link_packet_def decode_runtimes_def Let_def demo_prepared_def demo_runtime_def
      classify_def contains_rule_id_def active_new_def from_prepared_def protected_contains_def
      canonical_runtime_def demo_packet_def management_rule_of_def management_rpc_sid_of_def)

lemma decode_route_and_canonicity_witness:
  "lr_frame_bytes (report_of OpDecode 1 (RuleId 5 3) Ordinary [1] [160, 1] 11 None None) = [160, 1]"
  using decode_route_and_canonicity [OF demo_decode [of "[1]"], THEN conjunct2, THEN conjunct2, THEN conjunct1] by simp

lemma link_delivers_witness:
  "\<exists>d. decode_bytes demo_net demo_active \<lparr>sl_device = 3, sl_role = RoleCore\<rparr> [160, 7] = Inr d \<and> ld_packet d = [7]"
proof -
  obtain enc where enc: "encode_bytes demo_net demo_active demo_link OriginApplication [7] = Inr enc"
    and f: "frame_data (le_frame enc) = [160, 7]" and i: "lr_rule_id (le_report enc) = RuleId 5 3"
    by (simp add: encode_bytes_def encode_validated_def Let_def demo_prepared_def demo_runtime_def
        origin_runtime_def classify_def contains_rule_id_def active_new_def from_prepared_def
        protected_contains_def demo_packet_def enforce_origin_def)
  have "\<exists>d. decode_bytes demo_net demo_active (demo_link\<lparr>sl_role := peer_role (sl_role demo_link)\<rparr>)
      (frame_data (le_frame enc)) = Inr d \<and> ld_packet d = [7] \<and> ld_rule_id d = lr_rule_id (le_report enc) \<and>
     ld_route d = (case OriginApplication of OriginManagement \<Rightarrow> RouteProtectedManagement
        | OriginApplication \<Rightarrow> RouteApplication) \<and>
     lr_schc_bit_len (ld_report d) = Some (frame_bits (le_frame enc))"
  proof (rule link_delivers [OF enc])
    show "decode_padded_detailed rt (sl_device demo_link) (role_inbound demo_net (peer_role (sl_role demo_link)))
        (frame_data (enc_frame e)) = Inr \<lparr>dec_rule_id = enc_rule_id e, dec_packet = bs\<rparr>"
      if "rt = cd_runtime (active_data demo_active) \<or> rt = cd_application_runtime (active_data demo_active)"
        "encode_detailed rt (sl_device demo_link) (role_outbound demo_net (sl_role demo_link)) bs = Inr e" for rt bs e
      using that by (auto simp: demo_prepared_def demo_runtime_def Let_def active_new_def from_prepared_def)
    show "d = \<lparr>dec_rule_id = enc_rule_id e, dec_packet = bs\<rparr>"
      if "encode_detailed (cd_application_runtime (active_data demo_active)) (sl_device demo_link)
          (role_outbound demo_net (sl_role demo_link)) bs = Inr e"
        "decode_padded_detailed (cd_runtime (active_data demo_active)) (sl_device demo_link)
          (role_inbound demo_net (peer_role (sl_role demo_link))) (frame_data (enc_frame e)) = Inr d" for bs e d
      using that by (auto simp: demo_prepared_def demo_runtime_def Let_def active_new_def from_prepared_def)
    show "\<And>bs u. parse_udp_packet demo_net bs = Inr u \<Longrightarrow> ud_bytes u = bs"
      by (auto simp: demo_packet_def)
  qed (simp add: f)
  then show ?thesis by (auto simp: f)
qed

end
