(* ===== verification/Selectors.thy ===== *)
theory Selectors
  imports Link
begin

text \<open>
  The operator's text interface of the management plane (\<open>src/management.rs\<close>): rule selectors,
  the update and duplicate commands, the readable form of a rule, and the resolution of an entry
  selector against it.
\<close>

subsection \<open>Selectors, entries and errors\<close>

record rule_selector =
  rs_value :: nat
  rs_bits :: nat

text \<open>The derived order of the code compares the fields in the order of their declaration.\<close>

instantiation rule_selector_ext :: (linorder) linorder
begin

definition less_eq_rule_selector_ext :: "'a rule_selector_scheme \<Rightarrow> 'a rule_selector_scheme \<Rightarrow> bool" where
  "less_eq_rule_selector_ext s t \<longleftrightarrow>
     (rs_value s, rs_bits s, rule_selector.more s) \<le> (rs_value t, rs_bits t, rule_selector.more t)"

definition less_rule_selector_ext :: "'a rule_selector_scheme \<Rightarrow> 'a rule_selector_scheme \<Rightarrow> bool" where
  "less_rule_selector_ext s t \<longleftrightarrow>
     (rs_value s, rs_bits s, rule_selector.more s) < (rs_value t, rs_bits t, rule_selector.more t)"

instance
  by standard
    (auto simp: less_eq_rule_selector_ext_def less_rule_selector_ext_def less_eq_prod_def less_prod_def
      intro: rule_selector.equality)

end

lemma selector_le_iff:
  "(s :: rule_selector) \<le> t \<longleftrightarrow> rs_value s < rs_value t \<or> rs_value s = rs_value t \<and> rs_bits s \<le> rs_bits t"
  by (auto simp: less_eq_rule_selector_ext_def less_eq_prod_def)

record rule_entry =
  re_entry_index :: nat
  re_fid :: string
  re_field_position :: nat
  re_direction :: string
  re_length :: string
  re_target :: string
  re_matching :: string
  re_cda :: string

datatype inspection_error =
    InvalidSelector string
  | MissingRule nat nat
  | AmbiguousRule nat nat nat
  | InvalidUpdate string
  | MissingEntry rule_selector string
  | AmbiguousEntry rule_selector string "rule_entry list" string
  | InvalidTarget string
  | DatastoreError string
  | CoapError string
  | InvalidToken string
  | LinkFailure link_error
  | Correlation string
  | UnexpectedResponse string
  | MissingDynamicRuleIdNamespace
  | AllocationFailure rule_id_tree_error
  | UnrepresentableFlow string

abbreviation selector :: "nat \<Rightarrow> nat \<Rightarrow> rule_selector" where
  "selector v n \<equiv> \<lparr>rs_value = v, rs_bits = n\<rparr>"

definition selector_id :: "rule_selector \<Rightarrow> rule_id" where
  "selector_id s = RuleId (rs_value s) (rs_bits s)"

definition show_selector :: "rule_selector \<Rightarrow> string" where
  "show_selector s = show_nat (rs_value s) @ ''/'' @ show_nat (rs_bits s)"

fun show_inspection_error :: "inspection_error \<Rightarrow> string" where
  "show_inspection_error (InvalidSelector e) = ''invalid RuleID selector: '' @ e"
| "show_inspection_error (MissingRule v n) = ''RuleID '' @ show_nat v @ ''/'' @ show_nat n @ '' was not found''"
| "show_inspection_error (AmbiguousRule v n k) =
     ''RuleID '' @ show_nat v @ ''/'' @ show_nat n @ '' was ambiguous ('' @ show_nat k @ '' matches)''"
| "show_inspection_error (InvalidUpdate e) = ''invalid rule update command: '' @ e"
| "show_inspection_error (MissingEntry r s) =
     ''RuleID '' @ show_selector r @ '' has no entry matching '' @ s"
| "show_inspection_error (AmbiguousEntry r s ms text) =
     ''RuleID '' @ show_selector r @ '' selector '' @ s @ '' was ambiguous; matching entries:'' @ [CHR 0x0A] @ text"
| "show_inspection_error (InvalidTarget e) = ''invalid targeted rule update: '' @ e"
| "show_inspection_error (DatastoreError e) = ''management datastore error: '' @ e"
| "show_inspection_error (CoapError e) = ''management CoAP error: '' @ e"
| "show_inspection_error (InvalidToken e) = ''invalid CoAP token: '' @ e"
| "show_inspection_error (LinkFailure e) = ''management SCHC link error: '' @ show_link_error e"
| "show_inspection_error (Correlation e) = ''management response correlation failed: '' @ e"
| "show_inspection_error (UnexpectedResponse e) = ''unexpected management response: '' @ e"
| "show_inspection_error MissingDynamicRuleIdNamespace =
     ''automatic flow management requires an explicit dynamic RuleID namespace''"
| "show_inspection_error (AllocationFailure e) =
     ''dynamic RuleID allocation failed: '' @ show_rule_id_tree_error e"
| "show_inspection_error (UnrepresentableFlow e) =
     ''flow cannot be represented by duplicate-rule management: '' @ e"

definition selector_new :: "nat \<Rightarrow> nat \<Rightarrow> inspection_error + rule_selector" where
  "selector_new v bits =
     (if \<not> (1 \<le> bits \<and> bits \<le> 64) then
        Inl (InvalidSelector (''bit length must be between 1 and 64, got '' @ show_nat bits))
      else if bits < 64 \<and> push_bit bits 1 \<le> v then
        Inl (InvalidSelector (''value '' @ show_nat v @ '' does not fit in '' @ show_nat bits @ '' bits''))
      else Inr (selector v bits))"

definition parse_rule_selector :: "string \<Rightarrow> inspection_error + rule_selector" where
  "parse_rule_selector input =
     (case split_once CHR ''/'' (trim input) of
        None \<Rightarrow> Inl (InvalidSelector ''expected <value>/<bit-length>'')
      | Some (v, b) \<Rightarrow>
          if v = [] \<or> b = [] \<or> CHR ''/'' \<in> set b \<or> CHR ''/'' \<in> set v then
            Inl (InvalidSelector ''expected one numeric value and one numeric bit length'')
          else if \<not> list_all is_digit v \<or> \<not> list_all is_digit b then
            Inl (InvalidSelector ''value and bit length must be unsigned decimal numbers'')
          else
            attempt (ok_or (InvalidSelector ''RuleID value is out of range'') (parse_unsigned u64_bound v)) (\<lambda>value.
            attempt (ok_or (InvalidSelector ''bit length is out of range'') (parse_unsigned usize_bound b)) (\<lambda>bits.
              selector_new value bits)))"

definition quoted :: "string \<Rightarrow> string" where
  "quoted s = [CHR 0x27] @ s @ [CHR 0x27]"

subsection \<open>The update command\<close>

datatype entry_selector =
    EntryIndex nat
  | EntryField string "nat option" "string option"

definition selector_description :: "entry_selector \<Rightarrow> string" where
  "selector_description s =
     (case s of
        EntryIndex i \<Rightarrow> ''entry='' @ show_nat i
      | EntryField fid fp di \<Rightarrow>
          ''fid='' @ fid
            @ (case fp of None \<Rightarrow> [] | Some p \<Rightarrow> '' fp='' @ show_nat p)
            @ (case di of None \<Rightarrow> [] | Some d \<Rightarrow> '' di='' @ d))"

record rule_update_request =
  ru_rule :: rule_selector
  ru_entry :: entry_selector
  ru_target_value :: string
  ru_if_match :: bool

text \<open>The local variables of the argument loop.\<close>

record update_args =
  ua_entry :: "nat option"
  ua_fid :: "string option"
  ua_position :: "nat option"
  ua_direction :: "string option"
  ua_target :: "string option"
  ua_if_match :: bool

abbreviation invalid_update :: "string \<Rightarrow> inspection_error" where
  "invalid_update e \<equiv> InvalidUpdate e"

definition parse_unsigned_argument :: "string \<Rightarrow> string \<Rightarrow> inspection_error + nat" where
  "parse_unsigned_argument v key =
     (if \<not> list_all is_digit v then Inl (invalid_update (key @ '' must be an unsigned decimal number''))
      else ok_or (invalid_update (key @ '' is out of range for a canonical entry position''))
             (parse_unsigned usize_bound v))"

definition valid_fid_token :: "string \<Rightarrow> bool" where
  "valid_fid_token v \<longleftrightarrow> v \<noteq> [] \<and> \<not> list_ex (\<lambda>c. is_space c \<or> is_control c) v"

definition update_key :: "update_args \<Rightarrow> string \<Rightarrow> string \<Rightarrow> inspection_error + update_args" where
  "update_key s key v =
     (if key = ''entry'' then
        (if ua_entry s \<noteq> None then Inl (invalid_update ''duplicate 'entry' argument'')
         else attempt (parse_unsigned_argument v ''entry'') (\<lambda>i. Inr (s\<lparr>ua_entry := Some i\<rparr>)))
      else if key = ''fid'' then
        (if ua_fid s \<noteq> None then Inl (invalid_update ''duplicate 'fid' argument'')
         else if \<not> valid_fid_token v then Inl (invalid_update ''fid must be a readable non-empty field name'')
         else Inr (s\<lparr>ua_fid := Some v\<rparr>))
      else if key = ''fp'' then
        (if ua_position s \<noteq> None then Inl (invalid_update ''duplicate 'fp' argument'')
         else attempt (parse_unsigned_argument v ''fp'') (\<lambda>p.
           if p = 0 then Inl (invalid_update ''fp must be a one-based field position'')
           else Inr (s\<lparr>ua_position := Some p\<rparr>)))
      else if key = ''di'' then
        (if ua_direction s \<noteq> None then Inl (invalid_update ''duplicate 'di' argument'')
         else if v \<notin> {''bi'', ''up'', ''down''} then
           Inl (invalid_update (''di must be one of 'bi', 'up', or '' @ quoted ''down''))
         else Inr (s\<lparr>ua_direction := Some v\<rparr>))
      else if key = ''tv'' then
        (if ua_target s \<noteq> None then Inl (invalid_update ''duplicate 'tv' argument'')
         else if list_ex is_control v then Inl (invalid_update ''tv must not contain control characters'')
         else Inr (s\<lparr>ua_target := Some v\<rparr>))
      else Inl (invalid_update (''unknown update argument '' @ quoted key)))"

definition update_arg :: "update_args \<Rightarrow> string \<Rightarrow> inspection_error + update_args" where
  "update_arg s argument =
     (if argument = ''--if-match'' then
        (if ua_if_match s then Inl (invalid_update ''duplicate '--if-match' flag'')
         else Inr (s\<lparr>ua_if_match := True\<rparr>))
      else case split_once CHR ''='' argument of
        None \<Rightarrow> Inl (invalid_update (''malformed argument '' @ quoted argument
                  @ ''; expected key=value''))
      | Some (key, v) \<Rightarrow>
          if key = [] \<or> v = [] \<or> CHR ''='' \<in> set v then
            Inl (invalid_update (''malformed argument '' @ quoted argument
                  @ ''; expected one non-empty key and value''))
          else update_key s key v)"

definition update_entry :: "update_args \<Rightarrow> inspection_error + entry_selector" where
  "update_entry s =
     (case (ua_entry s, ua_fid s) of
        (Some i, None) \<Rightarrow>
          if ua_position s \<noteq> None \<or> ua_direction s \<noteq> None then
            Inl (invalid_update (''exact 'entry' cannot be combined with 'fp' or '' @ quoted ''di''))
          else Inr (EntryIndex i)
      | (None, Some fid) \<Rightarrow> Inr (EntryField fid (ua_position s) (ua_direction s))
      | (Some _, Some _) \<Rightarrow> Inl (invalid_update ''entry and fid selectors cannot be combined'')
      | (None, None) \<Rightarrow>
          if ua_position s \<noteq> None \<or> ua_direction s \<noteq> None then
            Inl (invalid_update ''fp and di require a fid selector'')
          else Inl (invalid_update ''exactly one of 'entry' or 'fid' is required''))"

definition no_update_args :: update_args where
  "no_update_args = \<lparr>ua_entry = None, ua_fid = None, ua_position = None, ua_direction = None,
     ua_target = None, ua_if_match = False\<rparr>"

definition parse_rule_update_command :: "string \<Rightarrow> inspection_error + rule_update_request" where
  "parse_rule_update_command input =
     (case split_words input of
        w1 # w2 # rest \<Rightarrow>
          if w1 \<noteq> ''rule'' \<or> w2 \<noteq> ''update'' then
            Inl (invalid_update (''expected '' @ quoted ''rule update <value>/<bits> ...''))
          else
            (case rest of
               [] \<Rightarrow> Inl (invalid_update ''missing RuleID; expected <value>/<bits>'')
             | token # args \<Rightarrow>
                 attempt (map_err (\<lambda>e. invalid_update (''invalid RuleID: '' @ show_inspection_error e))
                     (parse_rule_selector token)) (\<lambda>r.
                 attempt (fold_err update_arg no_update_args args) (\<lambda>s.
                 attempt (ok_or (invalid_update ''exactly one 'tv' is required'') (ua_target s)) (\<lambda>tv.
                 attempt (update_entry s) (\<lambda>entry.
                   Inr \<lparr>ru_rule = r, ru_entry = entry, ru_target_value = tv, ru_if_match = ua_if_match s\<rparr>)))))
      | _ \<Rightarrow> Inl (invalid_update (''expected '' @ quoted ''rule update <value>/<bits> ...'')))"

subsection \<open>The duplicate command\<close>

record duplicate_override =
  do_entry_index :: nat
  do_target_value :: "string option"
  do_matching_operator :: "string option"
  do_cda :: "string option"

record duplicate_request =
  dr_source :: rule_selector
  dr_destination :: rule_selector
  dr_overrides :: "duplicate_override list"

definition empty_override :: "nat \<Rightarrow> duplicate_override" where
  "empty_override i = \<lparr>do_entry_index = i, do_target_value = None, do_matching_operator = None, do_cda = None\<rparr>"

definition no_leaves :: "duplicate_override \<Rightarrow> bool" where
  "no_leaves o' \<longleftrightarrow> do_target_value o' = None \<and> do_matching_operator o' = None \<and> do_cda o' = None"

text \<open>\<open>close_override\<close> is the code that ends a group: at the next \<open>entry=\<close> and after the loop.\<close>

definition close_override ::
  "duplicate_override list \<Rightarrow> duplicate_override option \<Rightarrow> inspection_error + duplicate_override list" where
  "close_override os current =
     (case current of
        None \<Rightarrow> Inr os
      | Some p \<Rightarrow>
          if no_leaves p then
            Inl (invalid_update (''entry '' @ show_nat (do_entry_index p) @ '' has no override leaves''))
          else Inr (os @ [p]))"

definition set_leaf :: "duplicate_override \<Rightarrow> string \<Rightarrow> string \<Rightarrow> inspection_error + duplicate_override" where
  "set_leaf c kind v =
     (if kind = ''tv'' then
        (if do_target_value c \<noteq> None then Inl (invalid_update ''duplicate tv in one override'')
         else Inr (c\<lparr>do_target_value := Some v\<rparr>))
      else if kind = ''mo'' then
        (if do_matching_operator c \<noteq> None then Inl (invalid_update ''duplicate mo in one override'')
         else Inr (c\<lparr>do_matching_operator := Some v\<rparr>))
      else
        (if do_cda c \<noteq> None then Inl (invalid_update ''duplicate cda in one override'')
         else Inr (c\<lparr>do_cda := Some v\<rparr>)))"

type_synonym duplicate_state = "duplicate_override list \<times> duplicate_override option"

definition duplicate_arg :: "duplicate_state \<Rightarrow> string \<Rightarrow> inspection_error + duplicate_state" where
  "duplicate_arg = (\<lambda>(os, current) argument.
     (case split_once CHR ''='' argument of
        None \<Rightarrow> Inl (invalid_update (''malformed duplicate argument '' @ quoted argument
                  @ ''; expected key=value''))
      | Some (kind, v) \<Rightarrow>
          if v = [] then
            Inl (invalid_update (''duplicate argument '' @ quoted kind @ '' has an empty value''))
          else if kind = ''entry'' then
            attempt (close_override os current) (\<lambda>os'.
            attempt (parse_unsigned_argument v ''entry'') (\<lambda>i.
              if list_ex (\<lambda>c. do_entry_index c = i) os' then
                Inl (invalid_update (''duplicate override entry='' @ show_nat i))
              else Inr (os', Some (empty_override i))))
          else if kind = ''tv'' \<or> kind = ''mo'' \<or> kind = ''cda'' then
            (case current of
               None \<Rightarrow> Inl (invalid_update (quoted kind @ '' must follow an entry=INDEX''))
             | Some c \<Rightarrow> attempt (set_leaf c kind v) (\<lambda>c'. Inr (os, Some c')))
          else Inl (invalid_update (''unknown duplicate argument '' @ quoted kind))))"

definition parse_selector_word :: "string \<Rightarrow> string list \<Rightarrow> inspection_error + rule_selector" where
  "parse_selector_word what ws =
     map_err (\<lambda>e. invalid_update (''invalid '' @ what @ '' RuleID: '' @ show_inspection_error e))
       (attempt (ok_or (invalid_update (''missing duplicate '' @ what @ '' RuleID''))
          (case ws of [] \<Rightarrow> None | w # _ \<Rightarrow> Some w)) parse_rule_selector)"

definition parse_rule_duplicate_command :: "string \<Rightarrow> inspection_error + duplicate_request" where
  "parse_rule_duplicate_command input =
     (let ws = split_words input in
      if take 2 ws \<noteq> [''rule'', ''duplicate''] then
        Inl (invalid_update (''expected '' @ quoted ''rule duplicate <source>/<bits> <destination>/<bits> ...''))
      else
        attempt (parse_selector_word ''source'' (drop 2 ws)) (\<lambda>source.
        attempt (parse_selector_word ''destination'' (drop 3 ws)) (\<lambda>destination.
        attempt (fold_err duplicate_arg ([], None) (drop 4 ws)) (\<lambda>(os, current).
        attempt (close_override os current) (\<lambda>overrides.
          Inr \<lparr>dr_source = source, dr_destination = destination, dr_overrides = overrides\<rparr>)))))"

subsection \<open>Selector text\<close>

definition valid_selector :: "rule_selector \<Rightarrow> bool" where
  "valid_selector s \<longleftrightarrow> 1 \<le> rs_bits s \<and> rs_bits s \<le> 64 \<and> rs_value s < 2 ^ rs_bits s"

lemma selector_new_Inr_iff:
  assumes "v < u64_bound"
  shows "selector_new v b = Inr s \<longleftrightarrow> s = selector v b \<and> valid_selector s"
  using assms
  by (cases "b = 64") (auto simp: selector_new_def valid_selector_def push_bit_eq_mult u64_bound_def)

lemma valid_selector_bounds:
  assumes "valid_selector s"
  shows "rs_value s < u64_bound" and "rs_bits s < usize_bound"
proof -
  have "rs_value s < 2 ^ rs_bits s" using assms by (simp add: valid_selector_def)
  also have "(2::nat) ^ rs_bits s \<le> 2 ^ 64" using assms by (intro power_increasing) (simp_all add: valid_selector_def)
  finally show "rs_value s < u64_bound" by (simp add: u64_bound_def)
  show "rs_bits s < usize_bound" using assms by (simp add: valid_selector_def usize_bound_def)
qed

lemma slash_not_digit [simp]: "\<not> is_digit CHR ''/''" "\<not> is_digit CHR ''=''" "\<not> is_space CHR ''/''" "\<not> is_space CHR ''=''"
  by (simp_all add: is_digit_def is_space_def)

lemma show_selector_word [simp]: "word_ok (show_selector s)"
  using show_nat_word [of "rs_value s"] show_nat_word [of "rs_bits s"]
  by (auto simp: show_selector_def word_ok_def)

lemma parse_show_selector:
  assumes "valid_selector s"
  shows "parse_rule_selector (show_selector s) = Inr s"
proof -
  have "split_once CHR ''/'' (show_selector s) = Some (show_nat (rs_value s), show_nat (rs_bits s))"
    using split_once_append [of "CHR ''/''" "show_nat (rs_value s)" "show_nat (rs_bits s)"]
    by (simp add: show_selector_def show_nat_no_char)
  moreover have "selector_new (rs_value s) (rs_bits s) = Inr s"
    using assms valid_selector_bounds(1) [OF assms] by (simp add: selector_new_Inr_iff)
  ultimately show ?thesis
    using valid_selector_bounds [OF assms]
    by (simp add: parse_rule_selector_def trim_word show_nat_no_char)
qed

lemma parse_rule_selector_valid:
  assumes "parse_rule_selector input = Inr s"
  shows "valid_selector s"
proof -
  obtain v b where "selector_new v b = Inr s" and "v < u64_bound"
    using assms by (auto simp: parse_rule_selector_def result_simps split: option.splits if_splits)
      (use parse_unsigned_bound in blast)
  then show ?thesis by (auto simp: selector_new_Inr_iff)
qed

interpretation selector_text: codec_pair show_selector parse_rule_selector valid_selector
  by unfold_locales (rule parse_show_selector)

subsection \<open>Update commands\<close>

text \<open>
  The requests a command can express, and one command for each: the argument loop accepts its
  arguments in any order, the rendered command has them in one.
\<close>

definition valid_entry_selector :: "entry_selector \<Rightarrow> bool" where
  "valid_entry_selector e \<longleftrightarrow>
     (case e of
        EntryIndex i \<Rightarrow> i < usize_bound
      | EntryField fid fp di \<Rightarrow>
          valid_fid_token fid \<and> CHR ''='' \<notin> set fid \<and>
          (case fp of None \<Rightarrow> True | Some p \<Rightarrow> 0 < p \<and> p < usize_bound) \<and>
          (case di of None \<Rightarrow> True | Some d \<Rightarrow> d \<in> {''bi'', ''up'', ''down''}))"

definition valid_target_text :: "string \<Rightarrow> bool" where
  "valid_target_text tv \<longleftrightarrow> word_ok tv \<and> \<not> list_ex is_control tv \<and> CHR ''='' \<notin> set tv"

definition valid_update :: "rule_update_request \<Rightarrow> bool" where
  "valid_update r \<longleftrightarrow>
     valid_selector (ru_rule r) \<and> valid_entry_selector (ru_entry r) \<and> valid_target_text (ru_target_value r)"

definition arg :: "string \<Rightarrow> string \<Rightarrow> string" where
  "arg key v = key @ CHR ''='' # v"

lemma split_arg: "CHR ''='' \<notin> set key \<Longrightarrow> split_once CHR ''='' (arg key v) = Some (key, v)"
  by (simp add: arg_def split_once_append)

lemma arg_neq: "CHR ''='' \<notin> set w \<Longrightarrow> arg key v \<noteq> w"
  by (auto simp: arg_def)

lemma word_ok_arg: "word_ok key \<Longrightarrow> word_ok v \<Longrightarrow> word_ok (arg key v)"
  by (auto simp: arg_def word_ok_def)

lemma keys_ok [simp]:
  "word_ok ''rule''" "word_ok ''update''" "word_ok ''duplicate''" "word_ok ''entry''" "word_ok ''fid''"
  "word_ok ''fp''" "word_ok ''di''" "word_ok ''tv''" "word_ok ''mo''" "word_ok ''cda''"
  "word_ok ''--if-match''" "word_ok ''bi''" "word_ok ''up''" "word_ok ''down''"
  by (simp_all add: word_ok_def is_space_def)

definition entry_words :: "entry_selector \<Rightarrow> string list" where
  "entry_words e =
     (case e of
        EntryIndex i \<Rightarrow> [arg ''entry'' (show_nat i)]
      | EntryField fid fp di \<Rightarrow>
          [arg ''fid'' fid]
            @ (case fp of None \<Rightarrow> [] | Some p \<Rightarrow> [arg ''fp'' (show_nat p)])
            @ (case di of None \<Rightarrow> [] | Some d \<Rightarrow> [arg ''di'' d]))"

definition render_update :: "rule_update_request \<Rightarrow> string" where
  "render_update r =
     join '' '' ([''rule'', ''update'', show_selector (ru_rule r)] @ entry_words (ru_entry r)
       @ [arg ''tv'' (ru_target_value r)] @ (if ru_if_match r then [''--if-match''] else []))"

lemma parse_unsigned_argument_show: "i < usize_bound \<Longrightarrow> parse_unsigned_argument (show_nat i) key = Inr i"
  by (simp add: parse_unsigned_argument_def)

lemma parse_unsigned_argument_bound: "parse_unsigned_argument v key = Inr i \<Longrightarrow> i < usize_bound"
  by (auto simp: parse_unsigned_argument_def result_simps dest: parse_unsigned_bound split: if_splits)

lemma update_arg_words:
  "i < usize_bound \<Longrightarrow> ua_entry s = None \<Longrightarrow> update_arg s (arg ''entry'' (show_nat i)) = Inr (s\<lparr>ua_entry := Some i\<rparr>)"
  "valid_fid_token fid \<Longrightarrow> CHR ''='' \<notin> set fid \<Longrightarrow> ua_fid s = None \<Longrightarrow>
     update_arg s (arg ''fid'' fid) = Inr (s\<lparr>ua_fid := Some fid\<rparr>)"
  "0 < p \<Longrightarrow> p < usize_bound \<Longrightarrow> ua_position s = None \<Longrightarrow>
     update_arg s (arg ''fp'' (show_nat p)) = Inr (s\<lparr>ua_position := Some p\<rparr>)"
  "d \<in> {''bi'', ''up'', ''down''} \<Longrightarrow> ua_direction s = None \<Longrightarrow>
     update_arg s (arg ''di'' d) = Inr (s\<lparr>ua_direction := Some d\<rparr>)"
  "valid_target_text tv \<Longrightarrow> ua_target s = None \<Longrightarrow> update_arg s (arg ''tv'' tv) = Inr (s\<lparr>ua_target := Some tv\<rparr>)"
  "\<not> ua_if_match s \<Longrightarrow> update_arg s ''--if-match'' = Inr (s\<lparr>ua_if_match := True\<rparr>)"
  by (auto simp: update_arg_def split_arg arg_neq update_key_def parse_unsigned_argument_show show_nat_no_char
      valid_fid_token_def valid_target_text_def word_ok_def)

definition entry_args :: "entry_selector \<Rightarrow> update_args" where
  "entry_args e =
     (case e of
        EntryIndex i \<Rightarrow> no_update_args\<lparr>ua_entry := Some i\<rparr>
      | EntryField fid fp di \<Rightarrow> no_update_args\<lparr>ua_fid := Some fid, ua_position := fp, ua_direction := di\<rparr>)"

lemma fold_entry_words:
  "valid_entry_selector e \<Longrightarrow> fold_err update_arg no_update_args (entry_words e) = Inr (entry_args e)"
  by (auto simp: entry_words_def valid_entry_selector_def entry_args_def no_update_args_def update_arg_words
      split: entry_selector.splits option.splits)

lemma entry_args_facts:
  "ua_target (entry_args e) = None" "\<not> ua_if_match (entry_args e)"
  "update_entry (entry_args e\<lparr>ua_target := t, ua_if_match := m\<rparr>) = Inr e"
  "update_entry (entry_args e\<lparr>ua_target := t\<rparr>) = Inr e"
  by (auto simp: entry_args_def no_update_args_def update_entry_def split: entry_selector.splits)

lemma fid_word: "valid_fid_token fid \<Longrightarrow> word_ok fid"
  by (auto simp: valid_fid_token_def word_ok_def list_ex_iff)

lemma entry_words_ok: "valid_entry_selector e \<Longrightarrow> w \<in> set (entry_words e) \<Longrightarrow> word_ok w"
  by (auto simp: entry_words_def valid_entry_selector_def split: entry_selector.splits option.splits
      intro!: word_ok_arg dest: fid_word)

lemma parse_render_update:
  assumes "valid_update r"
  shows "parse_rule_update_command (render_update r) = Inr r"
proof -
  let ?args = "entry_words (ru_entry r) @ [arg ''tv'' (ru_target_value r)]
      @ (if ru_if_match r then [''--if-match''] else [])"
  have "split_words (render_update r) = [''rule'', ''update'', show_selector (ru_rule r)] @ ?args"
    unfolding render_update_def
  proof (intro split_words_join ballI)
    fix w
    assume "w \<in> set ([''rule'', ''update'', show_selector (ru_rule r)] @ ?args)"
    then show "word_ok w"
      using assms entry_words_ok [of "ru_entry r"]
      by (auto simp: valid_update_def valid_target_text_def intro!: word_ok_arg split: if_splits)
  qed
  moreover have "\<exists>s. fold_err update_arg no_update_args ?args = Inr s \<and> update_entry s = Inr (ru_entry r) \<and>
      ua_target s = Some (ru_target_value r) \<and> ua_if_match s = ru_if_match r"
    using assms
    by (auto simp: fold_err_append fold_entry_words update_arg_words valid_update_def entry_args_facts)
  ultimately show ?thesis
    using assms parse_show_selector [of "ru_rule r"]
    by (auto simp: parse_rule_update_command_def valid_update_def)
qed

definition args_ok :: "update_args \<Rightarrow> bool" where
  "args_ok s \<longleftrightarrow>
     (case ua_entry s of None \<Rightarrow> True | Some i \<Rightarrow> i < usize_bound) \<and>
     (case ua_fid s of None \<Rightarrow> True | Some fid \<Rightarrow> valid_fid_token fid \<and> CHR ''='' \<notin> set fid) \<and>
     (case ua_position s of None \<Rightarrow> True | Some p \<Rightarrow> 0 < p \<and> p < usize_bound) \<and>
     (case ua_direction s of None \<Rightarrow> True | Some d \<Rightarrow> d \<in> {''bi'', ''up'', ''down''}) \<and>
     (case ua_target s of None \<Rightarrow> True | Some tv \<Rightarrow> valid_target_text tv)"

lemma update_arg_ok:
  assumes "args_ok s" and "word_ok w" and "update_arg s w = Inr t"
  shows "args_ok t"
proof (cases "w = ''--if-match''")
  case True
  with assms show ?thesis by (auto simp: update_arg_def args_ok_def split: if_splits)
next
  case False
  with assms obtain key v where kv: "split_once CHR ''='' w = Some (key, v)" "v \<noteq> []" "CHR ''='' \<notin> set v"
    and t: "update_key s key v = Inr t"
    by (auto simp: update_arg_def split: option.splits if_splits)
  have "word_ok v" using assms(2) kv(2) split_once_Some [OF kv(1)] by (auto simp: word_ok_def)
  with t assms(1) kv(3) show ?thesis
    by (auto simp: update_key_def args_ok_def valid_target_text_def result_simps
        dest: parse_unsigned_argument_bound split: if_splits)
qed

lemma update_entry_valid: "update_entry s = Inr e \<Longrightarrow> args_ok s \<Longrightarrow> valid_entry_selector e"
  by (auto simp: args_ok_def update_entry_def valid_entry_selector_def split: option.splits if_splits)

lemma parse_update_valid:
  assumes "parse_rule_update_command input = Inr r"
  shows "valid_update r"
proof -
  obtain token args s where w: "split_words input = ''rule'' # ''update'' # token # args"
    and sel: "parse_rule_selector token = Inr (ru_rule r)"
    and s: "fold_err update_arg no_update_args args = Inr s"
    and tv: "ua_target s = Some (ru_target_value r)" and entry: "update_entry s = Inr (ru_entry r)"
    using assms by (auto simp: parse_rule_update_command_def result_simps split: list.splits if_splits)
  have "args_ok s"
  proof (rule fold_err_invariant [OF s])
    show "args_ok no_update_args" by (simp add: args_ok_def no_update_args_def)
    fix u v t
    assume "v \<in> set args"
    then have "word_ok v" using split_words_ok [of v input] w by simp
    then show "args_ok u \<Longrightarrow> update_arg u v = Inr t \<Longrightarrow> args_ok t" using update_arg_ok by blast
  qed
  with tv update_entry_valid [OF entry] parse_rule_selector_valid [OF sel] show ?thesis
    by (simp add: valid_update_def args_ok_def)
qed

subsection \<open>Duplicate commands\<close>

definition valid_override :: "duplicate_override \<Rightarrow> bool" where
  "valid_override o' \<longleftrightarrow>
     do_entry_index o' < usize_bound \<and>
     (\<forall>v \<in> set_option (do_target_value o') \<union> set_option (do_matching_operator o') \<union> set_option (do_cda o'). word_ok v)"

definition valid_overrides :: "duplicate_override list \<Rightarrow> bool" where
  "valid_overrides os \<longleftrightarrow>
     distinct (map do_entry_index os) \<and> (\<forall>o' \<in> set os. valid_override o' \<and> \<not> no_leaves o')"

definition valid_duplicate :: "duplicate_request \<Rightarrow> bool" where
  "valid_duplicate r \<longleftrightarrow>
     valid_selector (dr_source r) \<and> valid_selector (dr_destination r) \<and> valid_overrides (dr_overrides r)"

definition leaf_word :: "string \<Rightarrow> string option \<Rightarrow> string list" where
  "leaf_word key v = (case v of None \<Rightarrow> [] | Some s \<Rightarrow> [arg key s])"

definition override_words :: "duplicate_override \<Rightarrow> string list" where
  "override_words o' =
     arg ''entry'' (show_nat (do_entry_index o'))
       # leaf_word ''tv'' (do_target_value o') @ leaf_word ''mo'' (do_matching_operator o') @ leaf_word ''cda'' (do_cda o')"

definition render_duplicate :: "duplicate_request \<Rightarrow> string" where
  "render_duplicate r =
     join '' '' ([''rule'', ''duplicate'', show_selector (dr_source r), show_selector (dr_destination r)]
       @ concat (map override_words (dr_overrides r)))"

lemma close_override_Inr:
  "close_override os c = Inr ps \<longleftrightarrow>
     (case c of None \<Rightarrow> ps = os | Some p \<Rightarrow> \<not> no_leaves p \<and> ps = os @ [p])"
  by (auto simp: close_override_def split: option.splits)

lemma duplicate_arg_entry:
  assumes "close_override os c = Inr ps" and "i < usize_bound" and "i \<notin> do_entry_index ` set ps"
  shows "duplicate_arg (os, c) (arg ''entry'' (show_nat i)) = Inr (ps, Some (empty_override i))"
  using assms by (auto simp: duplicate_arg_def split_arg parse_unsigned_argument_show list_ex_iff)

lemma duplicate_arg_leaf:
  assumes "v \<noteq> []"
  shows "do_target_value p = None \<Longrightarrow>
      duplicate_arg (os, Some p) (arg ''tv'' v) = Inr (os, Some (p\<lparr>do_target_value := Some v\<rparr>))"
    and "do_matching_operator p = None \<Longrightarrow>
      duplicate_arg (os, Some p) (arg ''mo'' v) = Inr (os, Some (p\<lparr>do_matching_operator := Some v\<rparr>))"
    and "do_cda p = None \<Longrightarrow>
      duplicate_arg (os, Some p) (arg ''cda'' v) = Inr (os, Some (p\<lparr>do_cda := Some v\<rparr>))"
  using assms by (simp_all add: duplicate_arg_def split_arg set_leaf_def)

lemma fold_override_words:
  assumes "close_override os c = Inr ps" and "valid_override p" and "do_entry_index p \<notin> do_entry_index ` set ps"
  shows "fold_err duplicate_arg (os, c) (override_words p) = Inr (ps, Some p)"
proof -
  have "v \<noteq> []" if "do_target_value p = Some v \<or> do_matching_operator p = Some v \<or> do_cda p = Some v" for v
    using assms(2) that by (auto simp: valid_override_def word_ok_def)
  moreover have "duplicate_arg (os, c) (arg ''entry'' (show_nat (do_entry_index p)))
      = Inr (ps, Some (empty_override (do_entry_index p)))"
    using assms by (intro duplicate_arg_entry) (simp_all add: valid_override_def)
  ultimately show ?thesis
    by (cases p) (auto simp: override_words_def leaf_word_def empty_override_def duplicate_arg_leaf
        split: option.splits)
qed

lemma fold_overrides:
  assumes "close_override os c = Inr ps" and "valid_overrides (ps @ qs)"
  shows "\<exists>os' c'. fold_err duplicate_arg (os, c) (concat (map override_words qs)) = Inr (os', c') \<and>
     close_override os' c' = Inr (ps @ qs)"
  using assms
proof (induction qs arbitrary: os c ps)
  case (Cons q qs)
  have "fold_err duplicate_arg (os, c) (override_words q) = Inr (ps, Some q)"
    using Cons.prems by (intro fold_override_words) (auto simp: valid_overrides_def)
  moreover have "close_override ps (Some q) = Inr (ps @ [q])"
    using Cons.prems by (simp add: close_override_Inr valid_overrides_def)
  ultimately show ?case
    using Cons.IH [of ps "Some q" "ps @ [q]"] Cons.prems(2) by (simp add: fold_err_append)
qed auto

lemma override_words_ok: "valid_override p \<Longrightarrow> w \<in> set (override_words p) \<Longrightarrow> word_ok w"
  by (auto simp: override_words_def leaf_word_def valid_override_def intro!: word_ok_arg split: option.splits)

lemma parse_render_duplicate:
  assumes "valid_duplicate r"
  shows "parse_rule_duplicate_command (render_duplicate r) = Inr r"
proof -
  have "split_words (render_duplicate r) = [''rule'', ''duplicate'', show_selector (dr_source r),
      show_selector (dr_destination r)] @ concat (map override_words (dr_overrides r))"
    unfolding render_duplicate_def
    using assms override_words_ok
    by (intro split_words_join) (auto simp: valid_duplicate_def valid_overrides_def)
  moreover obtain os c where "fold_err duplicate_arg ([], None) (concat (map override_words (dr_overrides r))) = Inr (os, c)"
    and "close_override os c = Inr (dr_overrides r)"
    using fold_overrides [of "[]" None "[]" "dr_overrides r"] assms
    by (auto simp: close_override_Inr valid_duplicate_def)
  ultimately show ?thesis
    using assms
    by (simp add: parse_rule_duplicate_command_def parse_selector_word_def parse_show_selector valid_duplicate_def Let_def)
qed

text \<open>The state of the argument loop: closed groups are complete, the open one is new.\<close>

definition groups_ok :: "duplicate_state \<Rightarrow> bool" where
  "groups_ok = (\<lambda>(os, c). valid_overrides os \<and>
     (case c of None \<Rightarrow> True | Some p \<Rightarrow> valid_override p \<and> do_entry_index p \<notin> do_entry_index ` set os))"

lemma close_override_ok: "groups_ok (os, c) \<Longrightarrow> close_override os c = Inr ps \<Longrightarrow> valid_overrides ps"
  by (auto simp: groups_ok_def close_override_Inr valid_overrides_def split: option.splits)

lemma set_leaf_ok:
  "valid_override p \<Longrightarrow> word_ok v \<Longrightarrow> set_leaf p kind v = Inr q \<Longrightarrow>
     valid_override q \<and> do_entry_index q = do_entry_index p"
  by (auto simp: set_leaf_def valid_override_def split: if_splits)

lemma duplicate_arg_ok:
  assumes "groups_ok s" and "word_ok w" and "duplicate_arg s w = Inr t"
  shows "groups_ok t"
proof -
  obtain os c where s: "s = (os, c)" by (cases s)
  obtain kind v where kv: "split_once CHR ''='' w = Some (kind, v)" "v \<noteq> []"
    using assms(3) by (auto simp: s duplicate_arg_def split: option.splits if_splits)
  have "word_ok v" using assms(2) kv(2) split_once_Some [OF kv(1)] by (auto simp: word_ok_def)
  show ?thesis
  proof (cases "kind = ''entry''")
    case True
    with assms(3) kv obtain ps i where ps: "close_override os c = Inr ps" and i: "i < usize_bound"
      and "\<not> list_ex (\<lambda>c. do_entry_index c = i) ps" and t: "t = (ps, Some (empty_override i))"
      by (auto simp: s duplicate_arg_def result_simps split: if_splits dest: parse_unsigned_argument_bound)
    with close_override_ok [OF _ ps] assms(1) show ?thesis
      by (auto simp: s groups_ok_def valid_override_def empty_override_def list_ex_iff)
  next
    case False
    with assms(3) kv obtain p q where c: "c = Some p" and q: "set_leaf p kind v = Inr q" and t: "t = (os, Some q)"
      by (auto simp: s duplicate_arg_def result_simps split: if_splits option.splits)
    with assms(1) set_leaf_ok [OF _ \<open>word_ok v\<close> q] show ?thesis by (auto simp: s groups_ok_def)
  qed
qed

lemma parse_duplicate_valid:
  assumes "parse_rule_duplicate_command input = Inr r"
  shows "valid_duplicate r"
proof -
  obtain os c where sel: "parse_selector_word ''source'' (drop 2 (split_words input)) = Inr (dr_source r)"
      "parse_selector_word ''destination'' (drop 3 (split_words input)) = Inr (dr_destination r)"
    and f: "fold_err duplicate_arg ([], None) (drop 4 (split_words input)) = Inr (os, c)"
    and close: "close_override os c = Inr (dr_overrides r)"
    using assms by (auto simp: parse_rule_duplicate_command_def Let_def result_simps split: if_splits)
  have "groups_ok (os, c)"
  proof (rule fold_err_invariant [OF f])
    show "groups_ok ([], None)" by (simp add: groups_ok_def valid_overrides_def)
    fix u v t
    assume "v \<in> set (drop 4 (split_words input))"
    then have "word_ok v" using split_words_ok by (metis in_set_dropD)
    then show "groups_ok u \<Longrightarrow> duplicate_arg u v = Inr t \<Longrightarrow> groups_ok t" using duplicate_arg_ok by blast
  qed
  from close_override_ok [OF this close] sel show ?thesis
    by (auto simp: valid_duplicate_def parse_selector_word_def result_simps dest: parse_rule_selector_valid)
qed

subsection \<open>Properties\<close>

text \<open>A selector's text parses back to it exactly when its length is between 1 and 64 and its
  value fits; and whatever text the parser accepts denotes such a selector.\<close>

theorem selector_text_roundtrip:
  "(parse_rule_selector (show_selector s) = Inr s \<longleftrightarrow> valid_selector s) \<and>
   (parse_rule_selector input = Inr s \<longrightarrow> valid_selector s)"
  using parse_show_selector parse_rule_selector_valid by blast

text \<open>The update command parser and the rendered command are inverse on well-formed requests,
  and every request it returns is well formed: one entry selector, a one-based position, a known
  direction and a printable value.\<close>

theorem update_command_roundtrip:
  "(parse_rule_update_command (render_update r) = Inr r \<longleftrightarrow> valid_update r) \<and>
   (parse_rule_update_command input = Inr r \<longrightarrow> valid_update r)"
  using parse_render_update parse_update_valid by blast

text \<open>C31: The duplicate command parser and the rendered command are inverse on well-formed
  requests, and every request it returns is well formed: each entry index occurs in one group
  only and each group has a leaf.\<close>

theorem duplicate_command_roundtrip:
  "(parse_rule_duplicate_command (render_duplicate r) = Inr r \<longleftrightarrow> valid_duplicate r) \<and>
   (parse_rule_duplicate_command input = Inr r \<longrightarrow> valid_duplicate r)"
  using parse_render_duplicate parse_duplicate_valid by blast

lemma selector_text_roundtrip_witness: "parse_rule_selector (show_selector (selector 5 3)) = Inr (selector 5 3)"
  by (rule selector_text_roundtrip [THEN conjunct1, THEN iffD2]) (simp add: valid_selector_def)

lemma update_command_roundtrip_witness:
  "parse_rule_update_command (render_update
     \<lparr>ru_rule = selector 5 3, ru_entry = EntryIndex 2, ru_target_value = ''7'', ru_if_match = True\<rparr>)
   = Inr \<lparr>ru_rule = selector 5 3, ru_entry = EntryIndex 2, ru_target_value = ''7'', ru_if_match = True\<rparr>"
  by (rule update_command_roundtrip [THEN conjunct1, THEN iffD2])
     (simp add: valid_update_def valid_selector_def valid_entry_selector_def valid_target_text_def
        usize_bound_def word_ok_def is_space_def is_control_def)

lemma duplicate_command_roundtrip_witness:
  "parse_rule_duplicate_command (render_duplicate \<lparr>dr_source = selector 5 3, dr_destination = selector 6 3,
     dr_overrides = [\<lparr>do_entry_index = 1, do_target_value = Some ''7'', do_matching_operator = None, do_cda = None\<rparr>]\<rparr>)
   = Inr \<lparr>dr_source = selector 5 3, dr_destination = selector 6 3,
     dr_overrides = [\<lparr>do_entry_index = 1, do_target_value = Some ''7'', do_matching_operator = None, do_cda = None\<rparr>]\<rparr>"
  by (rule duplicate_command_roundtrip [THEN conjunct1, THEN iffD2])
     (simp add: valid_duplicate_def valid_selector_def valid_overrides_def valid_override_def no_leaves_def
        usize_bound_def word_ok_def is_space_def)

end
