(* ===== verification/Details.thy ===== *)
theory Details
  imports Selectors
begin

text \<open>
  The readable form of a rule and what the console does with it (\<open>src/management.rs\<close>): the
  names of its parts, the formatted listing, the resolution of an entry selector, and the
  conversion of a decimal target value to the bytes of the leaf it replaces.
\<close>

subsection \<open>Names\<close>

record rule_summary =
  su_id :: rule_selector
  su_nature :: string

record rule_detail =
  rd_id :: rule_selector
  rd_nature :: string
  rd_entries :: "rule_entry list"

text \<open>\<open>nature_as_str\<close> is the codec library's name of a nature.\<close>

definition hex_bytes :: "bytes \<Rightarrow> string" where
  "hex_bytes bs = ''0x'' @ to_hex bs"

fun field_name :: "field_ref \<Rightarrow> string" where
  "field_name (FieldIpv6 n) = n"
| "field_name (FieldUdp n) = n"
| "field_name (FieldCoap n) = n"
| "field_name (FieldIcmpv6 n) = n"
| "field_name (FieldCoapOption n) = ''coap-option('' @ show_nat n @ '')''"
| "field_name FieldUnused = ''fid-unused''"
| "field_name FieldPayload = ''fid-payload''"
| "field_name FieldSyntheticCoapMarker = ''fid-coap-payload-marker''"
| "field_name (FieldUnknownSid sid) = ''sid:'' @ show_int sid"

fun direction_name :: "direction_selector \<Rightarrow> string" where
  "direction_name Bidirectional = ''bi''"
| "direction_name UpOnly = ''up''"
| "direction_name DownOnly = ''down''"

fun unit_name :: "length_unit \<Rightarrow> string" where
  "unit_name UnitBytes = ''bytes''"
| "unit_name UnitBits = ''bits''"

fun length_name :: "field_length \<Rightarrow> string" where
  "length_name (FixedBits n) = show_nat n"
| "length_name VariableBytes = ''variable-bytes''"
| "length_name VariableBits = ''variable-bits''"
| "length_name Remaining = ''remaining''"
| "length_name TokenLength = ''token-length''"
| "length_name (FromPreviousField i u) = ''from-entry-'' @ show_nat i @ ''/'' @ unit_name u"
| "length_name (FunctionSid sid) = ''sid:'' @ show_int sid"

fun target_name :: "target_value \<Rightarrow> string" where
  "target_name TargetNone = ''-''"
| "target_name (TargetBytes bs) = hex_bytes bs"
| "target_name (TargetMapping vs) = ''['' @ join '','' (map hex_bytes vs) @ '']''"

fun matching_name :: "matching_operator \<Rightarrow> string" where
  "matching_name Equal = ''equal''"
| "matching_name Ignore = ''ignore''"
| "matching_name (Msb n) = ''msb('' @ show_nat n @ '')''"
| "matching_name MatchMapping = ''match-mapping''"

fun cda_name :: "cda \<Rightarrow> string" where
  "cda_name NotSent = ''not-sent''"
| "cda_name ValueSent = ''value-sent''"
| "cda_name MappingSent = ''mapping-sent''"
| "cda_name Lsb = ''lsb''"
| "cda_name Compute = ''compute''"
| "cda_name DeviceIid = ''deviid''"
| "cda_name AppIid = ''appiid''"

definition entry_from_rule :: "field_rule \<Rightarrow> rule_entry" where
  "entry_from_rule f =
     \<lparr>re_entry_index = fr_entry_index f, re_fid = field_name (fr_field f), re_field_position = fr_position f,
      re_direction = direction_name (fr_direction f), re_length = length_name (fr_length f),
      re_target = target_name (fr_target f), re_matching = matching_name (fr_matching f),
      re_cda = cda_name (fr_action f)\<rparr>"

definition rule_id_selector :: "rule_id \<Rightarrow> rule_selector" where
  "rule_id_selector i = selector (id_value i) (bit_len i)"

definition summaries_from_rules :: "(rule_nature \<Rightarrow> string) \<Rightarrow> rule list \<Rightarrow> rule_summary list" where
  "summaries_from_rules nature_as_str rs =
     map (\<lambda>r. \<lparr>su_id = rule_id_selector (rule_id_of r), su_nature = nature_as_str (nature r)\<rparr>) rs"

definition detail_from_rule :: "(rule_nature \<Rightarrow> string) \<Rightarrow> rule \<Rightarrow> rule_detail" where
  "detail_from_rule nature_as_str r =
     \<lparr>rd_id = rule_id_selector (rule_id_of r), rd_nature = nature_as_str (nature r),
      rd_entries = sort_key re_entry_index (map entry_from_rule (rule_fields r))\<rparr>"

definition detail_from_snapshot ::
  "(rule_nature \<Rightarrow> string) \<Rightarrow> context_snapshot \<Rightarrow> rule_selector \<Rightarrow> inspection_error + rule_detail" where
  "detail_from_snapshot nature_as_str s sel =
     (case filter (\<lambda>r. rule_id_of r = selector_id sel) (cd_rules (sn_data s)) of
        [] \<Rightarrow> Inl (MissingRule (rs_value sel) (rs_bits sel))
      | [r] \<Rightarrow> Inr (detail_from_rule nature_as_str r)
      | _ \<Rightarrow> Inl (AmbiguousRule (rs_value sel) (rs_bits sel) 2))"

subsection \<open>Listing\<close>

definition format_summary :: "rule_selector \<Rightarrow> string \<Rightarrow> string" where
  "format_summary i n = ''RULE '' @ show_nat (rs_value i) @ ''/'' @ show_nat (rs_bits i) @ '' nature='' @ n"

definition format_rule_list :: "rule_summary list \<Rightarrow> string list" where
  "format_rule_list ss =
     map (\<lambda>s. format_summary (su_id s) (su_nature s)) (sort_key (\<lambda>s. (rs_value (su_id s), rs_bits (su_id s))) ss)"

definition format_rule_entry :: "rule_entry \<Rightarrow> string" where
  "format_rule_entry e =
     ''ENTRY '' @ show_nat (re_entry_index e) @ '' fid='' @ re_fid e @ '' fp='' @ show_nat (re_field_position e)
       @ '' di='' @ re_direction e @ '' length='' @ re_length e @ '' tv='' @ re_target e
       @ '' mo='' @ re_matching e @ '' cda='' @ re_cda e"

definition format_rule_detail :: "rule_detail \<Rightarrow> string list" where
  "format_rule_detail d =
     format_summary (rd_id d) (rd_nature d) # map format_rule_entry (sort_key re_entry_index (rd_entries d))"

subsection \<open>Resolution of an entry selector\<close>

definition to_ascii_lowercase :: "char \<Rightarrow> char" where
  "to_ascii_lowercase c =
     (let n = of_char c :: nat in if 65 \<le> n \<and> n \<le> 90 then char_of (n + 32) else c)"

definition is_ascii_alphanumeric :: "char \<Rightarrow> bool" where
  "is_ascii_alphanumeric c \<longleftrightarrow>
     (let n = of_char c :: nat in 48 \<le> n \<and> n \<le> 57 \<or> 65 \<le> n \<and> n \<le> 90 \<or> 97 \<le> n \<and> n \<le> 122)"

definition strip_prefix :: "string \<Rightarrow> string \<Rightarrow> string option" where
  "strip_prefix p s = (if take (length p) s = p then Some (drop (length p) s) else None)"

definition normalize_fid :: "string \<Rightarrow> string" where
  "normalize_fid fid =
     (let s = map to_ascii_lowercase (trim fid) in
      filter is_ascii_alphanumeric (case strip_prefix ''fid-'' s of None \<Rightarrow> s | Some r \<Rightarrow> r))"

definition entry_matches_selector :: "rule_entry \<Rightarrow> entry_selector \<Rightarrow> bool" where
  "entry_matches_selector e sel =
     (case sel of
        EntryIndex i \<Rightarrow> re_entry_index e = i
      | EntryField fid fp di \<Rightarrow>
          normalize_fid (re_fid e) = normalize_fid fid \<and>
          (case fp of None \<Rightarrow> True | Some p \<Rightarrow> p = re_field_position e) \<and>
          (case di of None \<Rightarrow> True | Some d \<Rightarrow> d = re_direction e))"

definition resolve_entry_index :: "rule_detail \<Rightarrow> entry_selector \<Rightarrow> inspection_error + nat" where
  "resolve_entry_index d sel =
     (let ms = sort_key re_entry_index (filter (\<lambda>e. entry_matches_selector e sel) (rd_entries d)) in
      case ms of
        [] \<Rightarrow> Inl (MissingEntry (rd_id d) (selector_description sel))
      | [e] \<Rightarrow> Inr (re_entry_index e)
      | _ \<Rightarrow> Inl (AmbiguousEntry (rd_id d) (selector_description sel) ms
               (join [CHR 0x0A] (map format_rule_entry ms))))"

definition resolve_request_entry :: "rule_update_request \<Rightarrow> rule_detail \<Rightarrow> inspection_error + nat" where
  "resolve_request_entry r d =
     (if rd_id d \<noteq> ru_rule r then
        Inl (InvalidUpdate (''rule detail is '' @ show_selector (rd_id d) @ '' but update targets ''
               @ show_selector (ru_rule r)))
      else resolve_entry_index d (ru_entry r))"

subsection \<open>Target values\<close>

definition json_byte :: "byte \<Rightarrow> json" where
  "json_byte b = JNumber (PosInt (unat b))"

definition binary_bytes :: "json \<Rightarrow> inspection_error + bytes" where
  "binary_bytes v =
     attempt (ok_or (InvalidTarget ''target-value/value is not a binary byte array'') (as_array v)) (\<lambda>vs.
       try_all (\<lambda>e.
         attempt (ok_or (InvalidTarget ''target-value/value contains a non-byte'') (as_u64 e)) (\<lambda>n.
           if n < 256 then Inr (of_nat n)
           else Inl (InvalidTarget ''target-value/value contains an out-of-range byte''))) vs)"

text \<open>The mask test of the code, on the bytes of a leaf of \<open>field_length\<close> meaningful bits.\<close>

definition binary_fits_field_length :: "bytes \<Rightarrow> nat \<Rightarrow> bool" where
  "binary_fits_field_length bs field_length =
     (let storage_bits = length bs * 8 in
      if field_length = 0 \<or> storage_bits < field_length then False
      else
        let excess_bits = storage_bits - field_length;
            whole_bytes = excess_bits div 8;
            remaining_bits = excess_bits mod 8
        in if list_ex (\<lambda>b. b \<noteq> 0) (take whole_bytes bs) then False
           else if remaining_bits = 0 \<or> length bs \<le> whole_bytes then True
           else and (bs ! whole_bytes) (push_bit (8 - remaining_bits) 255) = 0)"

text \<open>The loop that writes the bytes from the last to the first and shifts what remains.\<close>

fun fill_bytes :: "nat \<Rightarrow> nat \<Rightarrow> bytes \<times> nat" where
  "fill_bytes 0 remaining = ([], remaining)"
| "fill_bytes (Suc n) remaining =
     (let (bs, r) = fill_bytes n (drop_bit 8 remaining) in (bs @ [of_nat (take_bit 8 remaining)], r))"

definition numeric_target_value :: "string \<Rightarrow> bytes \<Rightarrow> json \<Rightarrow> inspection_error + json" where
  "numeric_target_value input current field_length =
     (if input = [] \<or> \<not> list_all is_digit input then
        Inl (InvalidTarget ''tv must be an unsigned decimal value for a binary target'')
      else attempt (ok_or (InvalidTarget ''tv is out of range for an unsigned target value'')
                      (parse_unsigned u64_bound input)) (\<lambda>number.
        if current = [] then Inl (InvalidTarget ''existing target value has no byte width to preserve'')
        else if usize_bound \<le> length current * 8 then
          Inl (InvalidTarget ''existing target value byte width is too large'')
        else
          let storage_bits = length current * 8;
              too_wide = Inl (InvalidTarget (''tv='' @ input @ '' does not fit existing target width of ''
                           @ show_nat storage_bits @ '' bits''))
          in
          if storage_bits < 64 \<and> push_bit storage_bits 1 \<le> number then too_wide
          else attempt (case as_u64 field_length of
                  None \<Rightarrow> Inr ()
                | Some bits \<Rightarrow>
                    if bits = 0 then Inl (InvalidTarget ''selected field has a zero-bit length'')
                    else if bits < 64 \<and> push_bit bits 1 \<le> number then
                      Inl (InvalidTarget (''tv='' @ input @ '' does not fit selected field length of ''
                             @ show_nat bits @ '' bits''))
                    else Inr ()) (\<lambda>_.
            let (bs, remaining) = fill_bytes (length current) number in
            if remaining \<noteq> 0 then too_wide else Inr (JArray (map json_byte bs)))))"

subsection \<open>Resolution is exact\<close>

lemma sort_key_singleton: "sort_key f xs = [x] \<longleftrightarrow> xs = [x]"
proof
  assume "sort_key f xs = [x]"
  then have "mset xs = {#x#}" by (metis mset_sort mset_single_iff_right)
  then show "xs = [x]" by simp
qed simp

lemma resolve_entry_index_iff:
  "resolve_entry_index d sel = Inr i \<longleftrightarrow>
     (\<exists>e. filter (\<lambda>e. entry_matches_selector e sel) (rd_entries d) = [e] \<and> i = re_entry_index e)"
  by (auto simp: resolve_entry_index_def Let_def sort_key_singleton split: list.splits)

lemma filter_distinct_key:
  "distinct (map f xs) \<Longrightarrow> e \<in> set xs \<Longrightarrow> filter (\<lambda>x. f x = f e) xs = [e]"
proof (induction xs)
  case (Cons x xs)
  then show ?case by (cases "x = e") (auto simp: filter_empty_conv image_iff)
qed simp

lemma resolve_by_index:
  assumes "distinct (map re_entry_index (rd_entries d))"
  shows "resolve_entry_index d (EntryIndex i) = Inr j \<longleftrightarrow> j = i \<and> i \<in> re_entry_index ` set (rd_entries d)"
proof
  assume "resolve_entry_index d (EntryIndex i) = Inr j"
  then obtain e where e: "filter (\<lambda>e. re_entry_index e = i) (rd_entries d) = [e]" "j = re_entry_index e"
    by (auto simp: resolve_entry_index_iff entry_matches_selector_def)
  from e(1) have "set (filter (\<lambda>e. re_entry_index e = i) (rd_entries d)) = {e}" by simp
  then have "e \<in> set (rd_entries d) \<and> re_entry_index e = i" by auto
  with e(2) show "j = i \<and> i \<in> re_entry_index ` set (rd_entries d)" by auto
next
  assume "j = i \<and> i \<in> re_entry_index ` set (rd_entries d)"
  then obtain e where e: "j = i" "e \<in> set (rd_entries d)" "re_entry_index e = i" by auto
  with filter_distinct_key [OF assms e(2)] show "resolve_entry_index d (EntryIndex i) = Inr j"
    by (auto simp: resolve_entry_index_iff entry_matches_selector_def)
qed

subsection \<open>Target values and their numbers\<close>

lemma be_nat_append: "be_nat (as @ bs) = be_nat as * 256 ^ length bs + be_nat bs"
proof (induction bs rule: rev_induct)
  case (snoc b bs)
  then show ?case by (simp add: algebra_simps flip: append_assoc)
qed simp

lemma be_nat_Cons: "be_nat (b # bs) = unat b * 256 ^ length bs + be_nat bs"
  using be_nat_append [of "[b]" bs] by (simp add: be_nat_def)

lemma be_nat_eq_0_iff: "be_nat bs = 0 \<longleftrightarrow> (\<forall>b \<in> set bs. b = 0)"
  by (induction bs) (auto simp: be_nat_Cons unat_eq_0)

lemma be_nat_less_drop:
  assumes "k \<le> length bs" and "n \<le> 256 ^ (length bs - k)"
  shows "be_nat bs < n \<longleftrightarrow> (\<forall>b \<in> set (take k bs). b = 0) \<and> be_nat (drop k bs) < n"
proof -
  have eq: "be_nat bs = be_nat (take k bs) * 256 ^ (length bs - k) + be_nat (drop k bs)"
    using be_nat_append [of "take k bs" "drop k bs"] by simp
  show ?thesis
  proof (cases "be_nat (take k bs) = 0")
    case True
    then have "\<forall>b \<in> set (take k bs). b = 0" unfolding be_nat_eq_0_iff .
    with True show ?thesis using eq by simp
  next
    case False
    then have "1 * 256 ^ (length bs - k) \<le> be_nat (take k bs) * 256 ^ (length bs - k)"
      by (intro mult_right_mono) auto
    then have "256 ^ (length bs - k) \<le> be_nat (take k bs) * 256 ^ (length bs - k) + be_nat (drop k bs)"
      unfolding mult_1 by (rule trans_le_add1)
    also have "\<dots> = be_nat bs" by (rule eq [symmetric])
    finally have "\<not> be_nat bs < n" unfolding not_less by (rule le_trans [OF assms(2)])
    moreover have "\<not> (\<forall>b \<in> set (take k bs). b = 0)" using False unfolding be_nat_eq_0_iff .
    ultimately show ?thesis by blast
  qed
qed

lemma high_bits_clear:
  assumes "0 < r" and "r < 8"
  shows "and (b :: byte) (push_bit (8 - r) 255) = 0 \<longleftrightarrow> unat b < 2 ^ (8 - r)"
proof -
  have m: "(255 :: byte) = - 1" by simp
  have "and b (push_bit (8 - r) 255) = push_bit (8 - r) (drop_bit (8 - r) b)"
    unfolding m by (intro bit_eqI) (auto simp: bit_simps)
  also have "\<dots> = 0 \<longleftrightarrow> drop_bit (8 - r) b = 0"
  proof
    have "drop_bit (8 - r) (push_bit (8 - r) (drop_bit (8 - r) b)) = drop_bit (8 - r) b"
      by (intro bit_eqI) (auto simp: bit_simps dest: bit_imp_le_length)
    then show "push_bit (8 - r) (drop_bit (8 - r) b) = 0 \<Longrightarrow> drop_bit (8 - r) b = 0" by simp
  qed simp
  also have "\<dots> \<longleftrightarrow> unat (drop_bit (8 - r) b) = 0" by (simp only: unat_eq_0)
  also have "\<dots> \<longleftrightarrow> unat b div 2 ^ (8 - r) = 0" by (subst unat_drop_bit_eq) (simp only: drop_bit_eq_div)
  finally show ?thesis by (simp add: div_eq_0_iff)
qed

lemma fits_iff_number:
  "binary_fits_field_length bs f \<longleftrightarrow> 0 < f \<and> f \<le> 8 * length bs \<and> be_nat bs < 2 ^ f"
proof (cases "0 < f \<and> f \<le> 8 * length bs")
  case False
  then show ?thesis by (auto simp: binary_fits_field_length_def Let_def)
next
  case True
  define k where "k = (length bs * 8 - f) div 8"
  define r where "r = (length bs * 8 - f) mod 8"
  have f: "f + 8 * k + r = 8 * length bs" using True by (simp add: k_def r_def)
  have r8: "r < 8" by (simp add: r_def)
  have k: "k < length bs" using f True r8 by linarith
  have "(2::nat) ^ f \<le> 2 ^ (8 * (length bs - k))" using f by (intro power_increasing) auto
  then have pow: "(2::nat) ^ f \<le> 256 ^ (length bs - k)" by (simp add: power_mult)
  have "be_nat bs < 2 ^ f \<longleftrightarrow> (\<forall>b \<in> set (take k bs). b = 0) \<and> be_nat (drop k bs) < 2 ^ f"
    using be_nat_less_drop [OF less_imp_le [OF k] pow] .
  moreover have "be_nat (drop k bs) < 2 ^ f \<longleftrightarrow> r = 0 \<or> unat (bs ! k) < 2 ^ (8 - r)"
  proof -
    have d: "drop k bs = bs ! k # drop (Suc k) bs" using k by (rule Cons_nth_drop_Suc [symmetric])
    let ?m = "length bs - Suc k"
    have fm: "f = (8 - r) + 8 * ?m" using f r8 k by linarith
    have b: "be_nat (drop (Suc k) bs) < 256 ^ ?m" using be_nat_bound [of "drop (Suc k) bs"] by simp
    have "be_nat (drop k bs) < 2 ^ f \<longleftrightarrow> unat (bs ! k) * 256 ^ ?m + be_nat (drop (Suc k) bs) < 2 ^ (8 - r) * 256 ^ ?m"
      by (simp add: d be_nat_Cons fm power_add power_mult)
    also have "\<dots> \<longleftrightarrow> unat (bs ! k) < 2 ^ (8 - r)"
    proof
      assume "unat (bs ! k) < 2 ^ (8 - r)"
      then have "Suc (unat (bs ! k)) * 256 ^ ?m \<le> 2 ^ (8 - r) * 256 ^ ?m" by (intro mult_right_mono) auto
      with b show "unat (bs ! k) * 256 ^ ?m + be_nat (drop (Suc k) bs) < 2 ^ (8 - r) * 256 ^ ?m" by simp
    next
      assume "unat (bs ! k) * 256 ^ ?m + be_nat (drop (Suc k) bs) < 2 ^ (8 - r) * 256 ^ ?m"
      then have "unat (bs ! k) * 256 ^ ?m < 2 ^ (8 - r) * 256 ^ ?m" by (rule add_lessD1)
      then show "unat (bs ! k) < 2 ^ (8 - r)" by simp
    qed
    also have "\<dots> \<longleftrightarrow> r = 0 \<or> unat (bs ! k) < 2 ^ (8 - r)" using unat_byte_lt [of "bs ! k"] by auto
    finally show ?thesis .
  qed
  moreover have "binary_fits_field_length bs f \<longleftrightarrow>
      (\<forall>b \<in> set (take k bs). b = 0) \<and> (r = 0 \<or> unat (bs ! k) < 2 ^ (8 - r))"
    using True k high_bits_clear [of r "bs ! k"] r8
    by (auto simp: binary_fits_field_length_def Let_def list_ex_iff k_def [symmetric] r_def [symmetric])
  ultimately show ?thesis using True by auto
qed

lemma fill_bytes_eq: "fill_bytes n r = (be_bytes n r, r div 256 ^ n)"
proof (induction n arbitrary: r)
  case (Suc n)
  have "(of_nat (r mod 256) :: byte) = of_nat r"
    by (rule unsigned_word_eqI [where 'a = nat]) (simp only: unat_of_nat_byte mod_mod_trivial)
  moreover have "r div 256 div 256 ^ n = r div 256 ^ Suc n" by (simp add: div_mult2_eq)
  ultimately show ?case by (simp add: Suc drop_bit_eq_div take_bit_eq_mod)
qed simp

lemma binary_bytes_json [simp]: "binary_bytes (JArray (map json_byte bs)) = Inr bs"
proof -
  have "try_all f (map json_byte bs) = Inr bs" if "\<And>b. f (json_byte b) = Inr b" for f :: "json \<Rightarrow> inspection_error + byte"
    using that by (induction bs) auto
  then show ?thesis by (simp add: binary_bytes_def json_byte_def unat_byte_lt)
qed

lemma binary_bytes_Inr: "binary_bytes v = Inr bs \<Longrightarrow> v = JArray (map json_byte bs)"
proof -
  assume "binary_bytes v = Inr bs"
  then obtain vs where v: "v = JArray vs" and l: "list_all2 (\<lambda>e b. attempt
      (ok_or (InvalidTarget ''target-value/value contains a non-byte'') (as_u64 e)) (\<lambda>n.
        if n < 256 then Inr (of_nat n)
        else Inl (InvalidTarget ''target-value/value contains an out-of-range byte'')) = Inr b) vs bs"
    by (cases v) (auto simp: binary_bytes_def attempt_Inr_iff try_all_Inr_iff)
  have "list_all2 (\<lambda>e b. \<exists>n. as_u64 e = Some n \<and> n < 256 \<and> b = of_nat n) vs bs"
    using l by (rule list_all2_mono) (auto simp: result_simps split: if_splits)
  moreover
  have "e = json_byte b" if "as_u64 e = Some n" "n < 256" "b = of_nat n" for e b n
    using that by (cases e rule: as_u64.cases) (auto simp: json_byte_def)
  ultimately have "vs = map json_byte bs" by (induction rule: list_all2_induct) auto
  with v show ?thesis by simp
qed

text \<open>The bytes of a leaf and their JSON array determine each other.\<close>

interpretation leaf_bytes: canonical_codec "\<lambda>bs. JArray (map json_byte bs)" binary_bytes "\<lambda>_. True"
  by unfold_locales (auto dest: binary_bytes_Inr)

text \<open>The width checks of the code are skipped at 64 bits and more, where they hold.\<close>

lemma width_check:
  assumes "n < u64_bound"
  shows "bits < 64 \<and> push_bit bits 1 \<le> n \<longleftrightarrow> \<not> n < 2 ^ bits"
proof (cases "bits < 64")
  case False
  then have "(2::nat) ^ 64 \<le> 2 ^ bits" by (intro power_increasing) auto
  with assms have "n < 2 ^ bits" unfolding u64_bound_def by (rule less_le_trans)
  with False show ?thesis by blast
qed (simp add: push_bit_eq_mult not_less)

lemma parse_digits:
  "input \<noteq> [] \<Longrightarrow> list_all is_digit input \<Longrightarrow>
     parse_unsigned b input = (if decimal input < b then Some (decimal input) else None)"
  by (simp add: parse_unsigned_def)

lemma numeric_target_value_Inr_iff:
  "numeric_target_value input cur fl = Inr v \<longleftrightarrow>
     input \<noteq> [] \<and> list_all is_digit input \<and> decimal input < u64_bound \<and> cur \<noteq> [] \<and>
     length cur * 8 < usize_bound \<and> decimal input < 256 ^ length cur \<and>
     (\<forall>bits. as_u64 fl = Some bits \<longrightarrow> 0 < bits \<and> decimal input < 2 ^ bits) \<and>
     v = JArray (map json_byte (be_bytes (length cur) (decimal input)))"
proof (cases "input \<noteq> [] \<and> list_all is_digit input \<and> decimal input < u64_bound")
  case False
  then show ?thesis by (auto simp: numeric_target_value_def parse_digits)
next
  case True
  let ?n = "decimal input"
  have w: "bits < 64 \<and> 2 ^ bits \<le> ?n \<longleftrightarrow> \<not> ?n < 2 ^ bits" for bits
    using True width_check [of ?n bits] by simp
  have p: "(2::nat) ^ (length cur * 8) = 256 ^ length cur"
    using power_mult [of "2 :: nat" 8 "length cur"] by (simp add: mult.commute)
  have s: "length cur < 8 \<and> 256 ^ length cur \<le> ?n \<longleftrightarrow> \<not> ?n < 256 ^ length cur"
    using w [of "length cur * 8"] by (simp add: p)
  show ?thesis
    using True by (auto simp: numeric_target_value_def Let_def parse_digits fill_bytes_eq w p s attempt_Inr_iff
        simp del: not_less split: option.splits if_splits)
qed

subsection \<open>Properties\<close>

text \<open>An entry selector resolves to an index exactly when one entry of the rule matches it, and
  that is the entry's index; with no match it reports the missing entry, with several it reports
  all of them in index order.\<close>

theorem entry_resolution_exact:
  "(resolve_entry_index d sel = Inr i \<longleftrightarrow>
     (\<exists>e. filter (\<lambda>e. entry_matches_selector e sel) (rd_entries d) = [e] \<and> i = re_entry_index e)) \<and>
   ((\<exists>err. resolve_entry_index d sel = Inl err) \<longleftrightarrow>
     length (filter (\<lambda>e. entry_matches_selector e sel) (rd_entries d)) \<noteq> 1) \<and>
   (resolve_entry_index d sel = Inl (AmbiguousEntry r t ms text) \<longrightarrow>
     mset ms = {#e \<in># mset (rd_entries d). entry_matches_selector e sel#} \<and> sorted (map re_entry_index ms))"
proof (intro conjI impI)
  let ?f = "filter (\<lambda>e. entry_matches_selector e sel) (rd_entries d)"
  show "resolve_entry_index d sel = Inr i \<longleftrightarrow> (\<exists>e. ?f = [e] \<and> i = re_entry_index e)"
    by (rule resolve_entry_index_iff)
  have "(\<exists>err. resolve_entry_index d sel = Inl err) \<longleftrightarrow> \<not> (\<exists>j. resolve_entry_index d sel = Inr j)"
    by (cases "resolve_entry_index d sel") auto
  then show "(\<exists>err. resolve_entry_index d sel = Inl err) \<longleftrightarrow> length ?f \<noteq> 1"
    by (auto simp: resolve_entry_index_iff length_Suc_conv)
  assume a: "resolve_entry_index d sel = Inl (AmbiguousEntry r t ms text)"
  have "ms = sort_key re_entry_index ?f"
    using a by (auto simp: resolve_entry_index_def Let_def split: list.splits)
  then show "mset ms = {#e \<in># mset (rd_entries d). entry_matches_selector e sel#}"
    and "sorted (map re_entry_index ms)" by simp_all
qed

text \<open>The mask test on a leaf's bytes is the comparison of the number they encode with the
  field width, for every width up to the stored one.\<close>

theorem field_length_test_numeric:
  "binary_fits_field_length bs f \<longleftrightarrow> 0 < f \<and> f \<le> 8 * length bs \<and> be_nat bs < 2 ^ f"
  by (rule fits_iff_number)

text \<open>A decimal target value converts to bytes of the current width whose number is the value,
  exactly when it is a decimal number that fits the width and the field; the device's test on the
  result then passes whenever the field is not wider than the leaf.\<close>

theorem target_value_conversion:
  "(numeric_target_value input cur fl = Inr v \<longleftrightarrow>
     input \<noteq> [] \<and> list_all is_digit input \<and> decimal input < u64_bound \<and> cur \<noteq> [] \<and>
     length cur * 8 < usize_bound \<and> decimal input < 256 ^ length cur \<and>
     (\<forall>bits. as_u64 fl = Some bits \<longrightarrow> 0 < bits \<and> decimal input < 2 ^ bits) \<and>
     v = JArray (map json_byte (be_bytes (length cur) (decimal input)))) \<and>
   (numeric_target_value input cur fl = Inr v \<longrightarrow>
     (\<exists>bs. binary_bytes v = Inr bs \<and> length bs = length cur \<and> be_nat bs = decimal input \<and>
        (\<forall>bits. as_u64 fl = Some bits \<and> bits \<le> 8 * length cur \<longrightarrow> binary_fits_field_length bs bits)))"
proof (intro conjI impI)
  show "numeric_target_value input cur fl = Inr v \<longleftrightarrow>
     input \<noteq> [] \<and> list_all is_digit input \<and> decimal input < u64_bound \<and> cur \<noteq> [] \<and>
     length cur * 8 < usize_bound \<and> decimal input < 256 ^ length cur \<and>
     (\<forall>bits. as_u64 fl = Some bits \<longrightarrow> 0 < bits \<and> decimal input < 2 ^ bits) \<and>
     v = JArray (map json_byte (be_bytes (length cur) (decimal input)))"
    by (rule numeric_target_value_Inr_iff)
  assume "numeric_target_value input cur fl = Inr v"
  then have lt: "decimal input < 256 ^ length cur"
    and bits: "\<forall>bits. as_u64 fl = Some bits \<longrightarrow> 0 < bits \<and> decimal input < 2 ^ bits"
    and v: "v = JArray (map json_byte (be_bytes (length cur) (decimal input)))"
    unfolding numeric_target_value_Inr_iff by blast+
  have "be_nat (be_bytes (length cur) (decimal input)) = decimal input"
    using lt by (simp add: be_nat_be_bytes)
  with v bits show "\<exists>bs. binary_bytes v = Inr bs \<and> length bs = length cur \<and> be_nat bs = decimal input \<and>
      (\<forall>bits. as_u64 fl = Some bits \<and> bits \<le> 8 * length cur \<longrightarrow> binary_fits_field_length bs bits)"
    by (intro exI [of _ "be_bytes (length cur) (decimal input)"]) (simp add: fits_iff_number)
qed

definition demo_detail :: rule_detail where
  "demo_detail = \<lparr>rd_id = selector 5 3, rd_nature = [], rd_entries =
     [\<lparr>re_entry_index = 4, re_fid = ''fid-udp-dev-port'', re_field_position = 1, re_direction = ''bi'',
       re_length = ''16'', re_target = [], re_matching = ''equal'', re_cda = ''not-sent''\<rparr>]\<rparr>"

lemma entry_resolution_exact_witness: "resolve_entry_index demo_detail (EntryIndex 4) = Inr 4"
  by (rule entry_resolution_exact [THEN conjunct1, THEN iffD2])
     (simp add: demo_detail_def entry_matches_selector_def)

lemma target_value_conversion_witness:
  "numeric_target_value (show_nat 300) [0, 0] (JNumber (PosInt 9)) = Inr (JArray [json_byte 1, json_byte 44])"
proof (rule target_value_conversion [THEN conjunct1, THEN iffD2])
  have "be_bytes (Suc (Suc 0)) 300 = [1, 44]" by simp
  then have "be_bytes (length [0, 0 :: byte]) (decimal (show_nat 300)) = [1, 44]" by (simp del: be_bytes.simps)
  then show "show_nat 300 \<noteq> [] \<and> list_all is_digit (show_nat 300) \<and> decimal (show_nat 300) < u64_bound \<and>
      [0, 0 :: byte] \<noteq> [] \<and> length [0, 0 :: byte] * 8 < usize_bound \<and>
      decimal (show_nat 300) < 256 ^ length [0, 0 :: byte] \<and>
      (\<forall>bits. as_u64 (JNumber (PosInt 9)) = Some bits \<longrightarrow> 0 < bits \<and> decimal (show_nat 300) < 2 ^ bits) \<and>
      JArray [json_byte 1, json_byte 44] = JArray (map json_byte (be_bytes (length [0, 0 :: byte]) (decimal (show_nat 300))))"
    by (simp add: u64_bound_def usize_bound_def del: be_bytes.simps)
qed

end
