(* ===== verification/Instances.thy ===== *)
theory Instances
  imports Details
begin

text \<open>
  SID-based instance paths of the management plane (\<open>src/management.rs\<close>,
  \<open>src/management/duplicate.rs\<close>): the SIDs the code resolves from the model, the paths it
  builds, and the checks it makes on received ones. The CORECONF libraries are the fields of
  \<open>management_ext\<close>.
\<close>

subsection \<open>Third-party types and code\<close>

datatype path_component = SidDelta int | KeyValue json

type_synonym instance_path = "path_component list"

record path_instance =
  in_path :: instance_path
  in_value :: "json option"

text \<open>Content formats: the two the code names, and any other.\<close>

datatype content_format = YangDataCborSid | YangInstancesCborSeq | OtherFormat nat

datatype response_code = BadRequest | ConflictCode | InternalServerError

text \<open>The responses the code builds, by the library's constructors, and any other one.\<close>

datatype coreconf_response =
    MethodNotAllowed
  | NotFoundResponse string
  | ErrorResponse response_code string
  | ChangedResponse
  | ContentResponse bytes content_format
  | OtherResponse nat bytes

record coreconf_request =
  cq_management :: bool
  cq_path :: string
  cq_content_format :: "content_format option"
  cq_raw_content_format :: "nat option"
  cq_payload :: bytes

text \<open>A datastore over detached data is a handle; \<open>get_all\<close> reads its tree.\<close>

type_synonym datastore = json

record management_ext = packet_ext +
  nature_as_str :: "rule_nature \<Rightarrow> string"
  parse_nature :: "string \<Rightarrow> rule_nature option"
  push_delta :: "instance_path \<Rightarrow> int \<Rightarrow> string + instance_path"
  absolute_sid :: "instance_path \<Rightarrow> int option"
  path_to_value :: "instance_path \<Rightarrow> json"
  decode_instances :: "coreconf_model \<Rightarrow> bytes \<Rightarrow> string + path_instance list"
  decode_instances_identifiers :: "coreconf_model \<Rightarrow> bytes \<Rightarrow> string + path_instance list"
  encode_identifiers :: "instance_path list \<Rightarrow> string + bytes"
  datastore_with_data :: "coreconf_model \<Rightarrow> json \<Rightarrow> string + datastore"
  create_xpath :: "datastore \<Rightarrow> int \<Rightarrow> json list \<Rightarrow> string + string"
  get_path :: "datastore \<Rightarrow> string \<Rightarrow> string + json option"
  set_path :: "datastore \<Rightarrow> string \<Rightarrow> json \<Rightarrow> string + datastore"
  get_all :: "datastore \<Rightarrow> json"
  predicate_path :: "string \<Rightarrow> string + string"
  packet_to_request :: "lite_packet \<Rightarrow> string \<Rightarrow> coreconf_response + coreconf_request"
  response_to_packet :: "lite_packet \<Rightarrow> coreconf_response \<Rightarrow> lite_packet"
  to_bytes_unlimited :: "lite_packet \<Rightarrow> string + bytes"
  handle_request :: "json \<Rightarrow> coreconf_request \<Rightarrow> coreconf_response"
  json_text :: "json \<Rightarrow> string"
  debug_rule_id :: "rule_id \<Rightarrow> string"
  response_code_text :: "coreconf_response \<Rightarrow> string"

abbreviation json_nat :: "nat \<Rightarrow> json" where
  "json_nat n \<equiv> JNumber (PosInt n)"

subsection \<open>The SIDs of the model\<close>

record model_sids =
  sid_root :: int
  sid_rule :: int
  sid_rule_id_length :: int
  sid_rule_id_value :: int
  sid_entry :: int
  sid_entry_index :: int
  sid_field_length :: int
  sid_target :: int
  sid_target_index :: int
  sid_target_value :: int
  sid_duplicate_rule :: int
  sid_duplicate_input :: int
  sid_duplicate_from :: int
  sid_duplicate_from_length :: int
  sid_duplicate_from_value :: int
  sid_duplicate_ipatch :: int
  sid_duplicate_to :: int
  sid_duplicate_to_length :: int
  sid_duplicate_to_value :: int
  sid_matching_operator :: int
  sid_cda :: int

definition sid_paths :: "string list" where
  "sid_paths =
     [''/ietf-schc:schc'', ''/ietf-schc:schc/rule'', ''/ietf-schc:schc/rule/rule-id-length'',
      ''/ietf-schc:schc/rule/rule-id-value'', ''/ietf-schc:schc/rule/entry-universal'',
      ''/ietf-schc:schc/rule/entry-universal/entry-index'',
      ''/ietf-schc:schc/rule/entry-universal/field-length'',
      ''/ietf-schc:schc/rule/entry-universal/target-value'',
      ''/ietf-schc:schc/rule/entry-universal/target-value/index'',
      ''/ietf-schc:schc/rule/entry-universal/target-value/value'',
      ''/ietf-schc:duplicate-rule'', ''/ietf-schc:duplicate-rule/input'',
      ''/ietf-schc:duplicate-rule/input/from'',
      ''/ietf-schc:duplicate-rule/input/from/rule-id-length'',
      ''/ietf-schc:duplicate-rule/input/from/rule-id-value'',
      ''/ietf-schc:duplicate-rule/input/ipatch-sequence'',
      ''/ietf-schc:duplicate-rule/input/to'',
      ''/ietf-schc:duplicate-rule/input/to/rule-id-length'',
      ''/ietf-schc:duplicate-rule/input/to/rule-id-value'',
      ''/ietf-schc:schc/rule/entry-universal/matching-operator'',
      ''/ietf-schc:schc/rule/entry-universal/comp-decomp-action'']"

definition resolve_sid :: "coreconf_model \<Rightarrow> string \<Rightarrow> inspection_error + int" where
  "resolve_sid model path =
     ok_or (InvalidTarget (''SID model is missing identifier '' @ path)) (get_sid model path)"

text \<open>The fields are resolved in the order of \<open>sid_paths\<close>; the first missing one is the error.\<close>

definition sids_of_list :: "int list \<Rightarrow> model_sids" where
  "sids_of_list l =
     \<lparr>sid_root = l ! 0, sid_rule = l ! 1, sid_rule_id_length = l ! 2, sid_rule_id_value = l ! 3,
      sid_entry = l ! 4, sid_entry_index = l ! 5, sid_field_length = l ! 6, sid_target = l ! 7,
      sid_target_index = l ! 8, sid_target_value = l ! 9, sid_duplicate_rule = l ! 10,
      sid_duplicate_input = l ! 11, sid_duplicate_from = l ! 12, sid_duplicate_from_length = l ! 13,
      sid_duplicate_from_value = l ! 14, sid_duplicate_ipatch = l ! 15, sid_duplicate_to = l ! 16,
      sid_duplicate_to_length = l ! 17, sid_duplicate_to_value = l ! 18,
      sid_matching_operator = l ! 19, sid_cda = l ! 20\<rparr>"

definition resolve_sids :: "coreconf_model \<Rightarrow> inspection_error + model_sids" where
  "resolve_sids model = attempt (try_all (resolve_sid model) sid_paths) (\<lambda>l. Inr (sids_of_list l))"

definition require_list_keys :: "coreconf_model \<Rightarrow> int \<Rightarrow> int list \<Rightarrow> inspection_error + unit" where
  "require_list_keys model list_sid expected =
     (case get_keys model list_sid of
        None \<Rightarrow> Inl (InvalidTarget (''SID '' @ show_int list_sid @ '' has no list key mapping''))
      | Some keys \<Rightarrow>
          if keys \<noteq> expected then
            Inl (InvalidTarget (''SID '' @ show_int list_sid @ '' list keys are ['' @ join '', '' (map show_int keys)
              @ ''], expected ['' @ join '', '' (map show_int expected) @ '']''))
          else Inr ())"

definition validate_update_model_shape :: "coreconf_model \<Rightarrow> inspection_error + model_sids" where
  "validate_update_model_shape model =
     attempt (resolve_sids model) (\<lambda>sids.
     attempt (require_list_keys model (sid_rule sids) [sid_rule_id_value sids, sid_rule_id_length sids]) (\<lambda>_.
     attempt (require_list_keys model (sid_entry sids) [sid_entry_index sids]) (\<lambda>_.
     attempt (require_list_keys model (sid_target sids) [sid_target_index sids]) (\<lambda>_. Inr sids))))"

text \<open>\<open>rsplit('/').next()\<close>: the text after the last slash.\<close>

definition last_segment :: "char \<Rightarrow> string \<Rightarrow> string" where
  "last_segment c s = rev (takeWhile (\<lambda>d. d \<noteq> c) (rev s))"

definition tree_key_for_sid :: "coreconf_model \<Rightarrow> int \<Rightarrow> inspection_error + string" where
  "tree_key_for_sid model sid =
     attempt (ok_or (InvalidTarget (''SID model is missing identifier '' @ show_int sid)) (get_identifier model sid)) (\<lambda>i.
       let key = last_segment CHR ''/'' i in
       if key = [] then Inl (InvalidTarget (''SID '' @ show_int sid @ '' has an empty tree key'')) else Inr key)"

definition invalid_duplicate :: "string \<Rightarrow> inspection_error" where
  "invalid_duplicate e = InvalidUpdate (''duplicate-rule: '' @ e)"

definition validate_duplicate_model_shape :: "coreconf_model \<Rightarrow> inspection_error + model_sids" where
  "validate_duplicate_model_shape model =
     attempt (resolve_sids model) (\<lambda>s.
       case List.find (\<lambda>sid. get_identifier model sid = None)
         [sid_duplicate_rule s, sid_duplicate_input s, sid_duplicate_from s, sid_duplicate_from_length s,
          sid_duplicate_from_value s, sid_duplicate_ipatch s, sid_duplicate_to s, sid_duplicate_to_length s,
          sid_duplicate_to_value s, sid_matching_operator s, sid_cda s] of
         Some sid \<Rightarrow> Inl (invalid_duplicate (''SID model is missing identifier '' @ show_int sid))
       | None \<Rightarrow> Inr s)"

definition rule_key :: "coreconf_model \<Rightarrow> int \<Rightarrow> inspection_error + string" where
  "rule_key model sid =
     (case get_identifier model sid of
        Some i \<Rightarrow>
          (let key = last_segment CHR ''/'' i in
           if key = [] then Inl (invalid_duplicate (''SID model is missing rule key '' @ show_int sid)) else Inr key)
      | None \<Rightarrow> Inl (invalid_duplicate (''SID model is missing rule key '' @ show_int sid)))"

subsection \<open>Building paths\<close>

text \<open>The path under construction with the last absolute SID.\<close>

definition push_sid :: "'x management_ext_scheme \<Rightarrow> int \<Rightarrow> instance_path \<times> int \<Rightarrow> inspection_error + instance_path \<times> int" where
  "push_sid x sid = (\<lambda>(path, previous).
     attempt (map_err (\<lambda>e. InvalidTarget (''target-value path construction failed: '' @ e))
       (push_delta x path (sid - previous))) (\<lambda>path'. Inr (path', sid)))"

definition push_key :: "json \<Rightarrow> instance_path \<times> int \<Rightarrow> instance_path \<times> int" where
  "push_key v = (\<lambda>(path, previous). (path @ [KeyValue v], previous))"

definition target_value_path ::
  "'x management_ext_scheme \<Rightarrow> model_sids \<Rightarrow> rule_selector \<Rightarrow> nat \<Rightarrow> nat \<Rightarrow> inspection_error + instance_path" where
  "target_value_path x s rule entry_index target_index =
     attempt (push_sid x (sid_root s) ([], 0)) (\<lambda>p.
     attempt (push_sid x (sid_rule s) p) (\<lambda>p.
     attempt (push_sid x (sid_entry s) (push_key (json_nat (rs_bits rule)) (push_key (json_nat (rs_value rule)) p))) (\<lambda>p.
     attempt (push_sid x (sid_target s) (push_key (json_nat entry_index) p)) (\<lambda>p.
     attempt (push_sid x (sid_target_value s) (push_key (json_nat target_index) p)) (\<lambda>p. Inr (fst p))))))"

datatype duplicate_leaf = LeafTarget | LeafMatchingOperator | LeafCda

definition duplicate_override_path ::
  "'x management_ext_scheme \<Rightarrow> rule_selector \<Rightarrow> nat \<Rightarrow> duplicate_leaf \<Rightarrow> model_sids \<Rightarrow> inspection_error + instance_path" where
  "duplicate_override_path x destination entry_index leaf s =
     attempt (push_sid x (sid_root s) ([], 0)) (\<lambda>p.
     attempt (push_sid x (sid_rule s) p) (\<lambda>p.
     attempt (push_sid x (sid_entry s)
         (push_key (json_nat (rs_bits destination)) (push_key (json_nat (rs_value destination)) p))) (\<lambda>p.
     let p = push_key (json_nat entry_index) p in
     attempt (case leaf of
         LeafTarget \<Rightarrow>
           attempt (push_sid x (sid_target s) p) (\<lambda>p. push_sid x (sid_target_value s) (push_key (json_nat 0) p))
       | LeafMatchingOperator \<Rightarrow> push_sid x (sid_matching_operator s) p
       | LeafCda \<Rightarrow> push_sid x (sid_cda s) p) (\<lambda>p. Inr (fst p)))))"

definition management_instance_path ::
  "'x management_ext_scheme \<Rightarrow> int \<Rightarrow> int \<Rightarrow> rule_selector option \<Rightarrow> inspection_error + instance_path" where
  "management_instance_path x root_sid rule_sid sel =
     attempt (map_err DatastoreError (push_delta x [] root_sid)) (\<lambda>path.
     case sel of
       None \<Rightarrow> Inr path
     | Some r \<Rightarrow>
         attempt (ok_or (DatastoreError ''rule-list SID delta overflows'') (i64_checked_sub rule_sid root_sid)) (\<lambda>delta.
         attempt (map_err DatastoreError (push_delta x path delta)) (\<lambda>path.
           Inr (path @ [KeyValue (json_nat (rs_value r)), KeyValue (json_nat (rs_bits r))]))))"

subsection \<open>Reading paths\<close>

text \<open>
  The loops over the components: the running sum of the deltas, collected, and the keys. The sum is
  an unchecked \<open>i64\<close>; a debug build stops where it would wrap.
\<close>

fun path_sids :: "int \<Rightarrow> instance_path \<Rightarrow> int list" where
  "path_sids absolute [] = []"
| "path_sids absolute (SidDelta d # cs) = (let sid = i64_wrap (absolute + d) in sid # path_sids sid cs)"
| "path_sids absolute (KeyValue v # cs) = path_sids absolute cs"

fun path_keys :: "instance_path \<Rightarrow> json list" where
  "path_keys [] = []"
| "path_keys (SidDelta d # cs) = path_keys cs"
| "path_keys (KeyValue v # cs) = v # path_keys cs"

definition key_u64 :: "json list \<Rightarrow> nat \<Rightarrow> nat option" where
  "key_u64 keys n = (if n < length keys then as_u64 (keys ! n) else None)"

definition duplicate_leaf_from_path ::
  "instance_path \<Rightarrow> rule_selector \<Rightarrow> model_sids \<Rightarrow> inspection_error + nat \<times> duplicate_leaf" where
  "duplicate_leaf_from_path path destination s =
     (let sids = path_sids 0 path; keys = path_keys path in
      attempt (ok_or (invalid_duplicate ''override path is missing destination value'') (key_u64 keys 0)) (\<lambda>v.
      attempt (ok_or (invalid_duplicate ''override path is missing destination length'') (key_u64 keys 1)) (\<lambda>bits.
      if v \<noteq> rs_value destination \<or> bits \<noteq> rs_bits destination then
        Inl (invalid_duplicate ''override path destination does not match RPC destination'')
      else
      attempt (ok_or (invalid_duplicate ''override path is missing entry-index'') (key_u64 keys 2)) (\<lambda>entry.
      if usize_bound \<le> entry then Inl (invalid_duplicate ''entry-index is too large'') else
      attempt (
        if sids = [sid_root s, sid_rule s, sid_entry s, sid_matching_operator s] then Inr LeafMatchingOperator
        else if sids = [sid_root s, sid_rule s, sid_entry s, sid_cda s] then Inr LeafCda
        else if sids = [sid_root s, sid_rule s, sid_entry s, sid_target s, sid_target_value s] \<and> length keys = 4
          then Inr LeafTarget
        else Inl (invalid_duplicate ''override path names an unsupported field'')) (\<lambda>leaf.
      if leaf = LeafTarget \<and> key_u64 keys 3 \<noteq> Some 0 then
        Inl (invalid_duplicate ''target-value index must be zero'')
      else Inr (entry, leaf))))))"

definition validate_root_instance_path :: "instance_path \<Rightarrow> int \<Rightarrow> inspection_error + unit" where
  "validate_root_instance_path path root_sid =
     (if path \<noteq> [SidDelta root_sid] then
        Inl (UnexpectedResponse ''rule-list response did not contain the canonical SCHC root instance'')
      else Inr ())"

definition rule_key_values :: "instance_path \<Rightarrow> inspection_error + nat list" where
  "rule_key_values path =
     (let keys = List.map_filter as_u64 (path_keys path) in
      if length keys \<noteq> 2 then
        Inl (UnexpectedResponse ''rule response did not contain exactly two RuleID keys'')
      else Inr keys)"

definition validate_rule_instance_path ::
  "instance_path \<Rightarrow> int \<Rightarrow> int \<Rightarrow> int \<Rightarrow> rule_selector option \<Rightarrow> inspection_error + unit" where
  "validate_rule_instance_path path root_sid rule_sid leaf_sid sel =
     (let sids = path_sids 0 path in
      if length sids \<noteq> (if leaf_sid = rule_sid then 2 else 3)
        \<or> take 1 sids \<noteq> [root_sid] \<or> take 1 (drop 1 sids) \<noteq> [rule_sid]
        \<or> leaf_sid \<noteq> rule_sid \<and> take 1 (drop 2 sids) \<noteq> [leaf_sid]
        \<or> length (path_keys path) \<noteq> 2
      then Inl (UnexpectedResponse ''rule response contained an unexpected projected or full path'')
      else attempt (rule_key_values path) (\<lambda>keys.
        case sel of
          Some r \<Rightarrow>
            if keys \<noteq> [rs_value r, rs_bits r] then
              Inl (UnexpectedResponse ''rule-get response did not carry the requested list keys'')
            else Inr ()
        | None \<Rightarrow> Inr ()))"

subsection \<open>The path of a targeted patch\<close>

record patch_failure =
  pf_code :: response_code
  pf_message :: string
  pf_precondition :: bool

definition patch_bad :: "string \<Rightarrow> patch_failure" where
  "patch_bad m = \<lparr>pf_code = BadRequest, pf_message = m, pf_precondition = False\<rparr>"

definition patch_conflict :: "string \<Rightarrow> patch_failure" where
  "patch_conflict m = \<lparr>pf_code = ConflictCode, pf_message = m, pf_precondition = False\<rparr>"

definition patch_precondition :: "string \<Rightarrow> patch_failure" where
  "patch_precondition m = \<lparr>pf_code = ConflictCode, pf_message = m, pf_precondition = True\<rparr>"

definition patch_internal :: "string \<Rightarrow> patch_failure" where
  "patch_internal m = \<lparr>pf_code = InternalServerError, pf_message = m, pf_precondition = False\<rparr>"

record target_patch =
  tp_selector :: rule_selector
  tp_path :: instance_path
  tp_value :: json

definition patch_key_u64 :: "path_component option \<Rightarrow> string \<Rightarrow> patch_failure + nat" where
  "patch_key_u64 c name =
     (case c of
        Some (KeyValue v) \<Rightarrow>
          ok_or (patch_bad (''targeted iPATCH '' @ name @ '' key must be an unsigned integer'')) (as_u64 v)
      | _ \<Rightarrow> Inl (patch_bad (''targeted iPATCH is missing the '' @ name @ '' key'')))"

definition patch_key_usize :: "path_component option \<Rightarrow> string \<Rightarrow> patch_failure + nat" where
  "patch_key_usize c name =
     attempt (patch_key_u64 c name) (\<lambda>n.
       if n < usize_bound then Inr n else Inl (patch_bad (''targeted iPATCH '' @ name @ '' key is out of range'')))"

definition delta_at :: "instance_path \<Rightarrow> nat \<Rightarrow> string \<Rightarrow> patch_failure + int" where
  "delta_at cs n missing =
     (case cs ! n of SidDelta d \<Rightarrow> Inr d | KeyValue _ \<Rightarrow> Inl (patch_bad missing))"

definition require_delta :: "int \<Rightarrow> int \<Rightarrow> string \<Rightarrow> patch_failure + unit" where
  "require_delta d expected message = (if d \<noteq> expected then Inl (patch_bad message) else Inr ())"

definition target_patch_from_instance ::
  "'x management_ext_scheme \<Rightarrow> path_instance \<Rightarrow> model_sids \<Rightarrow> patch_failure + target_patch" where
  "target_patch_from_instance x i s =
     (let cs = in_path i in
      if length cs \<noteq> 9 then
        Inl (patch_bad ''targeted iPATCH path must contain the complete rule, entry, and target-value keys'')
      else
      attempt (delta_at cs 0 ''targeted iPATCH path is missing the SCHC root'') (\<lambda>root_delta.
      attempt (delta_at cs 1 ''targeted iPATCH path is missing the rule list'') (\<lambda>rule_delta.
      if root_delta \<noteq> sid_root s \<or> rule_delta \<noteq> sid_rule s - sid_root s then
        Inl (patch_bad ''targeted iPATCH path is not rooted at the complete rule list'')
      else
      attempt (patch_key_u64 (Some (cs ! 2)) ''RuleID value'') (\<lambda>rule_value.
      attempt (patch_key_u64 (Some (cs ! 3)) ''RuleID bit length'') (\<lambda>rule_bits.
      if usize_bound \<le> rule_bits then Inl (patch_bad ''RuleID bit length is out of range'') else
      attempt (map_err (\<lambda>e. patch_bad (show_inspection_error e)) (selector_new rule_value rule_bits)) (\<lambda>sel.
      attempt (delta_at cs 4 ''targeted iPATCH path is missing the entry list'') (\<lambda>entry_delta.
      attempt (require_delta entry_delta (sid_entry s - sid_rule s)
          ''targeted iPATCH path is missing the canonical entry list'') (\<lambda>_.
      attempt (patch_key_usize (Some (cs ! 5)) ''entry index'') (\<lambda>entry_index.
      attempt (delta_at cs 6 ''targeted iPATCH path is missing the target-value list'') (\<lambda>target_delta.
      attempt (require_delta target_delta (sid_target s - sid_entry s)
          ''targeted iPATCH path is missing the canonical target-value list'') (\<lambda>_.
      attempt (patch_key_usize (Some (cs ! 7)) ''target-value index'') (\<lambda>target_index.
      attempt (delta_at cs 8 ''targeted iPATCH path is missing the target-value leaf'') (\<lambda>leaf_delta.
      attempt (require_delta leaf_delta (sid_target_value s - sid_target s)
          ''targeted iPATCH path names an unsupported leaf'') (\<lambda>_.
      attempt (map_err (\<lambda>e. patch_bad (show_inspection_error e))
          (target_value_path x s sel entry_index target_index)) (\<lambda>expected.
      if cs \<noteq> expected then
        Inl (patch_bad ''targeted iPATCH path is not the canonical target-value instance path'')
      else
      attempt (ok_or (patch_bad ''targeted iPATCH cannot delete the target-value leaf'') (in_value i)) (\<lambda>v.
        Inr \<lparr>tp_selector = sel, tp_path = cs, tp_value = v\<rparr>))))))))))))))))"

subsection \<open>Paths read back\<close>

text \<open>
  The documented behaviour of \<open>push_delta\<close>: a delta it accepts is appended to the path.
\<close>

definition push_delta_ok :: "'x management_ext_scheme \<Rightarrow> bool" where
  "push_delta_ok x \<longleftrightarrow> (\<forall>p d q. push_delta x p d = Inr q \<longrightarrow> q = p @ [SidDelta d])"

lemma push_sid_Inr:
  "push_delta_ok x \<Longrightarrow> push_sid x sid p = Inr q \<Longrightarrow> q = (fst p @ [SidDelta (sid - snd p)], sid)"
  by (cases p) (auto simp: push_sid_def push_delta_ok_def result_simps)

lemma push_key_eq [simp]: "push_key v p = (fst p @ [KeyValue v], snd p)"
  by (cases p) (simp add: push_key_def)

lemma target_value_path_Inr:
  assumes "push_delta_ok x" and "target_value_path x s r e t = Inr p"
  shows "p = [SidDelta (sid_root s), SidDelta (sid_rule s - sid_root s),
      KeyValue (json_nat (rs_value r)), KeyValue (json_nat (rs_bits r)),
      SidDelta (sid_entry s - sid_rule s), KeyValue (json_nat e),
      SidDelta (sid_target s - sid_entry s), KeyValue (json_nat t),
      SidDelta (sid_target_value s - sid_target s)]"
  using assms(2)
  by (auto simp: target_value_path_def attempt_Inr_iff dest!: push_sid_Inr [OF assms(1)])

lemma duplicate_override_path_Inr:
  assumes "push_delta_ok x" and "duplicate_override_path x r e leaf s = Inr p"
  shows "p = [SidDelta (sid_root s), SidDelta (sid_rule s - sid_root s),
      KeyValue (json_nat (rs_value r)), KeyValue (json_nat (rs_bits r)),
      SidDelta (sid_entry s - sid_rule s), KeyValue (json_nat e)] @
      (case leaf of
         LeafTarget \<Rightarrow> [SidDelta (sid_target s - sid_entry s), KeyValue (json_nat 0),
           SidDelta (sid_target_value s - sid_target s)]
       | LeafMatchingOperator \<Rightarrow> [SidDelta (sid_matching_operator s - sid_entry s)]
       | LeafCda \<Rightarrow> [SidDelta (sid_cda s - sid_entry s)])"
  using assms(2)
  by (cases leaf) (auto simp: duplicate_override_path_def attempt_Inr_iff Let_def dest!: push_sid_Inr [OF assms(1)])

lemma if_Inr_iff [result_simps]: "(if c then Inl e else r) = Inr y \<longleftrightarrow> \<not> c \<and> r = Inr y"
  by simp

lemma selector_new_Inr: "selector_new v b = Inr sel \<Longrightarrow> sel = selector v b"
  by (auto simp: selector_new_def split: if_splits)

lemma patch_key_usize_Inr: "patch_key_usize c name = Inr n \<Longrightarrow> n < usize_bound"
  by (auto simp: patch_key_usize_def attempt_Inr_iff split: if_splits)

lemma target_patch_Inr:
  assumes "target_patch_from_instance x i s = Inr tp"
  obtains e t where "target_value_path x s (tp_selector tp) e t = Inr (in_path i)"
    and "selector_new (rs_value (tp_selector tp)) (rs_bits (tp_selector tp)) = Inr (tp_selector tp)"
    and "e < usize_bound" and "t < usize_bound"
    and "tp_path tp = in_path i" and "in_value i = Some (tp_value tp)"
proof -
  obtain v b sel e t expected val where "selector_new v b = Inr sel"
    and "patch_key_usize (Some (in_path i ! 5)) ''entry index'' = Inr e"
    and "patch_key_usize (Some (in_path i ! 7)) ''target-value index'' = Inr t"
    and "target_value_path x s sel e t = Inr expected" and "in_path i = expected" and "in_value i = Some val"
    and "tp = \<lparr>tp_selector = sel, tp_path = in_path i, tp_value = val\<rparr>"
    using assms unfolding target_patch_from_instance_def Let_def result_simps if_Inr_iff not_not
    apply (elim exE conjE)
    apply (rule that)
    apply assumption+
    apply simp
    done
  with that [of e t] selector_new_Inr [of v b sel] patch_key_usize_Inr show thesis by auto
qed

lemma target_patch_of_path:
  assumes ok: "push_delta_ok x" and path: "target_value_path x s r e t = Inr p"
    and r: "selector_new (rs_value r) (rs_bits r) = Inr r" and "e < usize_bound" and "t < usize_bound"
  shows "target_patch_from_instance x \<lparr>in_path = p, in_value = Some v\<rparr> s
    = Inr \<lparr>tp_selector = r, tp_path = p, tp_value = v\<rparr>"
proof -
  have bits: "rs_bits r < usize_bound"
    using r by (auto simp: selector_new_def usize_bound_def split: if_splits)
  note p = target_value_path_Inr [OF ok path]
  from path bits r assms(4,5) show ?thesis
    unfolding p
    by (simp add: target_patch_from_instance_def Let_def delta_at_def require_delta_def patch_key_u64_def
        patch_key_usize_def eval_nat_numeral)
qed

subsection \<open>A concrete instance\<close>

definition demo_sids :: model_sids where
  "demo_sids = sids_of_list (map int [1..<22])"

definition demo_mgmt :: management_ext where
  "demo_mgmt = packet_ext.extend demo_net
     (management_ext.fields (\<lambda>_. ''compression'') (\<lambda>_. Some NatureCompression) (\<lambda>p d. Inr (p @ [SidDelta d]))
        (\<lambda>p. if path_sids 0 p = [] then None else Some (last (path_sids 0 p)))
        (\<lambda>p. JArray (map (\<lambda>c. case c of SidDelta d \<Rightarrow> JNumber (NegInt d) | KeyValue v \<Rightarrow> v) p))
        (\<lambda>_ _. Inl []) (\<lambda>_ _. Inl []) (\<lambda>_. Inr [])
        (\<lambda>_ v. Inr v) (\<lambda>_ _ _. Inr ''/p'') (\<lambda>d _. Inr (Some d)) (\<lambda>_ _ v. Inr v) (\<lambda>d. d) (\<lambda>p. Inr p)
        (\<lambda>_ _. Inl MethodNotAllowed) (\<lambda>p _. p) (\<lambda>_. Inr []) (\<lambda>_ _. ChangedResponse)
        (\<lambda>_. ''json'') (\<lambda>_. ''rule'') (\<lambda>_. ''code''))"

lemma demo_push_delta [simp]: "push_delta demo_mgmt p d = Inr (p @ [SidDelta d])"
  by (simp add: demo_mgmt_def packet_ext.defs management_ext.defs)

lemma demo_push_delta_ok [simp]: "push_delta_ok demo_mgmt"
  by (simp add: push_delta_ok_def)

subsection \<open>Properties\<close>

text \<open>C23: The device accepts a targeted patch exactly when its instance path is the one the
  console builds for the selected rule, entry and target value, keys included. The patch then
  carries that path, the selector read from the keys and the value of the instance.\<close>

theorem target_patch_exact:
  assumes "push_delta_ok x"
  shows "target_patch_from_instance x i s = Inr tp \<longleftrightarrow>
    (\<exists>e t. target_value_path x s (tp_selector tp) e t = Inr (in_path i) \<and> e < usize_bound \<and> t < usize_bound) \<and>
    selector_new (rs_value (tp_selector tp)) (rs_bits (tp_selector tp)) = Inr (tp_selector tp) \<and>
    in_value i = Some (tp_value tp) \<and> tp_path tp = in_path i"
proof (rule iffI, goal_cases)
  case 1
  then show ?case by (rule target_patch_Inr) blast
next
  case 2
  then obtain e t where "target_value_path x s (tp_selector tp) e t = Inr (in_path i)"
    "e < usize_bound" "t < usize_bound"
    by blast
  with 2 have "target_patch_from_instance x \<lparr>in_path = in_path i, in_value = Some (tp_value tp)\<rparr> s
     = Inr \<lparr>tp_selector = tp_selector tp, tp_path = in_path i, tp_value = tp_value tp\<rparr>"
    by (intro target_patch_of_path [OF assms, where e = e and t = t]) auto
  moreover have "\<lparr>in_path = in_path i, in_value = Some (tp_value tp)\<rparr> = i" using 2 by simp
  moreover have "\<lparr>tp_selector = tp_selector tp, tp_path = in_path i, tp_value = tp_value tp\<rparr> = tp" using 2 by simp
  ultimately show ?case by simp
qed

lemma target_patch_exact_witness:
  "\<exists>p. target_value_path demo_mgmt demo_sids \<lparr>rs_value = 5, rs_bits = 3\<rparr> 0 0 = Inr p \<and>
     target_patch_from_instance demo_mgmt \<lparr>in_path = p, in_value = Some JNull\<rparr> demo_sids
     = Inr \<lparr>tp_selector = \<lparr>rs_value = 5, rs_bits = 3\<rparr>, tp_path = p, tp_value = JNull\<rparr>"
proof -
  obtain p where p: "target_value_path demo_mgmt demo_sids \<lparr>rs_value = 5, rs_bits = 3\<rparr> 0 0 = Inr p"
    by (simp add: target_value_path_def push_sid_def)
  moreover have "selector_new 5 3 = Inr \<lparr>rs_value = 5, rs_bits = 3\<rparr>"
    by (simp add: selector_new_def)
  ultimately have "target_patch_from_instance demo_mgmt \<lparr>in_path = p, in_value = Some JNull\<rparr> demo_sids
     = Inr \<lparr>tp_selector = \<lparr>rs_value = 5, rs_bits = 3\<rparr>, tp_path = p, tp_value = JNull\<rparr>"
    by (subst target_patch_exact) (auto simp: usize_bound_def intro!: exI [of _ 0])
  with p show ?thesis by blast
qed

text \<open>The SIDs of a path are \<open>i64\<close>.\<close>

definition typed_sids :: "model_sids \<Rightarrow> bool" where
  "typed_sids s \<longleftrightarrow> list_all (\<lambda>i. i64_wrap i = i) [sid_root s, sid_rule s, sid_entry s, sid_target s,
     sid_target_value s, sid_matching_operator s, sid_cda s]"

text \<open>The path the console puts in a duplicate-rule request names its entry and its leaf: for
  the destination it was built for, reading it back gives both, whichever of the three leaves it
  is, as long as the model gives the two identity leaves different SIDs.\<close>

theorem duplicate_leaf_roundtrip:
  assumes "push_delta_ok x" and "duplicate_override_path x destination entry leaf s = Inr p"
    and "entry < usize_bound" and "sid_matching_operator s \<noteq> sid_cda s" and "typed_sids s"
  shows "duplicate_leaf_from_path p destination s = Inr (entry, leaf)"
  using assms(3-5)
  by (cases leaf) (simp_all add: duplicate_override_path_Inr [OF assms(1,2)] duplicate_leaf_from_path_def key_u64_def
      typed_sids_def Let_def)

lemma duplicate_leaf_roundtrip_witness:
  "\<exists>p. duplicate_override_path demo_mgmt \<lparr>rs_value = 9, rs_bits = 8\<rparr> 4 LeafCda demo_sids = Inr p \<and>
     duplicate_leaf_from_path p \<lparr>rs_value = 9, rs_bits = 8\<rparr> demo_sids = Inr (4, LeafCda)"
proof -
  obtain p where p: "duplicate_override_path demo_mgmt \<lparr>rs_value = 9, rs_bits = 8\<rparr> 4 LeafCda demo_sids = Inr p"
    by (simp add: duplicate_override_path_def push_sid_def Let_def)
  moreover have "sid_matching_operator demo_sids \<noteq> sid_cda demo_sids" and "typed_sids demo_sids"
    by (simp_all add: typed_sids_def demo_sids_def sids_of_list_def upt_rec i64_wrap_def)
  ultimately have "duplicate_leaf_from_path p \<lparr>rs_value = 9, rs_bits = 8\<rparr> demo_sids = Inr (4, LeafCda)"
    by (intro duplicate_leaf_roundtrip [of demo_mgmt]) (simp_all add: usize_bound_def)
  with p show ?thesis by blast
qed

end
