(* ===== verification/Flows.thy ===== *)
theory Flows
  imports Instances
begin

text \<open>
  What a logical IPv6/UDP packet asks of a rule (\<open>src/management/duplicate.rs\<close>): which rules are
  possible parents of a flow, the value a packet has for a field, the match of that value with a
  target, and the overrides that make a parent rule fit the packet. The direction test of the
  codec library is the field of \<open>flow_ext\<close>.
\<close>

subsection \<open>Rules of a flow\<close>

record flow_ext = management_ext +
  direction_accepts :: "direction_selector \<Rightarrow> direction \<Rightarrow> bool"

datatype flow_direction = Uplink | Downlink

fun schc_direction :: "flow_direction \<Rightarrow> direction" where
  "schc_direction Uplink = Up"
| "schc_direction Downlink = Down"

fun link_role_of :: "flow_direction \<Rightarrow> node_role" where
  "link_role_of Uplink = RoleDevice"
| "link_role_of Downlink = RoleCore"

definition has_application_payload :: "rule \<Rightarrow> bool" where
  "has_application_payload r \<longleftrightarrow>
     list_ex (\<lambda>f. fr_field f = FieldPayload \<or> fr_field f = FieldUdp ''fid-udp-payload'') (rule_fields r)"

definition flow_field_index :: "field_ref \<Rightarrow> nat option" where
  "flow_field_index f =
     (if f = FieldIpv6 ''fid-ipv6-flowlabel'' then Some 0
      else if f = FieldIpv6 ''fid-ipv6-devprefix'' then Some 1
      else if f = FieldIpv6 ''fid-ipv6-deviid'' then Some 2
      else if f = FieldIpv6 ''fid-ipv6-appprefix'' then Some 3
      else if f = FieldIpv6 ''fid-ipv6-appiid'' then Some 4
      else if f = FieldUdp ''fid-udp-dev-port'' then Some 5
      else if f = FieldUdp ''fid-udp-app-port'' then Some 6
      else None)"

fun is_bytes :: "target_value \<Rightarrow> bool" where
  "is_bytes (TargetBytes _) = True"
| "is_bytes _ = False"

definition mark_seen :: "bool list \<Rightarrow> field_rule \<Rightarrow> bool list" where
  "mark_seen seen f =
     (if fr_matching f = Ignore \<or> \<not> is_bytes (fr_target f) then seen
      else case flow_field_index (fr_field f) of None \<Rightarrow> seen | Some i \<Rightarrow> seen[i := True])"

definition has_complete_flow_fields :: "rule \<Rightarrow> bool" where
  "has_complete_flow_fields r = list_all (\<lambda>p. p) (foldl mark_seen (replicate 7 False) (rule_fields r))"

subsection \<open>Values of a packet\<close>

text \<open>The code shifts the value by whole bytes; a shift of eight bits is always in range.\<close>

definition bytes_to_u64 :: "bytes \<Rightarrow> u64 option" where
  "bytes_to_u64 bs =
     (if 8 < length bs then None else Some (foldl (\<lambda>v b. or (push_bit 8 v) (ucast b)) 0 bs))"

definition integer_bytes :: "nat \<Rightarrow> nat \<Rightarrow> bytes" where
  "integer_bytes v bits = drop (8 - (bits + 7) div 8) (be_bytes 8 v)"

definition logical_field_value :: "udp_packet \<Rightarrow> flow_direction \<Rightarrow> field_ref \<Rightarrow> (bytes \<times> nat) option" where
  "logical_field_value p d f =
     (let (device, application, device_port, application_port) =
        (case d of
           Uplink \<Rightarrow> (ud_source p, ud_destination p, ud_source_port p, ud_destination_port p)
         | Downlink \<Rightarrow> (ud_destination p, ud_source p, ud_destination_port p, ud_source_port p));
          integer = (\<lambda>v bits. Some (integer_bytes v bits, bits))
      in case f of
        FieldIpv6 name \<Rightarrow>
          if name = ''fid-ipv6-version'' then integer 6 4
          else if name = ''fid-ipv6-trafficclass'' then integer (ud_traffic_class p) 8
          else if name = ''fid-ipv6-flowlabel'' then integer (ud_flow_label p) 20
          else if name = ''fid-ipv6-payload-length'' then integer (ud_ipv6_payload_length p) 16
          else if name = ''fid-ipv6-nextheader'' then integer (ud_next_header p) 8
          else if name = ''fid-ipv6-hoplimit'' then integer (ud_hop_limit p) 8
          else if name = ''fid-ipv6-devprefix'' then Some (take 8 device, 64)
          else if name = ''fid-ipv6-deviid'' then Some (drop 8 device, 64)
          else if name = ''fid-ipv6-appprefix'' then Some (take 8 application, 64)
          else if name = ''fid-ipv6-appiid'' then Some (drop 8 application, 64)
          else None
      | FieldUdp name \<Rightarrow>
          if name = ''fid-udp-dev-port'' then integer device_port 16
          else if name = ''fid-udp-app-port'' then integer application_port 16
          else if name = ''fid-udp-length'' then integer (ud_udp_length p) 16
          else if name = ''fid-udp-checksum'' then integer (ud_udp_checksum p) 16
          else None
      | _ \<Rightarrow> None)"

subsection \<open>Matching\<close>

definition bit_at :: "bytes \<Rightarrow> nat \<Rightarrow> bool" where
  "bit_at bs i = (if i div 8 < length bs then and (bs ! (i div 8)) (drop_bit (i mod 8) 128) \<noteq> 0 else False)"

definition target_matches :: "bytes \<Rightarrow> bytes \<Rightarrow> nat \<Rightarrow> matching_operator \<Rightarrow> bool" where
  "target_matches actual target bits matching =
     (if matching = Equal then bytes_to_u64 actual = bytes_to_u64 target
      else
        let compare_bits = (case matching of Msb n \<Rightarrow> min n bits | _ \<Rightarrow> bits) in
        list_all (\<lambda>i. bit_at actual i = bit_at target i) [0..<compare_bits])"

definition field_matches :: "field_rule \<Rightarrow> bytes \<Rightarrow> nat \<Rightarrow> bool" where
  "field_matches f actual bits =
     (case fr_target f of
        TargetNone \<Rightarrow> False
      | TargetBytes t \<Rightarrow> target_matches actual t bits (fr_matching f)
      | TargetMapping ts \<Rightarrow> list_ex (\<lambda>t. target_matches actual t bits (fr_matching f)) ts)"

subsection \<open>Overrides\<close>

fun is_fixed :: "field_length \<Rightarrow> bool" where
  "is_fixed (FixedBits _) = True"
| "is_fixed _ = False"

definition value_override :: "nat \<Rightarrow> u64 \<Rightarrow> duplicate_override" where
  "value_override i v =
     \<lparr>do_entry_index = i, do_target_value = Some (show_nat (unat v)), do_matching_operator = None, do_cda = None\<rparr>"

text \<open>
  The loop over the fields. \<open>None\<close> is the early return that says the parent cannot represent the
  packet; an error ends the whole search.
\<close>

fun override_loop ::
  "'x flow_ext_scheme \<Rightarrow> udp_packet \<Rightarrow> flow_direction \<Rightarrow> duplicate_override list \<Rightarrow> field_rule list
    \<Rightarrow> inspection_error + duplicate_override list option" where
  "override_loop x p d os [] = Inr (Some os)"
| "override_loop x p d os (f # fs) =
     (if \<not> direction_accepts x (fr_direction f) (schc_direction d) \<or> fr_matching f = Ignore then
        override_loop x p d os fs
      else case logical_field_value p d (fr_field f) of
        None \<Rightarrow> if fr_target f = TargetNone then override_loop x p d os fs else Inr None
      | Some (actual, bits) \<Rightarrow>
          if field_matches f actual bits then override_loop x p d os fs
          else if \<not> is_bytes (fr_target f) \<or> \<not> is_fixed (fr_length f) \<or> 64 < bits then Inr None
          else attempt (ok_or (UnrepresentableFlow (''entry '' @ show_nat (fr_entry_index f) @ '' exceeds 64 bits''))
                  (bytes_to_u64 actual)) (\<lambda>v.
            override_loop x p d (os @ [value_override (fr_entry_index f) v]) fs))"

definition flow_overrides ::
  "'x flow_ext_scheme \<Rightarrow> rule \<Rightarrow> udp_packet \<Rightarrow> flow_direction \<Rightarrow> inspection_error + duplicate_override list option" where
  "flow_overrides x parent p d =
     attempt (override_loop x p d [] (rule_fields parent)) (\<lambda>r.
       case r of None \<Rightarrow> Inr None | Some os \<Rightarrow> Inr (Some (sort_key do_entry_index os)))"

subsection \<open>Numbers of byte sequences\<close>

lemma or_shift_byte: "or (push_bit 8 v) (ucast (b :: byte)) = (256 * v + ucast b :: u64)"
proof -
  have "push_bit 8 v + ucast b = or (push_bit 8 v) (ucast b :: u64)"
    by (rule disjunctive_add) (auto simp: bit_simps dest: bit_imp_le_length)
  then show ?thesis by (simp add: push_bit_eq_mult mult.commute)
qed

lemma bytes_to_u64_nat: "bytes_to_u64 bs = (if 8 < length bs then None else Some (of_nat (be_nat bs)))"
proof -
  have "foldl (\<lambda>v b. or (push_bit 8 v) (ucast b)) 0 bs = (of_nat (be_nat bs) :: u64)"
    by (induction bs rule: rev_induct) (simp_all add: or_shift_byte)
  then show ?thesis by (simp add: bytes_to_u64_def)
qed

lemma be_nat_u64: "length bs \<le> 8 \<Longrightarrow> unat (of_nat (be_nat bs) :: u64) = be_nat bs"
proof -
  assume "length bs \<le> 8"
  then have "(256::nat) ^ length bs \<le> 256 ^ 8" by (intro power_increasing) auto
  with be_nat_bound [of bs] have "be_nat bs < 2 ^ 64" by simp
  then show ?thesis by (simp add: unat_of_nat)
qed

lemma bit_be_nat:
  "bit (be_nat bs) n \<longleftrightarrow> n < 8 * length bs \<and> bit (bs ! (length bs - 1 - n div 8)) (n mod 8)"
proof (induction bs arbitrary: n rule: rev_induct)
  case (snoc b bs)
  have "push_bit 8 (be_nat bs) + unat b = or (push_bit 8 (be_nat bs)) (unat b)"
    by (rule disjunctive_add) (auto simp: bit_simps dest: bit_imp_le_length)
  then have "be_nat (bs @ [b]) = or (push_bit 8 (be_nat bs)) (unat b)"
    by (simp add: push_bit_eq_mult mult.commute)
  then have "bit (be_nat (bs @ [b])) n \<longleftrightarrow> (if n < 8 then bit b n else bit (be_nat bs) (n - 8))"
    by (auto simp: bit_simps simp del: be_nat_simps dest: bit_imp_le_length)
  also have "\<dots> \<longleftrightarrow> n < 8 * length (bs @ [b]) \<and>
      bit ((bs @ [b]) ! (length (bs @ [b]) - 1 - n div 8)) (n mod 8)"
  proof (cases "n < 8")
    case False
    then have d: "n div 8 = Suc ((n - 8) div 8)" and m: "(n - 8) mod 8 = n mod 8"
      by (simp_all add: le_div_geq le_mod_geq)
    show ?thesis
    proof (cases "n - 8 < 8 * length bs")
      case True
      then have "length bs - Suc ((n - 8) div 8) < length bs" by auto
      with True False show ?thesis by (auto simp: snoc.IH [of "n - 8"] d m nth_append)
    qed (use False in \<open>auto simp: snoc.IH [of "n - 8"]\<close>)
  qed simp
  finally show ?case .
qed simp

lemma byte_mask_bit: "k < 8 \<Longrightarrow> and (b :: byte) (drop_bit k 128) \<noteq> 0 \<longleftrightarrow> bit b (7 - k)"
proof -
  assume "k < 8"
  then have "k = 0 \<or> k = 1 \<or> k = 2 \<or> k = 3 \<or> k = 4 \<or> k = 5 \<or> k = 6 \<or> k = 7" by linarith
  then have "drop_bit k (128 :: byte) = push_bit (7 - k) 1" by (elim disjE) simp_all
  then show ?thesis by (simp add: bit_iff_and_push_bit_not_eq_0)
qed

lemma bit_at_iff: "i < 8 * length bs \<Longrightarrow> bit_at bs i \<longleftrightarrow> bit (be_nat bs) (8 * length bs - 1 - i)"
proof -
  assume i: "i < 8 * length bs"
  let ?n = "8 * length bs - 1 - i"
  have l: "i div 8 < length bs" using i by auto
  have "i = 8 * (i div 8) + i mod 8" by simp
  then have n: "?n = 8 * (length bs - 1 - i div 8) + (7 - i mod 8)" using i l by linarith
  have "(8 * q + r) div 8 = q \<and> (8 * q + r) mod 8 = r" if "r < 8" for q r :: nat
    using that by simp
  from this [of "7 - i mod 8" "length bs - 1 - i div 8"]
  have d: "?n div 8 = length bs - 1 - i div 8" and m: "?n mod 8 = 7 - i mod 8"
    unfolding n by (simp_all only: less_imp_diff_less numeral_less_iff semiring_norm)
  have "length bs - 1 - ?n div 8 = i div 8" using l by (simp add: d)
  moreover have "?n < 8 * length bs" using i by linarith
  ultimately have "bit (be_nat bs) ?n \<longleftrightarrow> bit (bs ! (i div 8)) (7 - i mod 8)"
    unfolding bit_be_nat m by simp
  then show ?thesis using l by (simp only: bit_at_def if_True) (simp add: byte_mask_bit)
qed

text \<open>Comparing the first bits of two leaves of one length compares their numbers without the
  last bits.\<close>

lemma leading_bits_equal:
  assumes "length t = length a" and "k \<le> 8 * length a"
  shows "list_all (\<lambda>i. bit_at a i = bit_at t i) [0..<k] \<longleftrightarrow>
    be_nat a div 2 ^ (8 * length a - k) = be_nat t div 2 ^ (8 * length a - k)"
proof -
  let ?L = "8 * length a"
  have "list_all (\<lambda>i. bit_at a i = bit_at t i) [0..<k] \<longleftrightarrow>
      (\<forall>i < k. bit (be_nat a) (?L - 1 - i) = bit (be_nat t) (?L - 1 - i))"
    using assms by (auto simp: list_all_iff bit_at_iff)
  also have "\<dots> \<longleftrightarrow> (\<forall>n. ?L - k \<le> n \<longrightarrow> bit (be_nat a) n = bit (be_nat t) n)"
  proof (rule iffI; intro allI impI)
    fix n assume eq: "\<forall>i < k. bit (be_nat a) (?L - 1 - i) = bit (be_nat t) (?L - 1 - i)" and n: "?L - k \<le> n"
    show "bit (be_nat a) n = bit (be_nat t) n"
    proof (cases "n < ?L")
      case True
      with n have "?L - 1 - n < k" and "?L - 1 - (?L - 1 - n) = n" by linarith+
      with eq show ?thesis by metis
    qed (simp add: bit_be_nat assms(1))
  next
    fix i assume "\<forall>n. ?L - k \<le> n \<longrightarrow> bit (be_nat a) n = bit (be_nat t) n" and "i < k"
    then show "bit (be_nat a) (?L - 1 - i) = bit (be_nat t) (?L - 1 - i)" by simp
  qed
  also have "\<dots> \<longleftrightarrow> drop_bit (?L - k) (be_nat a) = drop_bit (?L - k) (be_nat t)"
    by (simp add: bit_eq_iff [where 'a = nat] bit_simps add.commute) (metis le_add2 le_add_diff_inverse2)
  finally show ?thesis by (simp add: drop_bit_eq_div)
qed

lemma target_matches_iff:
  assumes "length t = length a" and "bits \<le> 8 * length a" and "length a \<le> 8"
  shows "target_matches a t bits m \<longleftrightarrow>
    (case m of
       Equal \<Rightarrow> be_nat a = be_nat t
     | Msb n \<Rightarrow> be_nat a div 2 ^ (8 * length a - min n bits) = be_nat t div 2 ^ (8 * length a - min n bits)
     | _ \<Rightarrow> be_nat a div 2 ^ (8 * length a - bits) = be_nat t div 2 ^ (8 * length a - bits))"
proof (cases "m = Equal")
  case True
  have "(of_nat (be_nat a) :: u64) = of_nat (be_nat t) \<longleftrightarrow> be_nat a = be_nat t"
    using be_nat_u64 [of a] be_nat_u64 [of t] assms by metis
  with True assms show ?thesis by (simp add: target_matches_def bytes_to_u64_nat)
next
  case False
  with assms leading_bits_equal [of t a] show ?thesis
    by (cases m) (simp_all add: target_matches_def Let_def min_def)
qed

lemma drop_be_bytes: "drop m (be_bytes (m + n) v) = be_bytes n v"
  by (induction n arbitrary: v) simp_all

lemma integer_bytes_eq: "bits \<le> 64 \<Longrightarrow> integer_bytes v bits = be_bytes ((bits + 7) div 8) v"
  using drop_be_bytes [of "8 - (bits + 7) div 8" "(bits + 7) div 8" v] by (simp add: integer_bytes_def)

lemma be_nat_integer_bytes: "v < 2 ^ bits \<Longrightarrow> bits \<le> 64 \<Longrightarrow> be_nat (integer_bytes v bits) = v"
proof -
  assume v: "v < 2 ^ bits" and bits: "bits \<le> 64"
  have "bits \<le> 8 * ((bits + 7) div 8)" by linarith
  then have "(2::nat) ^ bits \<le> 2 ^ (8 * ((bits + 7) div 8))" by (rule power_increasing) simp
  with v have "v < 256 ^ ((bits + 7) div 8)" by (simp add: power_mult)
  with bits show ?thesis by (simp add: integer_bytes_eq be_nat_be_bytes)
qed

subsection \<open>The loop over the fields\<close>

definition relevant :: "'x flow_ext_scheme \<Rightarrow> flow_direction \<Rightarrow> field_rule \<Rightarrow> bool" where
  "relevant x d f \<longleftrightarrow> direction_accepts x (fr_direction f) (schc_direction d) \<and> fr_matching f \<noteq> Ignore"

text \<open>The overrides of one field, and the condition under which the loop goes past it.\<close>

definition overrides_of :: "'x flow_ext_scheme \<Rightarrow> udp_packet \<Rightarrow> flow_direction \<Rightarrow> field_rule \<Rightarrow> duplicate_override list" where
  "overrides_of x p d f =
     (if \<not> relevant x d f then []
      else case logical_field_value p d (fr_field f) of
        None \<Rightarrow> []
      | Some (a, bits) \<Rightarrow>
          if field_matches f a bits then [] else [value_override (fr_entry_index f) (of_nat (be_nat a))])"

definition representable :: "'x flow_ext_scheme \<Rightarrow> udp_packet \<Rightarrow> flow_direction \<Rightarrow> field_rule \<Rightarrow> bool" where
  "representable x p d f \<longleftrightarrow>
     (relevant x d f \<longrightarrow>
        (case logical_field_value p d (fr_field f) of
           None \<Rightarrow> fr_target f = TargetNone
         | Some (a, bits) \<Rightarrow>
             field_matches f a bits \<or> is_bytes (fr_target f) \<and> is_fixed (fr_length f) \<and> bits \<le> 64 \<and> length a \<le> 8))"

lemma override_loop_Some:
  "override_loop x p d os fs = Inr (Some ps) \<longleftrightarrow>
     list_all (representable x p d) fs \<and> ps = os @ concat (map (overrides_of x p d) fs)"
proof (induction fs arbitrary: os)
  case (Cons f fs)
  show ?case
  proof (cases "relevant x d f")
    case False
    with Cons show ?thesis by (auto simp: relevant_def representable_def overrides_of_def)
  next
    case True
    then have r: "direction_accepts x (fr_direction f) (schc_direction d)" "fr_matching f \<noteq> Ignore"
      by (simp_all add: relevant_def)
    show ?thesis
    proof (cases "logical_field_value p d (fr_field f)")
      case None
      with r True Cons show ?thesis by (auto simp: representable_def overrides_of_def)
    next
      case (Some ab)
      then obtain a bits where "logical_field_value p d (fr_field f) = Some (a, bits)" by (cases ab) auto
      with r True Cons show ?thesis
        by (auto simp: representable_def overrides_of_def bytes_to_u64_nat result_simps not_le not_less)
    qed
  qed
qed auto

lemma flow_overrides_Some:
  "flow_overrides x r p d = Inr (Some os) \<longleftrightarrow>
     list_all (representable x p d) (rule_fields r) \<and>
     os = sort_key do_entry_index (concat (map (overrides_of x p d) (rule_fields r)))"
proof -
  have "flow_overrides x r p d = Inr (Some os) \<longleftrightarrow>
      (\<exists>ps. override_loop x p d [] (rule_fields r) = Inr (Some ps) \<and> os = sort_key do_entry_index ps)"
    by (auto simp: flow_overrides_def result_simps split: option.splits)
  then show ?thesis by (auto simp: override_loop_Some)
qed

subsection \<open>Properties\<close>

text \<open>C27: The planned overrides are exactly those the packet needs. The planner gives a list
  exactly when every relevant field matches, has no value in the packet and no target, or is a
  fixed-length binary target of at most 64 bits; the list has one override for each relevant
  field the packet does not match, carrying the packet's value, in entry order.\<close>

theorem flow_overrides_exact:
  "flow_overrides x r p d = Inr (Some os) \<longleftrightarrow>
     list_all (representable x p d) (rule_fields r) \<and> sorted (map do_entry_index os) \<and>
     mset os = mset (concat (map (overrides_of x p d) (rule_fields r))) \<and>
     (\<forall>i. filter (\<lambda>c. do_entry_index c = i) os
        = filter (\<lambda>c. do_entry_index c = i) (concat (map (overrides_of x p d) (rule_fields r))))"
proof -
  let ?os = "concat (map (overrides_of x p d) (rule_fields r))"
  have "os = sort_key do_entry_index ?os \<longleftrightarrow> sorted (map do_entry_index os) \<and> mset os = mset ?os \<and>
      (\<forall>i. filter (\<lambda>c. do_entry_index c = i) os = filter (\<lambda>c. do_entry_index c = i) ?os)"
  proof
    assume "os = sort_key do_entry_index ?os"
    then show "sorted (map do_entry_index os) \<and> mset os = mset ?os \<and>
      (\<forall>i. filter (\<lambda>c. do_entry_index c = i) os = filter (\<lambda>c. do_entry_index c = i) ?os)"
      by (simp add: sort_key_stable)
  next
    assume a: "sorted (map do_entry_index os) \<and> mset os = mset ?os \<and>
      (\<forall>i. filter (\<lambda>c. do_entry_index c = i) os = filter (\<lambda>c. do_entry_index c = i) ?os)"
    then have "filter (\<lambda>c. i = do_entry_index c) os = filter (\<lambda>c. i = do_entry_index c) ?os" for i
      by (simp only: eq_commute [of i])
    with a show "os = sort_key do_entry_index ?os"
      by (intro properties_for_sort_key [symmetric]) blast+
  qed
  then show ?thesis by (simp add: flow_overrides_Some list_all_iff)
qed

text \<open>An override makes its field match. The decimal text put in the request, converted to the
  width of the current target, gives bytes that the equality match accepts for the packet's value,
  and the packet's own bytes when the widths agree.\<close>

theorem override_makes_field_match:
  assumes "length actual \<le> 8" and "length current \<le> 8"
    and "do_target_value (value_override i (of_nat (be_nat actual))) = Some tv"
    and "numeric_target_value tv current field_length = Inr v"
  shows "\<exists>t. binary_bytes v = Inr t \<and> target_matches actual t bits Equal \<and>
    (length current = length actual \<longrightarrow> t = actual)"
proof -
  have tv: "decimal tv = be_nat actual"
    using assms(1,3) by (auto simp: value_override_def be_nat_u64)
  then have v: "v = JArray (map json_byte (be_bytes (length current) (be_nat actual)))"
    and lt: "be_nat actual < 256 ^ length current"
    using assms(4) unfolding numeric_target_value_Inr_iff by auto
  have "be_nat (be_bytes (length current) (be_nat actual)) = be_nat actual"
    using lt by (simp add: be_nat_be_bytes)
  then have "target_matches actual (be_bytes (length current) (be_nat actual)) bits Equal"
    using assms(1,2) by (simp add: target_matches_def bytes_to_u64_nat)
  then show ?thesis by (auto simp: v)
qed

lemma override_makes_field_match_witness:
  "\<exists>t. binary_bytes (JArray [json_byte 22, json_byte 51]) = Inr t \<and> target_matches [22, 51] t 16 Equal"
proof -
  have "\<exists>t. binary_bytes (JArray [json_byte 22, json_byte 51]) = Inr t \<and> target_matches [22, 51] t 16 Equal \<and>
      (length [0, 0 :: byte] = length [22, 51 :: byte] \<longrightarrow> t = [22, 51])"
  proof (rule override_makes_field_match [where i = 0 and field_length = JNull])
    have "be_nat [22, 51] = 5683" by (simp add: be_nat_def)
    then show "do_target_value (value_override 0 (of_nat (be_nat [22, 51]))) = Some (show_nat 5683)"
      by (simp add: value_override_def)
    have "be_bytes (Suc (Suc 0)) 5683 = [22, 51]" by simp
    then show "numeric_target_value (show_nat 5683) [0, 0] JNull = Inr (JArray [json_byte 22, json_byte 51])"
      unfolding numeric_target_value_Inr_iff by (simp add: u64_bound_def usize_bound_def del: be_bytes.simps)
  qed simp_all
  then show ?thesis by blast
qed

text \<open>C28: What the match of two flow labels compares. A 20-bit label is held right-aligned in three bytes.
  The operator for equality compares the whole labels. A mapping compares the first 20 bits of the three
  bytes, so two labels match exactly when they agree without their last four bits; and the operator for
  the n most significant bits of the field compares the n first bits of the three bytes, four of which
  are padding, so it compares four bits too few.\<close>

theorem flow_label_match_ignores_low_bits:
  assumes "v < 2 ^ 20" and "w < 2 ^ 20"
  shows "(target_matches (integer_bytes v 20) (integer_bytes w 20) 20 Equal \<longleftrightarrow> v = w) \<and>
    (target_matches (integer_bytes v 20) (integer_bytes w 20) 20 MatchMapping \<longleftrightarrow> v div 2 ^ 4 = w div 2 ^ 4) \<and>
    (\<forall>n \<le> 20. target_matches (integer_bytes v 20) (integer_bytes w 20) 20 (Msb n)
      \<longleftrightarrow> v div 2 ^ (20 - n + 4) = w div 2 ^ (20 - n + 4))"
proof -
  have "length (integer_bytes v 20) = 3" "length (integer_bytes w 20) = 3" by (simp_all add: integer_bytes_eq)
  then have m: "target_matches (integer_bytes v 20) (integer_bytes w 20) 20 m \<longleftrightarrow>
      (case m of Equal \<Rightarrow> v = w | Msb n \<Rightarrow> v div 2 ^ (24 - min n 20) = w div 2 ^ (24 - min n 20)
       | _ \<Rightarrow> v div 2 ^ 4 = w div 2 ^ 4)" for m
    using assms by (subst target_matches_iff; cases m) (simp_all add: be_nat_integer_bytes)
  show ?thesis unfolding m by (auto simp: Suc_diff_le)
qed

lemma flow_label_match_witness:
  "target_matches (integer_bytes 0x12345 20) (integer_bytes 0x12346 20) 20 MatchMapping \<and>
   target_matches (integer_bytes 0x12345 20) (integer_bytes 0x12346 20) 20 (Msb 20) \<and>
   \<not> target_matches (integer_bytes 0x12345 20) (integer_bytes 0x12346 20) 20 Equal"
  using flow_label_match_ignores_low_bits [of "0x12345" "0x12346"] by simp

end
