(* ===== verification/Base64.thy ===== *)
theory Base64
  imports Instances
begin

text \<open>
  The base64 text of an \<open>ipatch-sequence\<close> (\<open>src/management/duplicate.rs\<close>): the encoder and the
  decoder of the code, byte by byte, and the proof that they are inverse to each other.
\<close>

subsection \<open>Encoding\<close>

text \<open>\<open>chunks n\<close> is the iterator of the same name: pieces of \<open>n\<close> elements, the last may be shorter.\<close>

function chunks :: "nat \<Rightarrow> 'a list \<Rightarrow> 'a list list" where
  "chunks n xs = (if xs = [] \<or> n = 0 then [] else take n xs # chunks n (drop n xs))"
  by pat_completeness auto
termination by (relation "measure (length \<circ> snd)") auto

declare chunks.simps [simp del]

definition base64_alphabet :: string where
  "base64_alphabet = ''ABCDEFGHIJKLMNOPQRSTUVWXYZabcdefghijklmnopqrstuvwxyz0123456789+/''"

definition sextet :: "byte \<Rightarrow> char" where
  "sextet b = base64_alphabet ! unat b"

definition byte_or_zero :: "bytes \<Rightarrow> nat \<Rightarrow> byte" where
  "byte_or_zero bs i = (if i < length bs then bs ! i else 0)"

definition encode_chunk :: "bytes \<Rightarrow> string" where
  "encode_chunk c =
     (let first = c ! 0; second = byte_or_zero c 1; third = byte_or_zero c 2 in
      [sextet (drop_bit 2 first),
       sextet (or (push_bit 4 (and first 3)) (drop_bit 4 second)),
       if 1 < length c then sextet (or (push_bit 2 (and second 15)) (drop_bit 6 third)) else CHR ''='',
       if 2 < length c then sextet (and third 63) else CHR ''=''])"

definition base64_encode :: "bytes \<Rightarrow> string" where
  "base64_encode bs = concat (map encode_chunk (chunks 3 bs))"

subsection \<open>Decoding\<close>

text \<open>The table of the code: the index of a character in the alphabet, and 255 for the others.\<close>

definition base64_table :: "char \<Rightarrow> byte" where
  "base64_table c =
     (case List.find (\<lambda>(i, d). d = c) (enumerate 0 base64_alphabet) of None \<Rightarrow> 255 | Some (i, _) \<Rightarrow> of_nat i)"

definition padded_value :: "char \<Rightarrow> byte" where
  "padded_value c = (if c = CHR ''='' then 0 else base64_table c)"

definition decode_chunk :: "string \<Rightarrow> inspection_error + bytes" where
  "decode_chunk s =
     (let a = base64_table (s ! 0); b = base64_table (s ! 1) in
      if a = 255 \<or> b = 255 then Inl (invalid_duplicate ''ipatch-sequence contains invalid base64'')
      else
        let c = padded_value (s ! 2); d = padded_value (s ! 3) in
        if c = 255 \<or> d = 255 \<or> s ! 2 = CHR ''='' \<and> s ! 3 \<noteq> CHR ''='' then
          Inl (invalid_duplicate ''ipatch-sequence contains invalid base64 padding'')
        else
          Inr ([or (push_bit 2 a) (drop_bit 4 b)]
            @ (if s ! 2 \<noteq> CHR ''='' then [or (push_bit 4 b) (drop_bit 2 c)] else [])
            @ (if s ! 3 \<noteq> CHR ''='' then [or (push_bit 6 c) d] else [])))"

definition base64_decode :: "string \<Rightarrow> inspection_error + bytes" where
  "base64_decode input =
     (if length input mod 4 \<noteq> 0 then Inl (invalid_duplicate ''ipatch-sequence is not canonical base64'')
      else attempt (try_all decode_chunk (chunks 4 input)) (\<lambda>parts.
        let output = concat parts in
        if base64_encode output \<noteq> input then
          Inl (invalid_duplicate ''ipatch-sequence is not canonical base64'')
        else Inr output))"

subsection \<open>Chunks\<close>

lemma chunks_Nil [simp]: "chunks n [] = []"
  by (simp add: chunks.simps)

lemma chunks_append: "0 < n \<Longrightarrow> length xs = n \<Longrightarrow> chunks n (xs @ ys) = xs # chunks n ys"
  by (subst chunks.simps) auto

lemma chunks_concat:
  "0 < n \<Longrightarrow> \<forall>xs \<in> set xss. length xs = n \<Longrightarrow> chunks n (concat xss) = xss"
  by (induction xss) (auto simp: chunks_append)

lemma length_concat_chunks: "\<forall>xs \<in> set xss. length xs = n \<Longrightarrow> length (concat xss) = n * length xss"
  by (induction xss) auto

lemma concat_chunks: "0 < n \<Longrightarrow> concat (chunks n xs) = xs"
proof (induction n xs rule: chunks.induct)
  case (1 n xs)
  then show ?case by (subst chunks.simps) auto
qed

lemma chunks_nonempty: "c \<in> set (chunks n xs) \<Longrightarrow> c \<noteq> [] \<and> length c \<le> n"
proof (induction n xs rule: chunks.induct)
  case (1 n xs)
  show ?case
  proof (cases "xs = [] \<or> n = 0")
    case False
    with 1 show ?thesis by (subst (asm) chunks.simps) auto
  qed (use 1 in \<open>auto simp: chunks.simps\<close>)
qed

subsection \<open>One group of characters\<close>

lemma table_alphabet: "list_all (\<lambda>i. base64_table (base64_alphabet ! i) = of_nat i) [0..<64]"
  by code_simp

lemma pad_not_in_alphabet: "CHR ''='' \<notin> set base64_alphabet"
  by code_simp

lemma length_alphabet: "length base64_alphabet = 64"
  by code_simp

lemma table_sextet [simp]: "unat b < 64 \<Longrightarrow> base64_table (sextet b) = b"
  using table_alphabet by (auto simp: list_all_iff sextet_def)

lemma sextet_not_pad [simp]: "unat b < 64 \<Longrightarrow> sextet b \<noteq> CHR ''=''"
proof
  assume b: "unat b < 64" and e: "sextet b = CHR ''=''"
  have "base64_alphabet ! unat b \<in> set base64_alphabet"
    using b by (intro nth_mem) (simp add: length_alphabet)
  with e pad_not_in_alphabet show False by (simp add: sextet_def)
qed

lemma byte_masks: "and (b :: byte) 3 = take_bit 2 b" "and b 15 = take_bit 4 b" "and b 63 = take_bit 6 b"
  by (simp_all add: take_bit_eq_mask mask_eq_exp_minus_1)

lemma sextet_bound: "unat (b :: byte) < 64 \<longleftrightarrow> take_bit 6 b = b"
proof -
  have "unat (take_bit 6 b) = unat b mod 64" by (simp add: take_bit_eq_mod unat_mod)
  then show ?thesis by (metis mod_less mod_less_divisor unsigned_word_eqI zero_less_numeral)
qed

text \<open>The four sextets of three bytes, and the bytes read back from them.\<close>

lemma sextet_parts [simp]:
  "unat (drop_bit 2 (a :: byte)) < 64"
  "unat (or (push_bit 4 (take_bit 2 a)) (drop_bit 4 b) :: byte) < 64"
  "unat (or (push_bit 2 (take_bit 4 b)) (drop_bit 6 c) :: byte) < 64"
  "unat (take_bit 6 (c :: byte)) < 64"
  unfolding sextet_bound by (intro bit_eqI, auto simp: bit_simps dest: bit_imp_le_length)+

lemma join_bits: "or (push_bit k (drop_bit k b)) (take_bit k b) = (b :: byte)"
  by (intro bit_eqI) (auto simp: bit_simps not_le dest: bit_imp_le_length)

lemma byte_of_sextets [simp]:
  "or (push_bit 2 (drop_bit 2 a)) (drop_bit 4 (or (push_bit 4 (take_bit 2 a)) (drop_bit 4 b))) = (a :: byte)"
  "or (push_bit 4 (or (push_bit 4 (take_bit 2 a)) (drop_bit 4 b))) (drop_bit 2 (or (push_bit 2 (take_bit 4 b)) (drop_bit 6 c))) = (b :: byte)"
  "or (push_bit 6 (or (push_bit 2 (take_bit 4 b)) (drop_bit 6 c))) (take_bit 6 c) = (c :: byte)"
proof -
  have "drop_bit 4 (or (push_bit 4 (take_bit 2 a)) (drop_bit 4 b)) = take_bit 2 a"
    and "push_bit 4 (or (push_bit 4 (take_bit 2 a)) (drop_bit 4 b)) = push_bit 4 (drop_bit 4 b)"
    and "drop_bit 2 (or (push_bit 2 (take_bit 4 b)) (drop_bit 6 c)) = take_bit 4 b"
    and "push_bit 6 (or (push_bit 2 (take_bit 4 b)) (drop_bit 6 c)) = push_bit 6 (drop_bit 6 c)"
    by (intro bit_eqI, auto simp: bit_simps dest: bit_imp_le_length)+
  then show
    "or (push_bit 2 (drop_bit 2 a)) (drop_bit 4 (or (push_bit 4 (take_bit 2 a)) (drop_bit 4 b))) = (a :: byte)"
    "or (push_bit 4 (or (push_bit 4 (take_bit 2 a)) (drop_bit 4 b))) (drop_bit 2 (or (push_bit 2 (take_bit 4 b)) (drop_bit 6 c))) = (b :: byte)"
    "or (push_bit 6 (or (push_bit 2 (take_bit 4 b)) (drop_bit 6 c))) (take_bit 6 c) = (c :: byte)"
    by (simp_all only: join_bits)
qed

lemma not_255: "unat (b :: byte) < 64 \<Longrightarrow> b \<noteq> 255"
  by auto

lemma decode_encode_chunk:
  assumes "c \<noteq> []" and "length c \<le> 3"
  shows "decode_chunk (encode_chunk c) = Inr c"
proof -
  note eval = encode_chunk_def decode_chunk_def padded_value_def byte_or_zero_def byte_masks Let_def
  have tail: "or (push_bit 4 (take_bit 2 a)) (drop_bit 4 0) = push_bit 4 (take_bit 2 a)" for a :: byte by simp
  consider a where "c = [a]" | a b where "c = [a, b]" | a b d where "c = [a, b, d]"
    using assms by (cases c; cases "tl c"; cases "tl (tl c)") auto
  then show ?thesis
  proof cases
    case 1
    then show ?thesis
      using byte_of_sextets(1) [of a 0] sextet_parts(2) [of a 0] by (simp add: eval not_255)
  next
    case 2
    then show ?thesis
      using byte_of_sextets(1) [of a b] byte_of_sextets(2) [of a b 0] sextet_parts(3) [of b 0]
      by (simp add: eval not_255)
  next
    case 3
    then show ?thesis
      using byte_of_sextets(1) [of a b] byte_of_sextets(2) [of a b d] byte_of_sextets(3) [where b = b and c = d]
      by (simp add: eval not_255)
  qed
qed

lemma decode_encode_base64: "base64_decode (base64_encode bs) = Inr bs"
proof -
  have len: "\<forall>s \<in> set (map encode_chunk (chunks 3 bs)). length s = 4"
    by (simp add: encode_chunk_def Let_def)
  have "length (base64_encode bs) mod 4 = 0"
    using length_concat_chunks [OF len] by (simp add: base64_encode_def)
  moreover have "chunks 4 (base64_encode bs) = map encode_chunk (chunks 3 bs)"
    unfolding base64_encode_def by (rule chunks_concat [OF _ len]) simp
  moreover have "try_all decode_chunk (map encode_chunk cs) = Inr cs"
    if "\<forall>c \<in> set cs. c \<noteq> [] \<and> length c \<le> 3" for cs
    using that by (induction cs) (simp_all add: decode_encode_chunk)
  moreover have "\<forall>c \<in> set (chunks 3 bs). c \<noteq> [] \<and> length c \<le> 3"
    using chunks_nonempty by blast
  ultimately show ?thesis by (simp add: base64_decode_def concat_chunks)
qed

lemma encode_decode_base64: "base64_decode s = Inr bs \<Longrightarrow> base64_encode bs = s"
  by (auto simp: base64_decode_def Let_def result_simps split: if_splits)

interpretation base64: canonical_codec base64_encode base64_decode "\<lambda>_. True"
  by unfold_locales (simp_all add: decode_encode_base64 encode_decode_base64)

subsection \<open>Properties\<close>

text \<open>C32: Decoding is the exact inverse of encoding. A text is accepted with some bytes exactly
  when it is the text the encoder writes for them, so no second spelling of an
  \<open>ipatch-sequence\<close> is ever accepted.\<close>

theorem base64_exact: "base64_decode text = Inr bs \<longleftrightarrow> base64_encode bs = text"
  by (simp add: base64.decode_iff)

end
