(* ===== verification/Duplicate.thy ===== *)
theory Duplicate
  imports Flows Base64
begin

text \<open>
  The duplicate-rule operation (\<open>src/management/duplicate.rs\<close>): the datastore tree it must
  produce, the sequence of override maps, the modeled RPC payload, and their strict decoders.
  Both ends run \<open>expected_duplicate_tree\<close> on the decoded operation.
\<close>

subsection \<open>Rules of a tree\<close>

text \<open>A rule object of the tree that carries the selector in its two key leaves.\<close>

definition tree_rule_is :: "string \<Rightarrow> string \<Rightarrow> rule_selector \<Rightarrow> json \<Rightarrow> bool" where
  "tree_rule_is value_key length_key sel r \<longleftrightarrow>
     get_u64 r value_key = Some (rs_value sel) \<and> get_u64 r length_key = Some (rs_bits sel)"

definition tree_rules :: "string \<Rightarrow> string \<Rightarrow> json \<Rightarrow> json list option" where
  "tree_rules root_key list_key tree =
     Option.bind (Option.bind (get_key tree root_key) as_object) (\<lambda>root.
     Option.bind (map_of root list_key) as_array)"

definition find_tree_rule :: "json \<Rightarrow> coreconf_model \<Rightarrow> rule_selector \<Rightarrow> inspection_error + json option" where
  "find_tree_rule tree model sel =
     attempt (resolve_sids model) (\<lambda>s.
     attempt (rule_key model (sid_root s)) (\<lambda>root_key.
     attempt (rule_key model (sid_rule s)) (\<lambda>list_key.
     attempt (rule_key model (sid_rule_id_value s)) (\<lambda>value_key.
     attempt (rule_key model (sid_rule_id_length s)) (\<lambda>length_key.
       Inr (Option.bind (tree_rules root_key list_key tree) (List.find (tree_rule_is value_key length_key sel))))))))"

definition set_tree_rule_key :: "json \<Rightarrow> coreconf_model \<Rightarrow> int \<Rightarrow> json \<Rightarrow> inspection_error + json" where
  "set_tree_rule_key r model sid v =
     attempt (rule_key model sid) (\<lambda>key.
     attempt (ok_or (invalid_duplicate ''source rule is not an object'') (as_object r)) (\<lambda>es.
       Inr (JObject (obj_insert key v es))))"

text \<open>Assignment through \<open>get_mut\<close>: the value of the first pair with the key is replaced.\<close>

fun replace_value :: "string \<Rightarrow> json \<Rightarrow> (string \<times> json) list \<Rightarrow> (string \<times> json) list" where
  "replace_value k v [] = []"
| "replace_value k v ((k', v') # es) = (if k' = k then (k, v) # es else (k', v') # replace_value k v es)"

definition set_tree_rules :: "string \<Rightarrow> string \<Rightarrow> json list \<Rightarrow> json \<Rightarrow> json" where
  "set_tree_rules root_key list_key rules tree =
     (case tree of
        JObject es \<Rightarrow>
          (case map_of es root_key of
             Some (JObject root) \<Rightarrow>
               JObject (replace_value root_key (JObject (replace_value list_key (JArray rules) root)) es)
           | _ \<Rightarrow> tree)
      | _ \<Rightarrow> tree)"

definition unwrap_or_zero :: "nat option \<Rightarrow> nat" where
  "unwrap_or_zero n = (case n of None \<Rightarrow> 0 | Some k \<Rightarrow> k)"

text \<open>The copied rule joins the list, without the rules that already have its RuleID.\<close>

definition insert_tree_rule :: "string \<Rightarrow> string \<Rightarrow> rule_selector \<Rightarrow> json \<Rightarrow> json list \<Rightarrow> json list" where
  "insert_tree_rule value_key length_key destination r rules =
     sort_key (\<lambda>e. (unwrap_or_zero (get_u64 e length_key), unwrap_or_zero (get_u64 e value_key)))
       (filter (\<lambda>e. \<not> tree_rule_is value_key length_key destination e) rules @ [r])"

subsection \<open>The expected tree\<close>

fun show_leaf :: "duplicate_leaf \<Rightarrow> string" where
  "show_leaf LeafTarget = ''Target''"
| "show_leaf LeafMatchingOperator = ''MatchingOperator''"
| "show_leaf LeafCda = ''Cda''"

text \<open>One turn of the loop over the overrides: the leaves seen so far and the datastore.\<close>

type_synonym override_state = "(nat \<times> duplicate_leaf) list \<times> datastore"

definition apply_override ::
  "'x flow_ext_scheme \<Rightarrow> rule_selector \<Rightarrow> model_sids \<Rightarrow> override_state \<Rightarrow> path_instance \<Rightarrow> inspection_error + override_state" where
  "apply_override x destination s = (\<lambda>(seen, ds) i.
     attempt (duplicate_leaf_from_path (in_path i) destination s) (\<lambda>(entry, leaf).
     if (entry, leaf) \<in> set seen then
       Inl (invalid_duplicate (''duplicate override for entry '' @ show_nat entry @ '' leaf '' @ show_leaf leaf))
     else
     attempt (ok_or (invalid_duplicate ''override values cannot delete leaves'') (in_value i)) (\<lambda>v.
     attempt (ok_or (invalid_duplicate ''override path has no leaf SID'') (absolute_sid x (in_path i))) (\<lambda>sid.
     attempt (map_err invalid_duplicate (create_xpath x ds sid (path_keys (in_path i)))) (\<lambda>xpath.
     attempt (map_err invalid_duplicate (set_path x ds xpath v)) (\<lambda>ds'.
       Inr (seen @ [(entry, leaf)], ds')))))))"

definition check_duplicate_rules ::
  "context_snapshot \<Rightarrow> duplicate_request \<Rightarrow> string \<Rightarrow> inspection_error + rule" where
  "check_duplicate_rules snapshot r missing =
     attempt (ok_or (invalid_duplicate missing)
       (List.find (\<lambda>e. rule_id_of e = selector_id (dr_source r)) (cd_rules (sn_data snapshot)))) (\<lambda>source.
     let prot = cd_protected (sn_data snapshot) in
     if nature source = NatureManagement \<or> protected_contains prot (selector_id (dr_source r)) then
       Inl (invalid_duplicate ''source RuleID is protected or management'')
     else if protected_contains prot (selector_id (dr_destination r)) then
       Inl (invalid_duplicate ''destination RuleID is protected'')
     else Inr source)"

definition copied_rule ::
  "coreconf_model \<Rightarrow> model_sids \<Rightarrow> rule_selector \<Rightarrow> json \<Rightarrow> inspection_error + json" where
  "copied_rule model s destination source_rule =
     attempt (set_tree_rule_key source_rule model (sid_rule_id_value s) (json_nat (rs_value destination))) (\<lambda>r.
       set_tree_rule_key r model (sid_rule_id_length s) (json_nat (rs_bits destination)))"

text \<open>\<open>duplicated_tree\<close> is the candidate before the overrides are applied to it.\<close>

definition duplicated_tree ::
  "coreconf_model \<Rightarrow> model_sids \<Rightarrow> json \<Rightarrow> rule_selector \<Rightarrow> json \<Rightarrow> inspection_error + json" where
  "duplicated_tree model s tree destination source_rule =
     attempt (rule_key model (sid_root s)) (\<lambda>root_key.
     attempt (rule_key model (sid_rule s)) (\<lambda>list_key.
     attempt (rule_key model (sid_rule_id_value s)) (\<lambda>value_key.
     attempt (rule_key model (sid_rule_id_length s)) (\<lambda>length_key.
     attempt (copied_rule model s destination source_rule) (\<lambda>r.
     attempt (ok_or (invalid_duplicate ''active tree is missing the rule list'')
       (tree_rules root_key list_key tree)) (\<lambda>rules.
       Inr (set_tree_rules root_key list_key (insert_tree_rule value_key length_key destination r rules) tree)))))))"

definition expected_duplicate_tree ::
  "'x flow_ext_scheme \<Rightarrow> coreconf_model \<Rightarrow> context_snapshot \<Rightarrow> duplicate_request \<Rightarrow> path_instance list
    \<Rightarrow> inspection_error + json" where
  "expected_duplicate_tree x model snapshot r instances =
     attempt (validate_duplicate_model_shape model) (\<lambda>s.
     let tree = cd_tree (sn_data snapshot) in
     attempt (find_tree_rule tree model (dr_source r)) (\<lambda>found.
     attempt (ok_or (MissingRule (rs_value (dr_source r)) (rs_bits (dr_source r))) found) (\<lambda>source_rule.
     attempt (check_duplicate_rules snapshot r ''source rule is absent from the typed snapshot'') (\<lambda>_.
     if dr_source r = dr_destination r then
       Inl (invalid_duplicate ''source and destination RuleIDs must differ'')
     else
     attempt (duplicated_tree model s tree (dr_destination r) source_rule) (\<lambda>candidate.
     attempt (map_err (\<lambda>e. invalid_duplicate (''candidate tree is invalid: '' @ e))
       (datastore_with_data x model candidate)) (\<lambda>ds.
     attempt (fold_err (apply_override x (dr_destination r) s) ([], ds) instances) (\<lambda>(seen, ds').
       Inr (get_all x ds'))))))))"

subsection \<open>The override sequence\<close>

definition duplicate_identity_sid :: "coreconf_model \<Rightarrow> string \<Rightarrow> bool \<Rightarrow> inspection_error + int" where
  "duplicate_identity_sid model input matching =
     (let allowed =
        (if matching then
           [''equal'', ''ignore'', ''match-mapping'', ''mo-equal'', ''mo-ignore'', ''mo-match-mapping'']
         else
           [''not-sent'', ''value-sent'', ''mapping-sent'', ''lsb'', ''compute'', ''deviid'', ''appiid'',
            ''cda-not-sent'', ''cda-value-sent'', ''cda-mapping-sent'', ''cda-lsb'', ''cda-compute'',
            ''cda-deviid'', ''cda-appiid''])
      in if input \<notin> set allowed then
        Inl (invalid_duplicate (''invalid '' @ (if matching then ''matching operator'' else ''CDA'')
          @ '' identity '' @ quoted input))
      else
        let canonical =
          (if matching \<and> take 3 input \<noteq> ''mo-'' then ''mo-'' @ input
           else if \<not> matching \<and> take 4 input \<noteq> ''cda-'' then ''cda-'' @ input
           else input)
        in map_err invalid_duplicate (identity_sid_for model (JString canonical)))"

text \<open>
  The length text comes from \<open>length_name\<close>, which never starts with a sign, so the general
  parser of an unsigned integer and \<open>parse_unsigned\<close> agree on it.
\<close>

definition target_override ::
  "rule \<Rightarrow> rule_entry \<Rightarrow> nat \<Rightarrow> string \<Rightarrow> inspection_error + bytes" where
  "target_override source entry i target =
     attempt (ok_or (invalid_duplicate ''target override requires one binary source target'')
       (Option.bind (List.find (\<lambda>f. fr_entry_index f = i) (rule_fields source)) (\<lambda>f.
          case fr_target f of TargetBytes bs \<Rightarrow> Some bs | _ \<Rightarrow> None))) (\<lambda>current.
     attempt (ok_or (invalid_duplicate ''target override requires a fixed numeric field length'')
       (parse_unsigned u64_bound (re_length entry))) (\<lambda>bits.
     attempt (numeric_target_value target current (json_nat bits)) binary_bytes))"

definition leaf_field ::
  "'x flow_ext_scheme \<Rightarrow> rule_selector \<Rightarrow> nat \<Rightarrow> model_sids \<Rightarrow> duplicate_leaf \<Rightarrow> cbor
    \<Rightarrow> inspection_error + instance_path \<times> cbor" where
  "leaf_field x destination i s leaf v =
     attempt (duplicate_override_path x destination i leaf s) (\<lambda>p. Inr (p, v))"

text \<open>The leaves of one override, in the order the code pushes them.\<close>

definition override_fields ::
  "'x flow_ext_scheme \<Rightarrow> coreconf_model \<Rightarrow> model_sids \<Rightarrow> rule \<Rightarrow> rule_selector \<Rightarrow> rule_entry \<Rightarrow> duplicate_override
    \<Rightarrow> inspection_error + (instance_path \<times> cbor) list" where
  "override_fields x model s source destination entry o' =
     (let i = do_entry_index o' in
      attempt (case do_target_value o' of None \<Rightarrow> Inr []
         | Some target \<Rightarrow>
             attempt (target_override source entry i target) (\<lambda>bs.
             attempt (leaf_field x destination i s LeafTarget (CBytes bs)) (\<lambda>f. Inr [f]))) (\<lambda>targets.
      attempt (case do_matching_operator o' of None \<Rightarrow> Inr []
         | Some m \<Rightarrow>
             attempt (duplicate_identity_sid model m True) (\<lambda>sid.
             attempt (leaf_field x destination i s LeafMatchingOperator (CInteger sid)) (\<lambda>f. Inr [f]))) (\<lambda>mos.
      attempt (case do_cda o' of None \<Rightarrow> Inr []
         | Some c \<Rightarrow>
             attempt (duplicate_identity_sid model c False) (\<lambda>sid.
             attempt (leaf_field x destination i s LeafCda (CInteger sid)) (\<lambda>f. Inr [f]))) (\<lambda>cdas.
        Inr (targets @ mos @ cdas)))))"

definition encode_override ::
  "'x flow_ext_scheme \<Rightarrow> coreconf_model \<Rightarrow> model_sids \<Rightarrow> rule \<Rightarrow> rule_selector \<Rightarrow> duplicate_override
    \<Rightarrow> inspection_error + bytes" where
  "encode_override x model s source destination o' =
     attempt (ok_or (invalid_duplicate (''unknown entry-index '' @ show_nat (do_entry_index o')))
       (List.find (\<lambda>e. re_entry_index e = do_entry_index o') (rd_entries (detail_from_rule (nature_as_str x) source)))) (\<lambda>entry.
     if no_leaves o' then
       Inl (invalid_duplicate (''entry '' @ show_nat (do_entry_index o') @ '' has no override leaves''))
     else
     attempt (override_fields x model s source destination entry o') (\<lambda>fields.
     attempt (try_all (\<lambda>(path, v).
         attempt (map_err invalid_duplicate (sid_json_to_cbor model (path_to_value x path) 0)) (\<lambda>key. Inr (key, v)))
         fields) (\<lambda>entries.
       map_err (\<lambda>e. invalid_duplicate (''override encoding failed: '' @ e)) (into_writer x (CMap entries)))))"

definition duplicate_inner_payload ::
  "'x flow_ext_scheme \<Rightarrow> coreconf_model \<Rightarrow> context_snapshot \<Rightarrow> duplicate_request \<Rightarrow> inspection_error + bytes" where
  "duplicate_inner_payload x model snapshot r =
     attempt (validate_duplicate_model_shape model) (\<lambda>s.
     attempt (find_tree_rule (cd_tree (sn_data snapshot)) model (dr_source r)) (\<lambda>found.
     attempt (ok_or (MissingRule (rs_value (dr_source r)) (rs_bits (dr_source r))) found) (\<lambda>_.
     attempt (check_duplicate_rules snapshot r ''source rule is absent'') (\<lambda>source.
     fold_err (\<lambda>output o'.
       attempt (encode_override x model s source (dr_destination r) o') (\<lambda>bs. Inr (output @ bs)))
       [] (dr_overrides r)))))"

subsection \<open>The RPC payload\<close>

definition sid_delta :: "int \<Rightarrow> int \<Rightarrow> string \<Rightarrow> inspection_error + int" where
  "sid_delta child parent name =
     ok_or (invalid_duplicate (name @ '' SID delta overflows'')) (i64_checked_sub child parent)"

definition cbor_nat :: "nat \<Rightarrow> cbor" where
  "cbor_nat n = CInteger (int n)"

definition duplicate_rpc_value ::
  "model_sids \<Rightarrow> duplicate_request \<Rightarrow> bytes \<Rightarrow> inspection_error + cbor" where
  "duplicate_rpc_value s r inner =
     (if u32_bound \<le> rs_value (dr_source r) \<or> u32_bound \<le> rs_value (dr_destination r) then
        Inl (invalid_duplicate ''duplicate-rule RuleID values must fit the modeled uint32 selectors'')
      else
      attempt (sid_delta (sid_duplicate_input s) (sid_duplicate_rule s) ''input'') (\<lambda>input_key.
      attempt (sid_delta (sid_duplicate_from s) (sid_duplicate_input s) ''from'') (\<lambda>from_key.
      attempt (sid_delta (sid_duplicate_from_length s) (sid_duplicate_from s) ''from/rule-id-length'') (\<lambda>from_length_key.
      attempt (sid_delta (sid_duplicate_from_value s) (sid_duplicate_from s) ''from/rule-id-value'') (\<lambda>from_value_key.
      attempt (sid_delta (sid_duplicate_ipatch s) (sid_duplicate_input s) ''ipatch-sequence'') (\<lambda>ipatch_key.
      attempt (sid_delta (sid_duplicate_to s) (sid_duplicate_input s) ''to'') (\<lambda>to_key.
      attempt (sid_delta (sid_duplicate_to_length s) (sid_duplicate_to s) ''to/rule-id-length'') (\<lambda>to_length_key.
      attempt (sid_delta (sid_duplicate_to_value s) (sid_duplicate_to s) ''to/rule-id-value'') (\<lambda>to_value_key.
        let from_map = CMap [(CInteger from_length_key, cbor_nat (rs_bits (dr_source r))),
                             (CInteger from_value_key, cbor_nat (rs_value (dr_source r)))];
            to_map = CMap [(CInteger to_length_key, cbor_nat (rs_bits (dr_destination r))),
                           (CInteger to_value_key, cbor_nat (rs_value (dr_destination r)))];
            input_entries =
              (CInteger from_key, from_map)
                # (if inner = [] then [] else [(CInteger ipatch_key, CBytes inner)])
                @ [(CInteger to_key, to_map)]
        in Inr (CMap [(CInteger (sid_duplicate_rule s), CMap [(CInteger input_key, CMap input_entries)])]))))))))))"

definition encode_duplicate_rpc_payload ::
  "'x flow_ext_scheme \<Rightarrow> coreconf_model \<Rightarrow> duplicate_request \<Rightarrow> bytes \<Rightarrow> inspection_error + bytes" where
  "encode_duplicate_rpc_payload x model r inner =
     attempt (validate_duplicate_model_shape model) (\<lambda>s.
     attempt (duplicate_rpc_value s r inner) (\<lambda>root.
       map_err (\<lambda>e. invalid_duplicate (''modeled RPC encoding failed: '' @ e)) (into_writer x root)))"

subsection \<open>Strict decoding\<close>

text \<open>The body of the check is that of the strict loader, with an error of its own.\<close>

definition reject_duplicate_cbor_keys :: "cbor \<Rightarrow> inspection_error + unit" where
  "reject_duplicate_cbor_keys v =
     map_err (\<lambda>_. invalid_duplicate ''duplicate CBOR map key'') (reject_duplicate_map_keys v)"

fun is_cbor_map :: "cbor \<Rightarrow> bool" where
  "is_cbor_map (CMap _) = True"
| "is_cbor_map _ = False"

definition strict_one_cbor_map :: "'x cbor_ext_scheme \<Rightarrow> bytes \<Rightarrow> inspection_error + cbor" where
  "strict_one_cbor_map x bs =
     attempt (map_err (\<lambda>e. invalid_duplicate (''invalid RPC CBOR: '' @ e)) (from_reader x bs)) (\<lambda>(v, position).
     if position \<noteq> length bs then Inl (invalid_duplicate ''trailing values after RPC instance'')
     else if \<not> is_cbor_map v then Inl (invalid_duplicate ''RPC payload root must be a map'')
     else
     attempt (map_err (\<lambda>e. invalid_duplicate (''RPC canonical encoding failed: '' @ e)) (into_writer x v)) (\<lambda>canonical.
     if canonical \<noteq> bs then Inl (invalid_duplicate ''noncanonical RPC CBOR'') else Inr v))"

text \<open>
  The leaves of one member, collected in order; the code keeps the pairs in one set and the entries
  in another.
\<close>

definition note_leaf ::
  "rule_selector \<Rightarrow> model_sids \<Rightarrow> (nat \<times> duplicate_leaf) list \<Rightarrow> path_instance
    \<Rightarrow> inspection_error + (nat \<times> duplicate_leaf) list" where
  "note_leaf destination s seen i =
     attempt (duplicate_leaf_from_path (in_path i) destination s) (\<lambda>l.
       if l \<in> set seen then Inl (invalid_duplicate ''duplicate override leaf'') else Inr (seen @ [l]))"

type_synonym inner_state = "nat list \<times> path_instance list"

definition decode_member ::
  "'x flow_ext_scheme \<Rightarrow> coreconf_model \<Rightarrow> rule_selector \<Rightarrow> model_sids \<Rightarrow> cbor \<Rightarrow> bytes \<Rightarrow> inner_state
    \<Rightarrow> inspection_error + inner_state" where
  "decode_member x model destination s v member = (\<lambda>(groups, instances).
     (case v of
        CMap entries \<Rightarrow>
          if entries = [] \<or> 3 < length entries then
            Inl (invalid_duplicate ''each override map must contain one to three leaves'')
          else
          attempt (reject_duplicate_cbor_keys v) (\<lambda>_.
          attempt (map_err invalid_duplicate (into_writer x v)) (\<lambda>canonical.
          if canonical \<noteq> member then Inl (invalid_duplicate ''noncanonical ipatch-sequence map'')
          else
          attempt (map_err (\<lambda>e. invalid_duplicate (''invalid override value: '' @ e))
            (decode_instances_identifiers x model member)) (\<lambda>decoded.
          if length decoded \<noteq> length entries then
            Inl (invalid_duplicate ''override map did not decode completely'')
          else
          attempt (fold_err (note_leaf destination s) [] decoded) (\<lambda>seen.
          let group = map fst seen in
          if list_ex (\<lambda>e. e \<in> set groups) group then
            Inl (invalid_duplicate ''duplicate entry-index override group'')
          else Inr (groups @ group, instances @ decoded)))))
      | _ \<Rightarrow> Inl (invalid_duplicate ''ipatch-sequence members must be maps'')))"

text \<open>
  The loop over the cursor. Every turn reads at least one byte, so as many turns as there are
  bytes are enough (\<open>decode_inner_fuel\<close>); running out of turns stands for a reader that stops
  advancing.
\<close>

fun decode_inner_loop ::
  "'x flow_ext_scheme \<Rightarrow> coreconf_model \<Rightarrow> rule_selector \<Rightarrow> model_sids \<Rightarrow> nat \<Rightarrow> inner_state \<Rightarrow> bytes
    \<Rightarrow> inspection_error + path_instance list" where
  "decode_inner_loop x model destination s fuel st rest =
     (if rest = [] then Inr (snd st)
      else case fuel of
        0 \<Rightarrow> Inl (invalid_duplicate ''ipatch-sequence is too large'')
      | Suc n \<Rightarrow>
          attempt (map_err (\<lambda>e. invalid_duplicate (''invalid ipatch-sequence CBOR: '' @ e)) (from_reader x rest)) (\<lambda>(v, k).
          attempt (decode_member x model destination s v (take k rest) st) (\<lambda>st'.
            decode_inner_loop x model destination s n st' (drop k rest))))"

declare decode_inner_loop.simps [simp del]

definition decode_duplicate_inner ::
  "'x flow_ext_scheme \<Rightarrow> coreconf_model \<Rightarrow> bytes \<Rightarrow> rule_selector \<Rightarrow> model_sids \<Rightarrow> inspection_error + path_instance list" where
  "decode_duplicate_inner x model bs destination s =
     decode_inner_loop x model destination s (length bs) ([], []) bs"

record duplicate_operation =
  op_request :: duplicate_request
  op_instances :: "path_instance list"
  op_inner_payload :: bytes

definition rpc_selector :: "(string \<times> json) list \<Rightarrow> string \<Rightarrow> inspection_error + rule_selector" where
  "rpc_selector object label =
     (if length object \<noteq> 2 \<or> map_of object ''rule-id-value'' = None \<or> map_of object ''rule-id-length'' = None then
        Inl (invalid_duplicate (''RPC '' @ label @ '' selector has unsupported fields''))
      else
      attempt (ok_or (invalid_duplicate (''RPC '' @ label @ '' value is invalid''))
        (Option.bind (map_of object ''rule-id-value'') as_u64)) (\<lambda>v.
      attempt (ok_or (invalid_duplicate (''RPC '' @ label @ '' length is invalid''))
        (Option.bind (map_of object ''rule-id-length'') (bounded_u64 usize_bound))) (\<lambda>bits.
        map_err (\<lambda>e. invalid_duplicate (show_inspection_error e)) (selector_new v bits))))"

definition rpc_input :: "model_sids \<Rightarrow> path_instance list \<Rightarrow> inspection_error + (string \<times> json) list" where
  "rpc_input s instances =
     (case instances of
        [i] \<Rightarrow>
          if in_path i \<noteq> [SidDelta (sid_duplicate_rule s)] then
            Inl (invalid_duplicate ''RPC payload must contain exactly one duplicate-rule instance'')
          else
          attempt (ok_or (invalid_duplicate ''RPC input cannot be deleted'') (in_value i)) (\<lambda>v.
          attempt (ok_or (invalid_duplicate ''RPC operation value is not an object'') (as_object v)) (\<lambda>operation.
          if length operation \<noteq> 1 \<or> map_of operation ''input'' = None then
            Inl (invalid_duplicate ''RPC operation must contain exactly the input container'')
          else
          attempt (ok_or (invalid_duplicate ''RPC input container is missing'')
            (Option.bind (map_of operation ''input'') as_object)) (\<lambda>input.
          if list_ex (\<lambda>(k, _). k \<notin> {''from'', ''to'', ''ipatch-sequence''}) input then
            Inl (invalid_duplicate ''RPC input contains an unknown field'')
          else Inr input)))
      | _ \<Rightarrow> Inl (invalid_duplicate ''RPC payload must contain exactly one duplicate-rule instance''))"

definition inner_bytes :: "json option \<Rightarrow> inspection_error + bytes" where
  "inner_bytes v =
     (case v of
        None \<Rightarrow> Inr []
      | Some (JString encoded) \<Rightarrow> base64_decode encoded
      | Some w \<Rightarrow> binary_bytes w)"

definition decode_duplicate_operation ::
  "'x flow_ext_scheme \<Rightarrow> coreconf_model \<Rightarrow> bytes \<Rightarrow> inspection_error + duplicate_operation" where
  "decode_duplicate_operation x model payload =
     attempt (validate_duplicate_model_shape model) (\<lambda>s.
     attempt (strict_one_cbor_map x payload) (\<lambda>outer.
     attempt (reject_duplicate_cbor_keys outer) (\<lambda>_.
     attempt (map_err (\<lambda>e. invalid_duplicate (''RPC payload decode failed: '' @ e))
       (decode_instances_identifiers x model payload)) (\<lambda>instances.
     attempt (rpc_input s instances) (\<lambda>input.
     attempt (ok_or (invalid_duplicate ''RPC source selector is missing'')
       (Option.bind (map_of input ''from'') as_object)) (\<lambda>from_object.
     attempt (ok_or (invalid_duplicate ''RPC destination selector is missing'')
       (Option.bind (map_of input ''to'') as_object)) (\<lambda>to_object.
     attempt (rpc_selector from_object ''source'') (\<lambda>source.
     attempt (rpc_selector to_object ''destination'') (\<lambda>destination.
     attempt (inner_bytes (map_of input ''ipatch-sequence'')) (\<lambda>inner.
     attempt (decode_duplicate_inner x model inner destination s) (\<lambda>instances.
     attempt (try_all (\<lambda>i. duplicate_leaf_from_path (in_path i) destination s) instances) (\<lambda>leaves.
       Inr \<lparr>op_request = \<lparr>dr_source = source, dr_destination = destination,
              dr_overrides = map empty_override (remdups (sort (map fst leaves)))\<rparr>,
            op_instances = instances, op_inner_payload = inner\<rparr>))))))))))))"

subsection \<open>The cost of an RPC\<close>

record rpc_cost =
  rc_source :: rule_selector
  rc_destination :: rule_selector
  rc_payload_bytes :: nat
  rc_fixed_bytes :: nat
  rc_variable_framing_bytes :: nat
  rc_target_value_bytes :: nat
  rc_overrides :: "duplicate_override list"

definition json_value_label :: "'x management_ext_scheme \<Rightarrow> json \<Rightarrow> string" where
  "json_value_label x v = (case v of JString s \<Rightarrow> s | _ \<Rightarrow> json_text x v)"

definition target_bytes_label :: "bytes \<Rightarrow> string" where
  "target_bytes_label bs =
     (if length bs \<le> 8 then
        show_nat (foldl (\<lambda>v b. min (u64_bound - 1) (min (u64_bound - 1) (v * 256) + unat b)) 0 bs)
      else show_nat (length bs) @ '' B'')"

text \<open>\<open>entry(i).or_insert_with(..)\<close> on the map of descriptions, in order of the entry index.\<close>

fun describe_override ::
  "nat \<Rightarrow> (duplicate_override \<Rightarrow> duplicate_override) \<Rightarrow> duplicate_override list \<Rightarrow> duplicate_override list" where
  "describe_override i f [] = [f (empty_override i)]"
| "describe_override i f (d # ds) =
     (if do_entry_index d = i then f d # ds
      else if i < do_entry_index d then f (empty_override i) # d # ds
      else d # describe_override i f ds)"

type_synonym cost_state = "nat \<times> duplicate_override list \<times> nat"

definition cost_leaf ::
  "'x management_ext_scheme \<Rightarrow> rule_selector \<Rightarrow> model_sids \<Rightarrow> path_instance list \<Rightarrow> cost_state \<Rightarrow> cbor
    \<Rightarrow> inspection_error + cost_state" where
  "cost_leaf x destination s instances = (\<lambda>(target_bytes, ds, index) raw.
     attempt (ok_or (invalid_duplicate ''override framing and decoded instances disagree'')
       (if index < length instances then Some (instances ! index) else None)) (\<lambda>i.
     attempt (duplicate_leaf_from_path (in_path i) destination s) (\<lambda>(entry, leaf).
     case leaf of
       LeafTarget \<Rightarrow>
         (case raw of
            CBytes bs \<Rightarrow>
              if usize_bound \<le> target_bytes + length bs then
                Inl (invalid_duplicate ''target-value byte cost overflow'')
              else Inr (target_bytes + length bs,
                describe_override entry (\<lambda>d. d\<lparr>do_target_value := Some (target_bytes_label bs)\<rparr>) ds, index + 1)
          | _ \<Rightarrow> Inl (invalid_duplicate ''target override is not a CBOR byte string''))
     | LeafMatchingOperator \<Rightarrow>
         Inr (target_bytes, describe_override entry
           (\<lambda>d. d\<lparr>do_matching_operator := map_option (json_value_label x) (in_value i)\<rparr>) ds, index + 1)
     | LeafCda \<Rightarrow>
         Inr (target_bytes, describe_override entry
           (\<lambda>d. d\<lparr>do_cda := map_option (json_value_label x) (in_value i)\<rparr>) ds, index + 1))))"

fun cost_loop ::
  "'x management_ext_scheme \<Rightarrow> rule_selector \<Rightarrow> model_sids \<Rightarrow> path_instance list \<Rightarrow> nat \<Rightarrow> cost_state \<Rightarrow> bytes
    \<Rightarrow> inspection_error + cost_state" where
  "cost_loop x destination s instances fuel st rest =
     (if rest = [] then Inr st
      else case fuel of
        0 \<Rightarrow> Inl (invalid_duplicate ''ipatch-sequence is too large'')
      | Suc n \<Rightarrow>
          attempt (map_err (\<lambda>e. invalid_duplicate (''invalid override framing: '' @ e)) (from_reader x rest)) (\<lambda>(v, k).
          case v of
            CMap entries \<Rightarrow>
              attempt (fold_err (cost_leaf x destination s instances) st (map snd entries)) (\<lambda>st'.
                cost_loop x destination s instances n st' (drop k rest))
          | _ \<Rightarrow> Inl (invalid_duplicate ''override framing member is not a map'')))"

declare cost_loop.simps [simp del]

definition duplicate_rpc_cost ::
  "'x flow_ext_scheme \<Rightarrow> string \<Rightarrow> bytes \<Rightarrow> inspection_error + rpc_cost" where
  "duplicate_rpc_cost x sid_json payload =
     attempt (map_err DatastoreError (model_from_sid_str x sid_json)) (\<lambda>model.
     attempt (validate_duplicate_model_shape model) (\<lambda>s.
     attempt (decode_duplicate_operation x model payload) (\<lambda>operation.
     let source = dr_source (op_request operation); destination = dr_destination (op_request operation) in
     attempt (encode_duplicate_rpc_payload x model
       \<lparr>dr_source = source, dr_destination = destination, dr_overrides = []\<rparr> []) (\<lambda>fixed.
     attempt (cost_loop x destination s (op_instances operation) (length (op_inner_payload operation))
       (0, [], 0) (op_inner_payload operation)) (\<lambda>(target_bytes, ds, index).
     if index \<noteq> length (op_instances operation) then
       Inl (invalid_duplicate ''decoded override instances were not fully accounted'')
     else if usize_bound \<le> length fixed + target_bytes then
       Inl (invalid_duplicate ''duplicate RPC byte cost overflow'')
     else if length payload < length fixed + target_bytes then
       Inl (invalid_duplicate ''duplicate RPC payload is smaller than fixed and target costs'')
     else Inr
       \<lparr>rc_source = source, rc_destination = destination, rc_payload_bytes = length payload,
        rc_fixed_bytes = length fixed, rc_variable_framing_bytes = length payload - (length fixed + target_bytes),
        rc_target_value_bytes = target_bytes, rc_overrides = ds\<rparr>)))))"

subsection \<open>Looking a rule up\<close>

lemma find_filter: "List.find P xs = (case filter P xs of [] \<Rightarrow> None | x # _ \<Rightarrow> Some x)"
  by (induction xs) auto

text \<open>A stable sort does not change what is found first among elements of one key.\<close>

lemma find_sort_key:
  assumes "\<And>e. P e \<Longrightarrow> f e = k"
  shows "List.find P (sort_key f xs) = List.find P xs"
proof -
  have *: "filter P ys = filter P (filter (\<lambda>e. f e = k) ys)" for ys
    using assms by (auto simp: filter_filter intro!: filter_cong)
  have "filter P (sort_key f xs) = filter P xs"
    by (subst (1 2) *) (simp only: sort_key_stable)
  then show ?thesis by (simp only: find_filter)
qed

lemma map_of_obj_insert_other: "j \<noteq> k \<Longrightarrow> map_of (obj_insert k v es) j = map_of es j"
  by (induction k v es rule: obj_insert.induct) auto

lemma map_of_replace_value:
  "map_of (replace_value k v es) j = (if j = k \<and> map_of es k \<noteq> None then Some v else map_of es j)"
  by (induction k v es rule: replace_value.induct) auto

lemma tree_rule_is_other: "tree_rule_is vk lk a e \<Longrightarrow> a \<noteq> b \<Longrightarrow> \<not> tree_rule_is vk lk b e"
  by (auto simp: tree_rule_is_def)

lemma tree_rule_is_key:
  "tree_rule_is vk lk sel e \<Longrightarrow>
     (unwrap_or_zero (get_u64 e lk), unwrap_or_zero (get_u64 e vk)) = (rs_bits sel, rs_value sel)"
  by (simp add: tree_rule_is_def unwrap_or_zero_def)

lemma find_insert_tree_rule:
  assumes "tree_rule_is vk lk dest r"
  shows "List.find (tree_rule_is vk lk sel) (insert_tree_rule vk lk dest r rules)
    = (if sel = dest then Some r else List.find (tree_rule_is vk lk sel) rules)"
proof -
  have "List.find (tree_rule_is vk lk sel) (insert_tree_rule vk lk dest r rules)
    = List.find (tree_rule_is vk lk sel) (filter (\<lambda>e. \<not> tree_rule_is vk lk dest e) rules @ [r])"
    unfolding insert_tree_rule_def by (rule find_sort_key [OF tree_rule_is_key])
  moreover have "filter (tree_rule_is vk lk sel) (filter (\<lambda>e. \<not> tree_rule_is vk lk dest e) rules)
      = filter (tree_rule_is vk lk sel) rules" if "sel \<noteq> dest"
    using that by (auto simp: filter_filter dest: tree_rule_is_other intro!: filter_cong)
  moreover have "filter (tree_rule_is vk lk dest) (filter (\<lambda>e. \<not> tree_rule_is vk lk dest e) rules) = []"
    by (simp add: filter_filter)
  moreover have "sel \<noteq> dest \<Longrightarrow> \<not> tree_rule_is vk lk sel r" using assms by (auto dest: tree_rule_is_other)
  ultimately show ?thesis using assms by (auto simp: find_filter)
qed

lemma as_object_Some: "as_object v = Some es \<longleftrightarrow> v = JObject es"
  by (cases v) auto

lemma as_array_Some: "as_array v = Some vs \<longleftrightarrow> v = JArray vs"
  by (cases v) auto

lemma get_key_Some: "get_key v k = Some w \<longleftrightarrow> (\<exists>es. v = JObject es \<and> map_of es k = Some w)"
  by (cases v) auto

lemma tree_rules_Some:
  "tree_rules rk lk tree = Some rules \<longleftrightarrow>
     (\<exists>es root. tree = JObject es \<and> map_of es rk = Some (JObject root) \<and> map_of root lk = Some (JArray rules))"
  by (auto simp: tree_rules_def bind_eq_Some_conv as_object_Some as_array_Some get_key_Some)

lemma tree_rules_set:
  "tree_rules rk lk tree = Some old \<Longrightarrow> tree_rules rk lk (set_tree_rules rk lk rules tree) = Some rules"
  by (auto simp: tree_rules_Some set_tree_rules_def map_of_replace_value)

lemma copied_rule_is:
  assumes "copied_rule model s dest src = Inr r"
    and "rule_key model (sid_rule_id_value s) = Inr vk" and "rule_key model (sid_rule_id_length s) = Inr lk"
    and "vk \<noteq> lk"
  shows "tree_rule_is vk lk dest r"
proof -
  obtain es where "src = JObject es"
    and "r = JObject (obj_insert lk (json_nat (rs_bits dest)) (obj_insert vk (json_nat (rs_value dest)) es))"
    using assms(1-3) by (cases src) (auto simp: copied_rule_def set_tree_rule_key_def result_simps)
  with assms(4) show ?thesis
    by (simp add: tree_rule_is_def map_of_obj_insert_same map_of_obj_insert_other)
qed

lemma find_duplicated_tree:
  assumes "resolve_sids model = Inr s" and "duplicated_tree model s tree destination source = Inr t"
    and "rule_key model (sid_rule_id_value s) \<noteq> rule_key model (sid_rule_id_length s)"
  shows "find_tree_rule t model sel =
    (if sel = destination then attempt (copied_rule model s destination source) (\<lambda>r. Inr (Some r))
     else find_tree_rule tree model sel)"
proof -
  obtain rk lk vk nk r rules where keys: "rule_key model (sid_root s) = Inr rk" "rule_key model (sid_rule s) = Inr lk"
      "rule_key model (sid_rule_id_value s) = Inr vk" "rule_key model (sid_rule_id_length s) = Inr nk"
    and r: "copied_rule model s destination source = Inr r" and rules: "tree_rules rk lk tree = Some rules"
    and t: "t = set_tree_rules rk lk (insert_tree_rule vk nk destination r rules) tree"
    using assms(2) by (auto simp: duplicated_tree_def attempt_Inr_iff ok_or_Inr_iff)
  have "tree_rule_is vk nk destination r"
    using copied_rule_is [OF r keys(3,4)] keys assms(3) by simp
  with assms(1) keys r rules show ?thesis
    by (simp add: find_tree_rule_def t tree_rules_set find_insert_tree_rule)
qed

subsection \<open>The leaves of the override sequence\<close>

text \<open>What the loop keeps: the leaves read so far are those of the instances, without repetition,
  and the groups are their entries.\<close>

definition inner_ok :: "rule_selector \<Rightarrow> model_sids \<Rightarrow> inner_state \<Rightarrow> bool" where
  "inner_ok destination s st \<longleftrightarrow>
     (\<exists>leaves. list_all2 (\<lambda>i l. duplicate_leaf_from_path (in_path i) destination s = Inr l) (snd st) leaves \<and>
        distinct leaves \<and> fst st = map fst leaves)"

lemma note_leaf_Inr:
  "note_leaf destination s seen i = Inr out \<longleftrightarrow>
     (\<exists>l. duplicate_leaf_from_path (in_path i) destination s = Inr l \<and> l \<notin> set seen \<and> out = seen @ [l])"
  by (auto simp: note_leaf_def attempt_Inr_iff)

lemma note_leaves:
  assumes "fold_err (note_leaf destination s) seen is = Inr out" and "distinct seen"
  shows "\<exists>ls. out = seen @ ls \<and> distinct out \<and>
    list_all2 (\<lambda>i l. duplicate_leaf_from_path (in_path i) destination s = Inr l) is ls"
  using assms
proof (induction "is" arbitrary: seen)
  case (Cons i "is")
  then obtain l where l: "duplicate_leaf_from_path (in_path i) destination s = Inr l" "l \<notin> set seen"
    and f: "fold_err (note_leaf destination s) (seen @ [l]) is = Inr out"
    by (auto simp: note_leaf_Inr attempt_Inr_iff)
  from Cons.IH [OF f] l(2) Cons.prems(2) obtain ls where
    "out = (seen @ [l]) @ ls" "distinct out"
    "list_all2 (\<lambda>i l. duplicate_leaf_from_path (in_path i) destination s = Inr l) is ls"
    by auto
  with l(1) show ?case by (intro exI [of _ "l # ls"]) auto
qed simp

lemma decode_member_ok:
  assumes "decode_member x model destination s v member st = Inr st'" and "inner_ok destination s st"
  shows "inner_ok destination s st'"
proof -
  obtain groups instances where st: "st = (groups, instances)" by (cases st)
  obtain decoded seen where seen: "fold_err (note_leaf destination s) [] decoded = Inr seen"
    and new: "\<not> list_ex (\<lambda>e. e \<in> set groups) (map fst seen)"
    and st': "st' = (groups @ map fst seen, instances @ decoded)"
    using assms(1) by (cases v) (auto simp: decode_member_def st Let_def result_simps split: if_splits)
  from note_leaves [OF seen] have seen_ok: "distinct seen"
    "list_all2 (\<lambda>i l. duplicate_leaf_from_path (in_path i) destination s = Inr l) decoded seen"
    by auto
  from assms(2) obtain leaves where
    "list_all2 (\<lambda>i l. duplicate_leaf_from_path (in_path i) destination s = Inr l) instances leaves"
    "distinct leaves" and g: "groups = map fst leaves"
    by (auto simp: inner_ok_def st)
  moreover have "set leaves \<inter> set seen = {}"
    using new by (auto simp: g list_ex_iff)
  ultimately show ?thesis
    using seen_ok by (auto simp: inner_ok_def st' intro!: exI [of _ "leaves @ seen"] list_all2_appendI)
qed

lemma decode_inner_loop_ok:
  assumes "decode_inner_loop x model destination s n st rest = Inr is" and "inner_ok destination s st"
  shows "\<exists>groups. inner_ok destination s (groups, is)"
  using assms
proof (induction n arbitrary: st rest)
  case 0
  then show ?case by (cases st) (auto simp: decode_inner_loop.simps [of _ _ _ _ 0] split: if_splits)
next
  case (Suc n)
  show ?case
  proof (cases "rest = []")
    case True
    with Suc.prems show ?thesis
      by (cases st) (auto simp: decode_inner_loop.simps [of _ _ _ _ "Suc n"])
  next
    case False
    with Suc.prems(1) obtain v k st' where "decode_member x model destination s v (take k rest) st = Inr st'"
      and "decode_inner_loop x model destination s n st' (drop k rest) = Inr is"
      by (auto simp: decode_inner_loop.simps [of _ _ _ _ "Suc n"] result_simps)
    with Suc.IH decode_member_ok Suc.prems(2) show ?thesis by blast
  qed
qed

text \<open>The documented behaviour of the reader: it consumes at least one of the bytes it is given.\<close>

definition reader_advances :: "'x cbor_ext_scheme \<Rightarrow> bool" where
  "reader_advances x \<longleftrightarrow> (\<forall>bs v k. from_reader x bs = Inr (v, k) \<longrightarrow> 0 < k)"

lemma decode_inner_fuel:
  assumes "reader_advances x" and "length rest \<le> n"
  shows "decode_inner_loop x model destination s n st rest = decode_inner_loop x model destination s (length rest) st rest"
  using assms(2)
proof (induction "length rest" arbitrary: n st rest rule: less_induct)
  case less
  show ?case
  proof (cases "rest = []")
    case True
    then show ?thesis by (simp add: decode_inner_loop.simps [of _ _ _ _ n] decode_inner_loop.simps [of _ _ _ _ 0])
  next
    case False
    then obtain m l where n: "n = Suc m" "length rest = Suc l"
      using less.prems by (cases n; cases "length rest") auto
    have step: "decode_inner_loop x model destination s m st' (drop k rest)
        = decode_inner_loop x model destination s l st' (drop k rest)"
      if "from_reader x rest = Inr (v, k)" for v k st'
    proof -
      have "0 < k" using that assms(1) by (auto simp: reader_advances_def)
      then have "length (drop k rest) < length rest" "length (drop k rest) \<le> m" "length (drop k rest) \<le> l"
        using n less.prems by auto
      then show ?thesis using less.hyps [of "drop k rest" m] less.hyps [of "drop k rest" l] by simp
    qed
    have "attempt (map_err g (from_reader x rest)) (\<lambda>(v, k). attempt (F v k) (\<lambda>st'.
        decode_inner_loop x model destination s m st' (drop k rest)))
      = attempt (map_err g (from_reader x rest)) (\<lambda>(v, k). attempt (F v k) (\<lambda>st'.
        decode_inner_loop x model destination s l st' (drop k rest)))" for g :: "string \<Rightarrow> inspection_error" and F
      using step by (cases "from_reader x rest") (auto intro!: attempt_cong)
    with False n show ?thesis
      by (simp add: decode_inner_loop.simps [of _ _ _ _ "Suc m"] decode_inner_loop.simps [of _ _ _ _ "Suc l"])
  qed
qed

subsection \<open>Descriptions in order\<close>

lemma describe_override_sorted:
  assumes "sorted_wrt (<) (map do_entry_index ds)" and "\<And>d. do_entry_index (f d) = do_entry_index d"
  shows "sorted_wrt (<) (map do_entry_index (describe_override i f ds)) \<and>
    set (map do_entry_index (describe_override i f ds)) = insert i (set (map do_entry_index ds))"
  using assms(1)
proof (induction ds)
  case Nil
  show ?case using assms(2) [of "empty_override i"] by (simp add: empty_override_def)
next
  case (Cons d ds)
  then show ?case
    using assms(2) [of "empty_override i"] assms(2) [of d] by (auto simp: empty_override_def)
qed

lemma cost_leaf_describes:
  assumes "cost_leaf x destination s instances (target_bytes, ds, index) raw = Inr st'"
  shows "\<exists>e f. fst (snd st') = describe_override e f ds \<and> (\<forall>d. do_entry_index (f d) = do_entry_index d)"
proof -
  obtain e leaf where "duplicate_leaf_from_path (in_path (instances ! index)) destination s = Inr (e, leaf)"
    and "index < length instances"
    using assms by (auto simp: cost_leaf_def attempt_Inr_iff ok_or_Inr_iff split: if_splits)
  with assms have *: "cost_leaf x destination s instances (target_bytes, ds, index) raw = Inr st'"
    "attempt (ok_or e' (if index < length instances then Some (instances ! index) else None)) g = g (instances ! index)"
    for e' :: inspection_error and g :: "path_instance \<Rightarrow> inspection_error + cost_state"
    by simp_all
  show ?thesis
  proof (cases leaf)
    case LeafTarget
    with * \<open>duplicate_leaf_from_path _ _ _ = _\<close> show ?thesis
      by (cases raw) (auto simp: cost_leaf_def split: if_splits intro!: exI [of _ e])
  next
    case LeafMatchingOperator
    with * \<open>duplicate_leaf_from_path _ _ _ = _\<close> show ?thesis
      by (auto simp: cost_leaf_def intro!: exI [of _ e])
  next
    case LeafCda
    with * \<open>duplicate_leaf_from_path _ _ _ = _\<close> show ?thesis
      by (auto simp: cost_leaf_def intro!: exI [of _ e])
  qed
qed

lemma cost_leaf_sorted:
  assumes "cost_leaf x destination s instances st raw = Inr st'"
    and "sorted_wrt (<) (map do_entry_index (fst (snd st)))"
  shows "sorted_wrt (<) (map do_entry_index (fst (snd st')))"
proof -
  obtain t ds ix where st: "st = (t, ds, ix)" by (cases st)
  with assms(1) have "cost_leaf x destination s instances (t, ds, ix) raw = Inr st'" by simp
  from cost_leaf_describes [OF this] obtain e f where
    "fst (snd st') = describe_override e f ds" "\<And>d. do_entry_index (f d) = do_entry_index d"
    by auto
  with describe_override_sorted [of ds f e] assms(2) show ?thesis by (simp add: st)
qed

lemma cost_loop_sorted:
  assumes "cost_loop x destination s instances n st rest = Inr st'"
    and "sorted_wrt (<) (map do_entry_index (fst (snd st)))"
  shows "sorted_wrt (<) (map do_entry_index (fst (snd st')))"
  using assms
proof (induction n arbitrary: st rest)
  case 0
  then show ?case by (auto simp: cost_loop.simps [of _ _ _ _ 0] split: if_splits)
next
  case (Suc n)
  show ?case
  proof (cases "rest = []")
    case True
    with Suc.prems show ?thesis by (simp add: cost_loop.simps [of _ _ _ _ "Suc n"])
  next
    case False
    with Suc.prems(1) obtain v k where "(case v of
        CMap entries \<Rightarrow> attempt (fold_err (cost_leaf x destination s instances) st (map snd entries)) (\<lambda>st'.
            cost_loop x destination s instances n st' (drop k rest))
      | _ \<Rightarrow> Inl (invalid_duplicate ''override framing member is not a map'')) = Inr st'"
      by (auto simp: cost_loop.simps [of _ _ _ _ "Suc n"] attempt_Inr_iff map_err_Inr_iff)
    then obtain entries :: "(cbor \<times> cbor) list" where "attempt (fold_err (cost_leaf x destination s instances) st (map snd entries)) (\<lambda>st'.
        cost_loop x destination s instances n st' (drop k rest)) = Inr st'"
      by (cases v) auto
    then obtain st2 where f: "fold_err (cost_leaf x destination s instances) st (map snd entries) = Inr st2"
      and l: "cost_loop x destination s instances n st2 (drop k rest) = Inr st'"
      unfolding attempt_Inr_iff by blast
    from f have "sorted_wrt (<) (map do_entry_index (fst (snd st2)))"
      by (rule fold_err_invariant) (auto intro: Suc.prems(2) cost_leaf_sorted)
    with Suc.IH l show ?thesis by blast
  qed
qed

subsection \<open>A concrete instance\<close>

definition dup_model :: coreconf_model where
  "dup_model = demo_model\<lparr>get_sid := map_of (zip sid_paths (map int [1..<22])),
     get_identifier := map_of (zip (map int [1..<22]) sid_paths)\<rparr>"

lemma dup_resolve [simp]: "resolve_sids dup_model = Inr demo_sids"
proof -
  have d: "distinct sid_paths" by code_simp
  have len: "length sid_paths = 21" by (simp add: sid_paths_def)
  have "try_all (resolve_sid dup_model) sid_paths = Inr (map int [1..<22])"
    unfolding try_all_Inr_iff list_all2_conv_all_nth
    using d len by (auto simp: resolve_sid_def dup_model_def result_simps map_of_zip_nth)
  then show ?thesis by (simp add: resolve_sids_def demo_sids_def)
qed

lemma dup_identifier: "1 \<le> i \<Longrightarrow> i < 22 \<Longrightarrow> get_identifier dup_model i = Some (sid_paths ! (nat i - 1))"
proof -
  assume i: "1 \<le> i" "i < 22"
  then have e: "map int [1..<22] ! (nat i - 1) = i" by auto
  have "map_of (zip (map int [1..<22]) sid_paths) (map int [1..<22] ! (nat i - 1)) = Some (sid_paths ! (nat i - 1))"
    using i by (intro map_of_zip_nth) (auto simp: sid_paths_def distinct_map)
  then show ?thesis unfolding e by (simp add: dup_model_def)
qed

lemma demo_sids_simps [simp]:
  "sid_root demo_sids = 1" "sid_rule demo_sids = 2" "sid_rule_id_length demo_sids = 3"
  "sid_rule_id_value demo_sids = 4" "sid_entry demo_sids = 5" "sid_target demo_sids = 8"
  "sid_target_value demo_sids = 10" "sid_duplicate_rule demo_sids = 11" "sid_duplicate_input demo_sids = 12"
  "sid_duplicate_from demo_sids = 13" "sid_duplicate_from_length demo_sids = 14"
  "sid_duplicate_from_value demo_sids = 15" "sid_duplicate_ipatch demo_sids = 16" "sid_duplicate_to demo_sids = 17"
  "sid_duplicate_to_length demo_sids = 18" "sid_duplicate_to_value demo_sids = 19"
  "sid_matching_operator demo_sids = 20" "sid_cda demo_sids = 21"
  by (simp_all add: demo_sids_def sids_of_list_def)

lemma dup_keys [simp]:
  "rule_key dup_model 1 = Inr ''ietf-schc:schc''" "rule_key dup_model 2 = Inr ''rule''"
  "rule_key dup_model 3 = Inr ''rule-id-length''" "rule_key dup_model 4 = Inr ''rule-id-value''"
  by (simp_all add: rule_key_def dup_identifier last_segment_def sid_paths_def)

lemma dup_shape [simp]: "validate_duplicate_model_shape dup_model = Inr demo_sids"
  by (simp add: validate_duplicate_model_shape_def dup_identifier)

definition demo_flow :: flow_ext where
  "demo_flow = (management_ext.extend demo_mgmt (flow_ext.fields (\<lambda>_ _. True)))
     \<lparr>model_from_sid_str := (\<lambda>_. Inr dup_model),
      from_reader := (\<lambda>bs. Inr (CMap [(CInteger (int (length bs)), CNull)], length bs)),
      into_writer := (\<lambda>v. Inr (if v = CMap [(CInteger 1, CNull)] then [1] else [2, 2])),
      decode_instances_identifiers := (\<lambda>_ bs. Inr
        [if bs = [1] then
           \<lparr>in_path = [SidDelta 1, SidDelta 1, KeyValue (json_nat 9), KeyValue (json_nat 8), SidDelta 3,
               KeyValue (json_nat 4), SidDelta 16], in_value = Some (JString ''cda-not-sent'')\<rparr>
         else
           \<lparr>in_path = [SidDelta 11], in_value = Some (JObject [(''input'', JObject
               [(''from'', JObject [(''rule-id-length'', json_nat 3), (''rule-id-value'', json_nat 5)]),
                (''ipatch-sequence'', JString ''AQ==''),
                (''to'', JObject [(''rule-id-length'', json_nat 8), (''rule-id-value'', json_nat 9)])])])\<rparr>])\<rparr>"

lemma demo_flow_simps [simp]:
  "model_from_sid_str demo_flow sid = Inr dup_model"
  "from_reader demo_flow bs = Inr (CMap [(CInteger (int (length bs)), CNull)], length bs)"
  "into_writer demo_flow v = Inr (if v = CMap [(CInteger 1, CNull)] then [1] else [2, 2])"
  "direction_accepts demo_flow d e"
  by (simp_all add: demo_flow_def management_ext.defs flow_ext.defs)

definition demo_operation :: duplicate_operation where
  "demo_operation =
     \<lparr>op_request = \<lparr>dr_source = selector 5 3, dr_destination = selector 9 8, dr_overrides = [empty_override 4]\<rparr>,
      op_instances = [\<lparr>in_path = [SidDelta 1, SidDelta 1, KeyValue (json_nat 9), KeyValue (json_nat 8), SidDelta 3,
         KeyValue (json_nat 4), SidDelta 16], in_value = Some (JString ''cda-not-sent'')\<rparr>],
      op_inner_payload = [1]\<rparr>"

lemma demo_leaf [simp]:
  "duplicate_leaf_from_path [SidDelta 1, SidDelta 1, KeyValue (json_nat 9), KeyValue (json_nat 8), SidDelta 3,
     KeyValue (json_nat 4), SidDelta 16] (selector 9 8) demo_sids = Inr (4, LeafCda)"
  by (simp add: duplicate_leaf_from_path_def key_u64_def Let_def usize_bound_def)

lemma demo_base64: "base64_decode ''AQ=='' = Inr [1]"
  by code_simp

lemma demo_inner: "decode_duplicate_inner demo_flow dup_model [1] (selector 9 8) demo_sids = Inr (op_instances demo_operation)"
  by (simp add: decode_duplicate_inner_def decode_inner_loop.simps decode_member_def note_leaf_def demo_operation_def
      reject_duplicate_cbor_keys_def Let_def demo_flow_def management_ext.defs flow_ext.defs)

lemma demo_decode_operation: "decode_duplicate_operation demo_flow dup_model [2, 2] = Inr demo_operation"
proof -
  have s: "strict_one_cbor_map demo_flow [2, 2] = Inr (CMap [(CInteger 2, CNull)])"
    by (simp add: strict_one_cbor_map_def)
  have d: "decode_instances_identifiers demo_flow dup_model [2, 2] = Inr
      [\<lparr>in_path = [SidDelta 11], in_value = Some (JObject [(''input'', JObject
               [(''from'', JObject [(''rule-id-length'', json_nat 3), (''rule-id-value'', json_nat 5)]),
                (''ipatch-sequence'', JString ''AQ==''),
                (''to'', JObject [(''rule-id-length'', json_nat 8), (''rule-id-value'', json_nat 9)])])])\<rparr>]"
    by (simp add: demo_flow_def management_ext.defs flow_ext.defs)
  have sel: "selector_new 5 3 = Inr (selector 5 3)" "selector_new 9 8 = Inr (selector 9 8)"
    by (simp_all add: selector_new_def)
  show ?thesis
    by (simp add: decode_duplicate_operation_def s d rpc_input_def rpc_selector_def bounded_u64_def usize_bound_def
        inner_bytes_def demo_base64 demo_inner reject_duplicate_cbor_keys_def sel)
       (simp add: demo_operation_def)
qed

subsection \<open>Properties\<close>

text \<open>The strict reader of an RPC payload accepts one CBOR map that fills the payload and that
  the canonical writer prints as the same bytes, and nothing else.\<close>

theorem strict_map_exact:
  "strict_one_cbor_map x bs = Inr v \<longleftrightarrow>
     from_reader x bs = Inr (v, length bs) \<and> is_cbor_map v \<and> into_writer x v = Inr bs"
  by (auto simp: strict_one_cbor_map_def attempt_Inr_iff map_err_Inr_iff)

text \<open>Copying a rule is exact on lookups. In the candidate tree the destination selector finds
  the source rule with its two key leaves replaced, and every other selector finds what it found
  in the active tree, whatever rules already had the destination's RuleID.\<close>

theorem duplicate_tree_lookup:
  assumes "resolve_sids model = Inr s" and "duplicated_tree model s tree destination source = Inr t"
    and "rule_key model (sid_rule_id_value s) \<noteq> rule_key model (sid_rule_id_length s)"
  shows "find_tree_rule t model sel =
    (if sel = destination then attempt (copied_rule model s destination source) (\<lambda>r. Inr (Some r))
     else find_tree_rule tree model sel)"
  using assms by (rule find_duplicated_tree)

lemma duplicate_tree_lookup_witness:
  "find_tree_rule (JObject [(''ietf-schc:schc'', JObject [(''rule'', JArray
      [JObject [(''rule-id-length'', json_nat 3), (''rule-id-value'', json_nat 5)],
       JObject [(''rule-id-length'', json_nat 8), (''rule-id-value'', json_nat 9)]])])]) dup_model (selector 5 3)
   = Inr (Some (JObject [(''rule-id-length'', json_nat 3), (''rule-id-value'', json_nat 5)]))"
proof -
  let ?r = "JObject [(''rule-id-length'', json_nat 3), (''rule-id-value'', json_nat 5)]"
  let ?tree = "JObject [(''ietf-schc:schc'', JObject [(''rule'', JArray [?r])])]"
  have "duplicated_tree dup_model demo_sids ?tree (selector 9 8) ?r = Inr (JObject [(''ietf-schc:schc'', JObject [(''rule'', JArray
      [?r, JObject [(''rule-id-length'', json_nat 8), (''rule-id-value'', json_nat 9)]])])])"
    by (simp add: duplicated_tree_def copied_rule_def set_tree_rule_key_def tree_rules_def set_tree_rules_def
        insert_tree_rule_def tree_rule_is_def unwrap_or_zero_def less_eq_char_def)
  from duplicate_tree_lookup [OF dup_resolve this, of "selector 5 3"] show ?thesis
    by (simp add: find_tree_rule_def tree_rules_def tree_rule_is_def)
qed

lemma apply_overrides:
  assumes "fold_err (apply_override x destination s) (seen, ds) instances = Inr (out, ds')" and "distinct seen"
  shows "\<exists>ls. out = seen @ ls \<and> distinct out \<and>
    list_all2 (\<lambda>i l. duplicate_leaf_from_path (in_path i) destination s = Inr l) instances ls"
  using assms
proof (induction instances arbitrary: seen ds)
  case (Cons i instances)
  from Cons.prems(1) obtain st where st: "apply_override x destination s (seen, ds) i = Inr st"
    and f: "fold_err (apply_override x destination s) st instances = Inr (out, ds')"
    unfolding fold_err.simps attempt_Inr_iff by blast
  obtain e l ds2 where l: "duplicate_leaf_from_path (in_path i) destination s = Inr (e, l)" "(e, l) \<notin> set seen"
    and st2: "st = (seen @ [(e, l)], ds2)"
    using st by (auto simp: apply_override_def attempt_Inr_iff split: if_splits)
  from Cons.IH [OF f [unfolded st2]] l(2) Cons.prems(2) obtain ls where
    "out = (seen @ [(e, l)]) @ ls" "distinct out"
    "list_all2 (\<lambda>i l. duplicate_leaf_from_path (in_path i) destination s = Inr l) instances ls"
    by auto
  with l(1) show ?case by (intro exI [of _ "(e, l) # ls"]) auto
qed simp

text \<open>A duplicate is built only from an ordinary rule. When both ends agree on a candidate,
  the source rule is in the tree and in the typed context, is not a management rule, neither
  selector is protected, the two differ, and every override addresses its own leaf of the
  destination.\<close>

theorem expected_duplicate_guards:
  assumes "expected_duplicate_tree x model snapshot r instances = Inr t"
  shows "dr_source r \<noteq> dr_destination r \<and>
    (\<exists>src. find_tree_rule (cd_tree (sn_data snapshot)) model (dr_source r) = Inr (Some src)) \<and>
    (\<exists>e. List.find (\<lambda>e. rule_id_of e = selector_id (dr_source r)) (cd_rules (sn_data snapshot)) = Some e \<and>
       nature e \<noteq> NatureManagement) \<and>
    \<not> protected_contains (cd_protected (sn_data snapshot)) (selector_id (dr_source r)) \<and>
    \<not> protected_contains (cd_protected (sn_data snapshot)) (selector_id (dr_destination r)) \<and>
    (\<exists>s leaves. resolve_sids model = Inr s \<and> distinct leaves \<and>
       list_all2 (\<lambda>i l. duplicate_leaf_from_path (in_path i) (dr_destination r) s = Inr l) instances leaves)"
proof -
  obtain s src candidate ds ds' seen rule where s: "validate_duplicate_model_shape model = Inr s"
    and src: "find_tree_rule (cd_tree (sn_data snapshot)) model (dr_source r) = Inr (Some src)"
    and rule: "check_duplicate_rules snapshot r ''source rule is absent from the typed snapshot'' = Inr rule"
    and ne: "dr_source r \<noteq> dr_destination r"
    and f: "fold_err (apply_override x (dr_destination r) s) ([], ds) instances = Inr (seen, ds')"
    using assms unfolding expected_duplicate_tree_def Let_def attempt_Inr_iff ok_or_Inr_iff if_Inr_iff
    by (elim exE conjE) (auto split: prod.splits)
  have "resolve_sids model = Inr s"
    using s by (auto simp: validate_duplicate_model_shape_def attempt_Inr_iff split: option.splits)
  moreover obtain leaves where "distinct leaves"
    "list_all2 (\<lambda>i l. duplicate_leaf_from_path (in_path i) (dr_destination r) s = Inr l) instances leaves"
    using apply_overrides [OF f] by auto
  moreover have "List.find (\<lambda>e. rule_id_of e = selector_id (dr_source r)) (cd_rules (sn_data snapshot)) = Some rule \<and>
      nature rule \<noteq> NatureManagement \<and>
      \<not> protected_contains (cd_protected (sn_data snapshot)) (selector_id (dr_source r)) \<and>
      \<not> protected_contains (cd_protected (sn_data snapshot)) (selector_id (dr_destination r))"
    using rule by (auto simp: check_duplicate_rules_def Let_def attempt_Inr_iff ok_or_Inr_iff split: if_splits)
  ultimately show ?thesis using src ne by blast
qed

definition dup_tree :: json where
  "dup_tree = JObject [(''ietf-schc:schc'', JObject [(''rule'', JArray
     [JObject [(''rule-id-length'', json_nat 3), (''rule-id-value'', json_nat 5)]])])]"

definition dup_snapshot :: context_snapshot where
  "dup_snapshot =
     (let d = pc_data (demo_prepared True) in
      (from_prepared (demo_prepared True) 1)\<lparr>sn_data := d\<lparr>cd_tree := dup_tree, cd_rules :=
        [\<lparr>rule_id_of = RuleId 5 3, nature = NatureCompression, rule_fields = []\<rparr>]\<rparr>\<rparr>)"

lemma dup_snapshot_simps [simp]:
  "cd_tree (sn_data dup_snapshot) = dup_tree" "cd_protected (sn_data dup_snapshot) = []"
  "cd_rules (sn_data dup_snapshot) = [\<lparr>rule_id_of = RuleId 5 3, nature = NatureCompression, rule_fields = []\<rparr>]"
  by (simp_all add: dup_snapshot_def demo_prepared_def Let_def)

lemma expected_duplicate_guards_witness:
  "\<exists>t. expected_duplicate_tree demo_flow dup_model dup_snapshot (op_request demo_operation) (op_instances demo_operation) = Inr t \<and>
     selector 5 3 \<noteq> selector 9 8"
proof -
  have f: "find_tree_rule dup_tree dup_model (selector 5 3)
      = Inr (Some (JObject [(''rule-id-length'', json_nat 3), (''rule-id-value'', json_nat 5)]))"
    by (simp add: dup_tree_def find_tree_rule_def tree_rules_def tree_rule_is_def)
  have c: "\<exists>t. duplicated_tree dup_model demo_sids dup_tree (selector 9 8)
      (JObject [(''rule-id-length'', json_nat 3), (''rule-id-value'', json_nat 5)]) = Inr t"
    by (simp add: dup_tree_def duplicated_tree_def copied_rule_def set_tree_rule_key_def tree_rules_def)
  obtain t where t: "expected_duplicate_tree demo_flow dup_model dup_snapshot (op_request demo_operation)
      (op_instances demo_operation) = Inr t"
    using c by (auto simp: expected_duplicate_tree_def f demo_operation_def check_duplicate_rules_def selector_id_def
        protected_contains_def apply_override_def demo_flow_def demo_mgmt_def packet_ext.defs management_ext.defs
        flow_ext.defs Let_def)
  from expected_duplicate_guards [OF t] t show ?thesis by (auto simp: demo_operation_def)
qed

text \<open>The decoder of an operation reads every override once. Whatever the CBOR and SID libraries
  return, an accepted operation has one leaf of the destination per instance, no leaf twice, and
  names each of their entries once, in increasing order.\<close>

theorem decoded_leaves_distinct:
  assumes "decode_duplicate_operation x model payload = Inr operation"
  shows "\<exists>s leaves. resolve_sids model = Inr s \<and> distinct leaves \<and>
    list_all2 (\<lambda>i l. duplicate_leaf_from_path (in_path i) (dr_destination (op_request operation)) s = Inr l)
      (op_instances operation) leaves \<and>
    sorted_wrt (<) (map do_entry_index (dr_overrides (op_request operation))) \<and>
    set (map do_entry_index (dr_overrides (op_request operation))) = fst ` set leaves"
proof -
  obtain s source destination inner instances leaves where s: "validate_duplicate_model_shape model = Inr s"
    and d: "decode_duplicate_inner x model inner destination s = Inr instances"
    and l: "try_all (\<lambda>i. duplicate_leaf_from_path (in_path i) destination s) instances = Inr leaves"
    and op: "operation = \<lparr>op_request = \<lparr>dr_source = source, dr_destination = destination,
              dr_overrides = map empty_override (remdups (sort (map fst leaves)))\<rparr>,
            op_instances = instances, op_inner_payload = inner\<rparr>"
    using assms unfolding decode_duplicate_operation_def attempt_Inr_iff by auto
  have "resolve_sids model = Inr s"
    using s by (auto simp: validate_duplicate_model_shape_def attempt_Inr_iff split: option.splits)
  have l2: "list_all2 (\<lambda>i l. duplicate_leaf_from_path (in_path i) destination s = Inr l) instances leaves"
    using l by (simp add: try_all_Inr_iff)
  have "inner_ok destination s ([], [])" by (simp add: inner_ok_def)
  then obtain groups where "inner_ok destination s (groups, instances)"
    using decode_inner_loop_ok d unfolding decode_duplicate_inner_def by blast
  then obtain ls where ls: "distinct ls"
    "list_all2 (\<lambda>i l. duplicate_leaf_from_path (in_path i) destination s = Inr l) instances ls"
    by (auto simp: inner_ok_def)
  have "ls = leaves"
    using ls(2) l2 by (metis try_all_Inr_iff sum.inject(2))
  moreover have "map do_entry_index (map empty_override es) = es" for es
    by (induction es) (simp_all add: empty_override_def)
  moreover have "sorted_wrt (<) (remdups (sort es))" for es :: "nat list"
    by (simp add: strict_sorted_iff)
  ultimately show ?thesis using \<open>resolve_sids model = Inr s\<close> l2 ls(1) by (auto simp: op simp del: map_map)
qed

lemma decoded_leaves_distinct_witness:
  "\<exists>leaves. distinct leaves \<and> list_all2 (\<lambda>i l. duplicate_leaf_from_path (in_path i) (selector 9 8) demo_sids = Inr l)
     (op_instances demo_operation) leaves"
  using decoded_leaves_distinct [OF demo_decode_operation] by (auto simp: demo_operation_def)

text \<open>The loop over the override sequence always ends: with a reader that advances, as many
  turns as there are bytes are enough, and more turns do not change the result.\<close>

theorem decode_inner_terminates:
  assumes "reader_advances x"
  shows "decode_inner_loop x model destination s (length bs + extra) ([], []) bs
    = decode_duplicate_inner x model bs destination s"
  unfolding decode_duplicate_inner_def by (rule decode_inner_fuel [OF assms]) simp

text \<open>The cost report adds up. Fixed, framing and target-value bytes of an accepted payload sum
  to its length, the fixed part is the payload without overrides, and the overrides are listed
  once per entry in increasing order.\<close>

theorem rpc_cost_adds_up:
  assumes "duplicate_rpc_cost x sid_json payload = Inr c"
  shows "rc_fixed_bytes c + rc_variable_framing_bytes c + rc_target_value_bytes c = length payload \<and>
    rc_payload_bytes c = length payload \<and> sorted_wrt (<) (map do_entry_index (rc_overrides c)) \<and>
    (\<exists>model fixed. model_from_sid_str x sid_json = Inr model \<and> encode_duplicate_rpc_payload x model
       \<lparr>dr_source = rc_source c, dr_destination = rc_destination c, dr_overrides = []\<rparr> [] = Inr fixed \<and>
       rc_fixed_bytes c = length fixed)"
proof -
  let ?src = "\<lambda>operation :: duplicate_operation. dr_source (op_request operation)"
  let ?dst = "\<lambda>operation :: duplicate_operation. dr_destination (op_request operation)"
  obtain model s fixed st and operation :: duplicate_operation where m: "model_from_sid_str x sid_json = Inr model"
    and f: "encode_duplicate_rpc_payload x model
        \<lparr>dr_source = ?src operation, dr_destination = ?dst operation, dr_overrides = []\<rparr> [] = Inr fixed"
    and l: "cost_loop x (?dst operation) s (op_instances operation)
        (length (op_inner_payload operation)) (0, [], 0) (op_inner_payload operation) = Inr st"
    and r: "(case st of (target_bytes, ds, index) \<Rightarrow>
       if index \<noteq> length (op_instances operation) then
         Inl (invalid_duplicate ''decoded override instances were not fully accounted'')
       else if usize_bound \<le> length fixed + target_bytes then
         Inl (invalid_duplicate ''duplicate RPC byte cost overflow'')
       else if length payload < length fixed + target_bytes then
         Inl (invalid_duplicate ''duplicate RPC payload is smaller than fixed and target costs'')
       else Inr
         \<lparr>rc_source = ?src operation, rc_destination = ?dst operation, rc_payload_bytes = length payload,
          rc_fixed_bytes = length fixed, rc_variable_framing_bytes = length payload - (length fixed + target_bytes),
          rc_target_value_bytes = target_bytes, rc_overrides = ds\<rparr>) = Inr c"
    using assms unfolding duplicate_rpc_cost_def Let_def attempt_Inr_iff map_err_Inr_iff by blast
  obtain target_bytes ds index where st: "st = (target_bytes, ds, index)" by (cases st)
  from r have le: "\<not> length payload < length fixed + target_bytes"
    and c: "c = \<lparr>rc_source = ?src operation, rc_destination = ?dst operation,
        rc_payload_bytes = length payload, rc_fixed_bytes = length fixed,
        rc_variable_framing_bytes = length payload - (length fixed + target_bytes),
        rc_target_value_bytes = target_bytes, rc_overrides = ds\<rparr>"
    by (auto simp: st split: if_splits)
  have "sorted_wrt (<) (map do_entry_index ds)" using cost_loop_sorted [OF l] by (simp add: st)
  with m f le show ?thesis by (simp add: c)
qed

lemma rpc_cost_adds_up_witness:
  "\<exists>c. duplicate_rpc_cost demo_flow ''m'' [2, 2] = Inr c \<and>
     rc_fixed_bytes c + rc_variable_framing_bytes c + rc_target_value_bytes c = 2"
proof -
  have e: "encode_duplicate_rpc_payload demo_flow dup_model
      \<lparr>dr_source = selector 5 3, dr_destination = selector 9 8, dr_overrides = []\<rparr> [] = Inr [2, 2]"
    by (simp add: encode_duplicate_rpc_payload_def duplicate_rpc_value_def sid_delta_def i64_checked_sub_def
        i64_max_def u32_bound_def Let_def)
  have l: "\<exists>ds. cost_loop demo_flow (selector 9 8) demo_sids (op_instances demo_operation) (Suc 0) (0, [], 0) [1]
      = Inr (0, ds, Suc 0)"
    by (simp add: cost_loop.simps cost_leaf_def demo_operation_def)
  obtain c where c: "duplicate_rpc_cost demo_flow ''m'' [2, 2] = Inr c"
    using l by (auto simp: duplicate_rpc_cost_def demo_decode_operation e [simplified] demo_operation_def usize_bound_def Let_def)
  from rpc_cost_adds_up [OF c] c show ?thesis by auto
qed

lemma decode_inner_terminates_witness:
  "decode_inner_loop demo_flow dup_model (selector 9 8) demo_sids 3 ([], []) [1] = Inr (op_instances demo_operation)"
proof -
  let ?y = "demo_flow\<lparr>from_reader := \<lambda>bs. if bs = [] then Inl [] else from_reader demo_flow bs\<rparr>"
  have "decode_inner_loop ?y dup_model (selector 9 8) demo_sids (length [1 :: byte] + 2) ([], []) [1]
      = decode_duplicate_inner ?y dup_model [1] (selector 9 8) demo_sids"
    by (rule decode_inner_terminates) (simp add: reader_advances_def)
  then show ?thesis
    by (simp add: decode_duplicate_inner_def decode_inner_loop.simps decode_member_def note_leaf_def demo_operation_def
      reject_duplicate_cbor_keys_def Let_def demo_flow_def management_ext.defs flow_ext.defs)
qed

end
