(* ===== verification/Exchange.thy ===== *)
theory Exchange
  imports Duplicate Link
begin

text \<open>
  One management exchange as the core runs it (\<open>src/management.rs\<close>): tokens and exchange
  identities, the requests of the console, the preparation of a request for the link, the checks on
  its response, and the compact context check of both sides.
\<close>

subsection \<open>Tokens and exchange identities\<close>

definition max_coap_token_len :: nat where "max_coap_token_len = 8"
definition coap_confirmable :: nat where "coap_confirmable = 0"
definition coap_non_confirmable :: nat where "coap_non_confirmable = 1"
definition coap_acknowledgement :: nat where "coap_acknowledgement = 2"

lemmas coap_types = coap_confirmable_def coap_non_confirmable_def coap_acknowledgement_def

definition coap_token_new :: "bytes \<Rightarrow> inspection_error + bytes" where
  "coap_token_new bs =
     (if max_coap_token_len < length bs then
        Inl (InvalidToken (''length must be at most '' @ show_nat max_coap_token_len @ '' bytes, got ''
          @ show_nat (length bs)))
      else Inr bs)"

record exchange_id =
  ex_message_id :: nat
  ex_token :: bytes

definition exchange_new :: "nat \<Rightarrow> bytes \<Rightarrow> inspection_error + exchange_id" where
  "exchange_new message_id token =
     attempt (coap_token_new token) (\<lambda>t. Inr \<lparr>ex_message_id = message_id, ex_token = t\<rparr>)"

definition exchange_from_message :: "coap_message \<Rightarrow> inspection_error + exchange_id" where
  "exchange_from_message m = exchange_new (cm_message_id m) (cm_token m)"

definition matches_response :: "exchange_id \<Rightarrow> exchange_id \<Rightarrow> nat \<Rightarrow> bool" where
  "matches_response request response message_type \<longleftrightarrow>
     ex_token request = ex_token response \<and>
     (if message_type = coap_confirmable \<or> message_type = coap_non_confirmable then True
      else if message_type = coap_acknowledgement then ex_message_id request = ex_message_id response
      else False)"

datatype token_policy = EmptyToken | GeneratedToken

text \<open>The process-wide counter is an argument, and its next value is returned.\<close>

definition policy_token :: "token_policy \<Rightarrow> u64 \<Rightarrow> bytes \<times> u64" where
  "policy_token policy counter =
     (case policy of
        EmptyToken \<Rightarrow> ([], counter)
      | GeneratedToken \<Rightarrow> (be_bytes 8 (unat counter), counter + 1))"

subsection \<open>Requests\<close>

text \<open>\<open>Packet::new\<close> of the CoAP library, and the request every console command starts from.\<close>

definition base_request :: "lite_method \<Rightarrow> nat \<Rightarrow> lite_packet" where
  "base_request m message_id =
     add_option opt_uri_path schc_segment
       \<lparr>lp_code = LiteRequest m, lp_type = Confirmable, lp_message_id = message_id, lp_token = [],
        lp_options = [], lp_payload = []\<rparr>"

definition context_check_marker :: byte where "context_check_marker = 0xC6"
definition context_check_equal :: byte where "context_check_equal = 0"
definition context_check_mismatch :: byte where "context_check_mismatch = 1"

lemmas check_bytes = context_check_marker_def context_check_equal_def context_check_mismatch_def

text \<open>\<open>None\<close> is the panic of the code when the library cannot serialize the request.\<close>

definition context_check_request :: "'x packet_ext_scheme \<Rightarrow> bytes \<Rightarrow> nat \<Rightarrow> bytes option" where
  "context_check_request x tag message_id =
     (case lite_to_bytes x ((base_request MFetch message_id)\<lparr>lp_payload := context_check_marker # tag\<rparr>) of
        Inl _ \<Rightarrow> None
      | Inr bs \<Rightarrow> Some bs)"

definition model_request_sids :: "'x management_ext_scheme \<Rightarrow> string \<Rightarrow> inspection_error + int \<times> int" where
  "model_request_sids x sid_json =
     attempt (map_err DatastoreError (model_from_sid_str x sid_json)) (\<lambda>model.
     attempt (ok_or (InvalidTarget ''SID model is missing identifier /ietf-schc:schc'')
       (get_sid model ''/ietf-schc:schc'')) (\<lambda>root.
     attempt (ok_or (InvalidTarget ''SID model is missing identifier /ietf-schc:schc/rule'')
       (get_sid model ''/ietf-schc:schc/rule'')) (\<lambda>rule. Inr (root, rule))))"

definition rule_request ::
  "'x management_ext_scheme \<Rightarrow> int \<Rightarrow> int \<Rightarrow> rule_selector option \<Rightarrow> nat \<Rightarrow> inspection_error + bytes" where
  "rule_request x root_sid rule_sid sel message_id =
     attempt (management_instance_path x root_sid rule_sid sel) (\<lambda>path.
     let packet = add_option opt_content_format [141] (base_request MFetch message_id) in
     attempt (map_err DatastoreError (encode_identifiers x [path])) (\<lambda>payload.
       map_err CoapError (lite_to_bytes x (packet\<lparr>lp_payload := payload\<rparr>))))"

definition rule_list_request :: "'x management_ext_scheme \<Rightarrow> string \<Rightarrow> nat \<Rightarrow> inspection_error + bytes" where
  "rule_list_request x sid_json message_id =
     attempt (model_request_sids x sid_json) (\<lambda>(root, rule). rule_request x root rule None message_id)"

definition rule_get_request ::
  "'x management_ext_scheme \<Rightarrow> string \<Rightarrow> rule_selector \<Rightarrow> nat \<Rightarrow> inspection_error + bytes" where
  "rule_get_request x sid_json sel message_id =
     attempt (model_request_sids x sid_json) (\<lambda>(root, rule). rule_request x root rule (Some sel) message_id)"

definition duplicate_rule_packet :: "bytes \<Rightarrow> nat \<Rightarrow> lite_packet" where
  "duplicate_rule_packet payload message_id =
     (add_option opt_content_format [142] ((base_request MPost message_id)\<lparr>lp_type := NonConfirmable\<rparr>))
       \<lparr>lp_payload := payload\<rparr>"

subsection \<open>Preparing a request\<close>

definition apply_token_policy ::
  "'x packet_ext_scheme \<Rightarrow> bytes \<Rightarrow> token_policy \<Rightarrow> u64 \<Rightarrow> (inspection_error + bytes) \<times> u64" where
  "apply_token_policy x datagram policy counter =
     (case lite_from_bytes x datagram of
        Inl e \<Rightarrow> (Inl (CoapError e), counter)
      | Inr packet \<Rightarrow>
          (let (token, counter') = policy_token policy counter in
           (map_err CoapError (lite_to_bytes x (packet\<lparr>lp_token := token\<rparr>)), counter')))"

record prepared_request =
  pr_frame :: schc_frame
  pr_report :: link_report
  pr_exchange_id :: exchange_id

definition encode_management ::
  "'x packet_ext_scheme \<Rightarrow> active_context \<Rightarrow> schc_link \<Rightarrow> bytes \<Rightarrow> inspection_error + prepared_request" where
  "encode_management x a lk wire =
     attempt (map_err CoapError (coap_packet_new x core_logical_address device_logical_address
       management_port management_port wire)) (\<lambda>request.
     attempt (map_err LinkFailure (encode_packet x a lk OriginManagement request)) (\<lambda>encoded.
     let report = le_report encoded in
     if lr_traffic_class report \<noteq> ProtectedManagement then
       Inl (UnexpectedResponse (''management request selected unsupported protected RuleID ''
         @ show_nat (id_value (lr_rule_id report)) @ ''/'' @ show_nat (bit_len (lr_rule_id report))))
     else
     attempt (exchange_from_message (cp_message request)) (\<lambda>i.
       Inr \<lparr>pr_frame = le_frame encoded, pr_report = report, pr_exchange_id = i\<rparr>)))"

definition prepare_management_request ::
  "'x packet_ext_scheme \<Rightarrow> active_context \<Rightarrow> schc_link \<Rightarrow> bytes \<Rightarrow> token_policy \<Rightarrow> u64
    \<Rightarrow> (inspection_error + prepared_request) \<times> u64" where
  "prepare_management_request x a lk datagram policy counter =
     (if is_duplicate_rule_datagram x datagram then
        (Inl (UnexpectedResponse
          ''duplicate-rule NON POST is one-way and is not prepared for response tracking''), counter)
      else
        let (wire, counter') = apply_token_policy x datagram policy counter in
        (attempt wire (encode_management x a lk), counter'))"

subsection \<open>Validating a response\<close>

record management_exchange =
  me_payload :: bytes
  me_request_report :: link_report
  me_response_report :: link_report

definition validate_management_response ::
  "'x management_ext_scheme \<Rightarrow> prepared_request \<Rightarrow> link_decoded \<Rightarrow> inspection_error + nat \<times> management_exchange" where
  "validate_management_response x prepared decoded =
     (if lk_route decoded \<noteq> RouteProtectedManagement then
        Inl (UnexpectedResponse (''management response selected '' @ debug_rule_id x (lk_rule_id decoded)
          @ '' instead of protected management''))
      else
        let response = lk_packet decoded; message = cp_message response in
        if ud_source response \<noteq> device_logical_address \<or> ud_destination response \<noteq> core_logical_address
          \<or> ud_source_port response \<noteq> management_port \<or> ud_destination_port response \<noteq> management_port then
          Inl (UnexpectedResponse ''management response logical orientation is invalid'')
        else
          let code = cm_code message in
          if drop_bit 5 code < 2 \<or> 5 < drop_bit 5 code then
            Inl (UnexpectedResponse (''management response has non-response CoAP code '' @ show_nat code))
          else
          attempt (exchange_from_message message) (\<lambda>i.
          if cm_type message \<notin> {coap_confirmable, coap_non_confirmable, coap_acknowledgement} then
            Inl (UnexpectedResponse (''management response has unsupported CoAP message type ''
              @ show_nat (cm_type message)))
          else if \<not> matches_response (pr_exchange_id prepared) i (cm_type message) then
            Inl (Correlation ''CoAP message ID or token mismatch'')
          else Inr (code, \<lparr>me_payload = cm_payload message, me_request_report = pr_report prepared,
                 me_response_report = lk_report decoded\<rparr>)))"

subsection \<open>The context check\<close>

record check_result =
  ck_core_tag :: bytes
  ck_device_tag :: bytes
  ck_equal :: bool

definition decode_context_check_payload :: "bytes \<Rightarrow> bytes \<Rightarrow> inspection_error + check_result" where
  "decode_context_check_payload payload core_tag =
     (if length payload \<noteq> 2 \<and> length payload \<noteq> 2 + context_tag_len then
        Inl (UnexpectedResponse ''context-check response has invalid length'')
      else if payload ! 0 \<noteq> context_check_marker then
        Inl (UnexpectedResponse ''context-check marker mismatch'')
      else if payload ! 1 = context_check_equal \<and> length payload = 2 then
        Inr \<lparr>ck_core_tag = core_tag, ck_device_tag = core_tag, ck_equal = True\<rparr>
      else if payload ! 1 = context_check_mismatch \<and> length payload = 2 + context_tag_len then
        Inr \<lparr>ck_core_tag = core_tag, ck_device_tag = drop 2 payload, ck_equal = False\<rparr>
      else Inl (UnexpectedResponse ''invalid context-check result marker''))"

text \<open>The payload the device answers with, built inside \<open>handle_context_check\<close>.\<close>

definition context_check_payload :: "bytes \<Rightarrow> bytes \<Rightarrow> bytes" where
  "context_check_payload core_tag device_tag =
     context_check_marker # (if core_tag = device_tag then [context_check_equal]
       else context_check_mismatch # device_tag)"

subsection \<open>The check on both sides\<close>

lemma decode_check_payload:
  assumes "length device_tag = 8"
  shows "decode_context_check_payload (context_check_payload core_tag device_tag) core_tag
    = Inr \<lparr>ck_core_tag = core_tag, ck_device_tag = device_tag, ck_equal = (core_tag = device_tag)\<rparr>"
  using assms by (simp add: decode_context_check_payload_def context_check_payload_def context_tag_len_def check_bytes)

text \<open>For each tag of the core, the device's answer carries the device's tag.\<close>

interpretation check_answer: codec_pair "context_check_payload core_tag"
    "\<lambda>p. attempt (decode_context_check_payload p core_tag) (\<lambda>r. Inr (ck_device_tag r))" "\<lambda>t. length t = 8"
  for core_tag
  by unfold_locales (simp add: decode_check_payload)

text \<open>The tokens of \<open>n\<close> generated requests, threading the counter.\<close>

fun generated_tokens :: "nat \<Rightarrow> u64 \<Rightarrow> bytes list" where
  "generated_tokens 0 c = []"
| "generated_tokens (Suc n) c = (let (t, c') = policy_token GeneratedToken c in t # generated_tokens n c')"

lemma generated_tokens_eq: "generated_tokens n c = map (\<lambda>i. be_bytes 8 (unat (c + of_nat i))) [0..<n]"
proof (induction n arbitrary: c)
  case (Suc n)
  have "generated_tokens (Suc n) c = be_bytes 8 (unat c) # generated_tokens n (c + 1)"
    by (simp add: policy_token_def del: be_bytes.simps)
  also have "\<dots> = be_bytes 8 (unat (c + of_nat 0)) # map (\<lambda>i. be_bytes 8 (unat (c + of_nat (Suc i)))) [0..<n]"
    by (simp add: Suc add.assoc del: be_bytes.simps)
  also have "\<dots> = map (\<lambda>i. be_bytes 8 (unat (c + of_nat i))) [0..<Suc n]"
    by (simp add: upt_conv_Cons map_Suc_upt [symmetric] comp_def del: upt_Suc be_bytes.simps of_nat_Suc)
  finally show ?case .
qed simp

lemma of_nat_u64_inject: "i < 2 ^ 64 \<Longrightarrow> j < 2 ^ 64 \<Longrightarrow> (of_nat i :: u64) = of_nat j \<longleftrightarrow> i = j"
  by (simp add: word_of_nat_eq_iff take_bit_nat_eq_self)

subsection \<open>Properties\<close>

text \<open>A context check tells the truth. For the eight-byte tags of both sides, the console reads
  from the device's answer its own tag, the device's tag, and equality exactly when they are equal;
  two devices with different tags never send the same answer.\<close>

theorem context_check_truthful:
  assumes "length device_tag = 8" and "length other_tag = 8"
  shows "decode_context_check_payload (context_check_payload core_tag device_tag) core_tag
      = Inr \<lparr>ck_core_tag = core_tag, ck_device_tag = device_tag, ck_equal = (core_tag = device_tag)\<rparr> \<and>
    (context_check_payload core_tag device_tag = context_check_payload core_tag other_tag \<longleftrightarrow> device_tag = other_tag)"
  using decode_check_payload [OF assms(1)] check_answer.encode_inject [of device_tag other_tag core_tag] assms
  by blast

lemma context_check_truthful_witness:
  "decode_context_check_payload [0xC6, 1, 8, 7, 6, 5, 4, 3, 2, 1] [1, 2, 3, 4, 5, 6, 7, 8]
   = Inr \<lparr>ck_core_tag = [1, 2, 3, 4, 5, 6, 7, 8], ck_device_tag = [8, 7, 6, 5, 4, 3, 2, 1], ck_equal = False\<rparr>"
  using context_check_truthful [of "[8, 7, 6, 5, 4, 3, 2, 1]" "[1, 2, 3, 4, 5, 6, 7, 8]" "[1, 2, 3, 4, 5, 6, 7, 8]"]
  by (simp add: context_check_payload_def check_bytes)

text \<open>C29: A response is accepted exactly when it answers the request: it came over the protected
  management route, from the device's management endpoint to the core's, with a response code and
  a token of at most eight bytes equal to the request's, as a confirmable or non-confirmable
  message, or as an acknowledgement of the request's message ID. What is returned is its code and
  payload with the two link reports.\<close>

theorem response_accepted_exact:
  "validate_management_response x prepared decoded = Inr (code, exchange) \<longleftrightarrow>
     (let response = lk_packet decoded; message = cp_message response in
      lk_route decoded = RouteProtectedManagement \<and>
      ud_source response = device_logical_address \<and> ud_destination response = core_logical_address \<and>
      ud_source_port response = management_port \<and> ud_destination_port response = management_port \<and>
      64 \<le> cm_code message \<and> cm_code message < 192 \<and> length (cm_token message) \<le> 8 \<and>
      ex_token (pr_exchange_id prepared) = cm_token message \<and>
      (cm_type message = 0 \<or> cm_type message = 1 \<or>
       cm_type message = 2 \<and> ex_message_id (pr_exchange_id prepared) = cm_message_id message) \<and>
      code = cm_code message \<and>
      exchange = \<lparr>me_payload = cm_payload message, me_request_report = pr_report prepared,
        me_response_report = lk_report decoded\<rparr>)"
proof -
  have code: "drop_bit 5 c < 2 \<longleftrightarrow> c < 64" "5 < drop_bit 5 c \<longleftrightarrow> 192 \<le> c" for c :: nat
    by (auto simp: drop_bit_eq_div)
  show ?thesis
    by (auto simp: validate_management_response_def Let_def attempt_Inr_iff exchange_from_message_def
        exchange_new_def coap_token_new_def max_coap_token_len_def matches_response_def coap_types code not_less
        split: if_splits)
qed

text \<open>Generated tokens do not repeat: the eight-byte tokens of any run of at most 2^64 requests
  are pairwise different, whatever the counter started from.\<close>

theorem generated_tokens_distinct:
  assumes "n \<le> 2 ^ 64"
  shows "distinct (generated_tokens n c) \<and> list_all (\<lambda>t. coap_token_new t = Inr t \<and> length t = 8) (generated_tokens n c)"
proof -
  have "inj_on (\<lambda>i. be_bytes 8 (unat (c + of_nat i))) {0..<n}"
  proof (rule inj_onI)
    fix i j assume ij: "i \<in> {0..<n}" "j \<in> {0..<n}"
      and eq: "be_bytes 8 (unat (c + of_nat i)) = be_bytes 8 (unat (c + of_nat j))"
    have b: "unat (w :: u64) < 256 ^ 8" for w using unsigned_less [of w, where 'a = nat] by simp
    have "unat (c + of_nat i) = unat (c + of_nat j)"
      using eq be_bytes_inject [OF b b] by blast
    then have "c + of_nat i = c + of_nat j" by (rule unsigned_word_eqI)
    then have "(of_nat i :: u64) = of_nat j" by simp
    with ij assms show "i = j" by (simp add: of_nat_u64_inject)
  qed
  then show ?thesis
    by (simp add: generated_tokens_eq distinct_map list_all_iff coap_token_new_def max_coap_token_len_def
        del: be_bytes.simps)
qed

lemma generated_tokens_distinct_witness: "distinct (generated_tokens 3 18446744073709551615)"
  using generated_tokens_distinct [of 3 18446744073709551615] by simp

text \<open>The one-way path is told apart from the others. Every packet the duplicate builder makes has
  the duplicate-rule shape, and no request built by the other commands has it.\<close>

theorem duplicate_shape_separates:
  "is_duplicate_rule_coap_shape (duplicate_rule_packet payload message_id) \<and>
   \<not> is_duplicate_rule_coap_shape (add_option n v (base_request m message_id)) \<and>
   \<not> is_duplicate_rule_coap_shape ((base_request m message_id)\<lparr>lp_payload := payload\<rparr>)"
  by (simp add: is_duplicate_rule_coap_shape_def duplicate_rule_packet_def base_request_def add_option_def
      get_option_def option_numbers)

end
