(* ===== verification/Updates.thy ===== *)
theory Updates
  imports Exchange
begin

text \<open>
  A targeted update on its way from the operator to the wire (\<open>src/management.rs\<close>): the
  resolution of a request against the local tree, and the iPATCH message that carries it.
\<close>

subsection \<open>Resolution against the tree\<close>

record resolved_update =
  up_request :: rule_update_request
  up_entry_index :: nat
  up_target_index :: nat
  up_path :: instance_path
  up_value :: json

text \<open>The tree keys of the leaves, in the order in which the code looks them up.\<close>

record update_keys =
  k_root :: string
  k_rule :: string
  k_entry :: string
  k_target :: string
  k_rule_value :: string
  k_rule_length :: string
  k_entry_index :: string
  k_target_index :: string
  k_target_value :: string

definition update_keys_of :: "coreconf_model \<Rightarrow> model_sids \<Rightarrow> inspection_error + update_keys" where
  "update_keys_of model s =
     attempt (try_all (tree_key_for_sid model)
       [sid_root s, sid_rule s, sid_entry s, sid_target s, sid_rule_id_value s, sid_rule_id_length s,
        sid_entry_index s, sid_target_index s, sid_target_value s]) (\<lambda>ks.
       Inr \<lparr>k_root = ks ! 0, k_rule = ks ! 1, k_entry = ks ! 2, k_target = ks ! 3, k_rule_value = ks ! 4,
            k_rule_length = ks ! 5, k_entry_index = ks ! 6, k_target_index = ks ! 7, k_target_value = ks ! 8\<rparr>)"

definition select_rule :: "update_keys \<Rightarrow> json \<Rightarrow> rule_selector \<Rightarrow> inspection_error + json" where
  "select_rule k tree sel =
     attempt (ok_or (InvalidTarget ''complete tree is missing the SCHC root'')
       (Option.bind (get_key tree (k_root k)) as_object)) (\<lambda>root.
     attempt (ok_or (InvalidTarget ''complete tree is missing the rule list'')
       (Option.bind (map_of root (k_rule k)) as_array)) (\<lambda>rules.
     let ms = filter (tree_rule_is (k_rule_value k) (k_rule_length k) sel) rules in
     case ms of
       [] \<Rightarrow> Inl (MissingRule (rs_value sel) (rs_bits sel))
     | [r] \<Rightarrow> Inr r
     | _ \<Rightarrow> Inl (AmbiguousRule (rs_value sel) (rs_bits sel) (length ms))))"

definition select_entry :: "update_keys \<Rightarrow> json \<Rightarrow> rule_selector \<Rightarrow> nat \<Rightarrow> inspection_error + json" where
  "select_entry k r sel entry_index =
     attempt (ok_or (InvalidTarget ''selected rule is missing the entry list'')
       (Option.bind (get_key r (k_entry k)) as_array)) (\<lambda>entries.
     case filter (\<lambda>e. get_u64 e (k_entry_index k) = Some entry_index) entries of
       [] \<Rightarrow> Inl (MissingEntry sel (''entry='' @ show_nat entry_index))
     | [e] \<Rightarrow> Inr e
     | _ \<Rightarrow> Inl (InvalidTarget (''entry '' @ show_nat entry_index @ '' occurs more than once in RuleID ''
              @ show_selector sel)))"

definition select_target :: "update_keys \<Rightarrow> json \<Rightarrow> nat \<Rightarrow> inspection_error + nat \<times> json" where
  "select_target k e entry_index =
     attempt (ok_or (InvalidTarget (''entry '' @ show_nat entry_index @ '' is missing its target-value list''))
       (Option.bind (get_key e (k_target k)) as_array)) (\<lambda>targets.
     case targets of
       [t] \<Rightarrow>
         attempt (ok_or (InvalidTarget ''target-value member has no numeric index'')
           (Option.bind (get_key t (k_target_index k)) (bounded_u64 usize_bound))) (\<lambda>i.
         attempt (ok_or (InvalidTarget ''target-value member has no value'') (get_key t (k_target_value k))) (\<lambda>v.
           Inr (i, v)))
     | _ \<Rightarrow> Inl (InvalidTarget (''entry '' @ show_nat entry_index @ '' target-value list has ''
              @ show_nat (length targets) @ '' members; exactly one is required'')))"

definition update_from_request ::
  "'x management_ext_scheme \<Rightarrow> rule_update_request \<Rightarrow> nat \<Rightarrow> json \<Rightarrow> coreconf_model
    \<Rightarrow> inspection_error + resolved_update" where
  "update_from_request x request entry_index tree model =
     attempt (validate_update_model_shape model) (\<lambda>s.
     attempt (update_keys_of model s) (\<lambda>k.
     attempt (select_rule k tree (ru_rule request)) (\<lambda>r.
     attempt (select_entry k r (ru_rule request) entry_index) (\<lambda>e.
     attempt (select_target k e entry_index) (\<lambda>(target_index, current_value).
     attempt (ok_or (InvalidTarget ''target-value/value SID is unavailable'')
       (get_identifier model (sid_target_value s))) (\<lambda>value_path.
     attempt (map_err (\<lambda>e. InvalidTarget (''current target value is invalid: '' @ e))
       (identifier_to_sid_at model current_value value_path)) (\<lambda>current_wire.
     attempt (binary_bytes current_wire) (\<lambda>current.
     attempt (tree_key_for_sid model (sid_field_length s)) (\<lambda>length_key.
     attempt (ok_or (InvalidTarget ''selected entry has no field-length'') (get_key e length_key)) (\<lambda>field_length.
     attempt (numeric_target_value (ru_target_value request) current field_length) (\<lambda>replacement.
     attempt (map_err (\<lambda>e. InvalidTarget (''replacement target value is invalid: '' @ e))
       (sid_to_identifier_at model replacement value_path)) (\<lambda>_.
     attempt (target_value_path x s (ru_rule request) entry_index target_index) (\<lambda>path.
       Inr \<lparr>up_request = request, up_entry_index = entry_index, up_target_index = target_index,
            up_path = path, up_value = replacement\<rparr>)))))))))))))"

definition resolve_target_value ::
  "'x management_ext_scheme \<Rightarrow> rule_update_request \<Rightarrow> rule_detail \<Rightarrow> json \<Rightarrow> coreconf_model
    \<Rightarrow> inspection_error + resolved_update" where
  "resolve_target_value x request detail tree model =
     attempt (resolve_request_entry request detail) (\<lambda>i. update_from_request x request i tree model)"

subsection \<open>The message\<close>

text \<open>
  A JSON number always has one of the three representations, so the error of the code for an
  invalid number cannot occur and the conversion is total.
\<close>

fun serde_value_to_cbor :: "json \<Rightarrow> cbor" where
  "serde_value_to_cbor JNull = CNull"
| "serde_value_to_cbor (JBool b) = CBool b"
| "serde_value_to_cbor (JNumber (PosInt n)) = CInteger (int n)"
| "serde_value_to_cbor (JNumber (NegInt i)) = CInteger i"
| "serde_value_to_cbor (JNumber (Float w)) = CFloat w"
| "serde_value_to_cbor (JString s) = CText s"
| "serde_value_to_cbor (JArray vs) = CArray (map serde_value_to_cbor vs)"
| "serde_value_to_cbor (JObject es) = CMap (map (\<lambda>(k, v). (CText k, serde_value_to_cbor v)) es)"

definition update_instance :: "resolved_update \<Rightarrow> path_instance" where
  "update_instance u = \<lparr>in_path = up_path u, in_value = Some (up_value u)\<rparr>"

definition ipatch_payload :: "'x management_ext_scheme \<Rightarrow> resolved_update \<Rightarrow> inspection_error + bytes" where
  "ipatch_payload x u =
     attempt (binary_bytes (up_value u)) (\<lambda>bs.
       map_err (\<lambda>e. InvalidTarget (''iPATCH instance encoding failed: '' @ e))
         (into_writer x (CMap [(serde_value_to_cbor (path_to_value x (up_path u)), CBytes bs)])))"

definition ipatch_request :: "'x management_ext_scheme \<Rightarrow> resolved_update \<Rightarrow> inspection_error + coreconf_request" where
  "ipatch_request x u =
     (if ru_if_match (up_request u) then
        Inl (InvalidTarget ''--if-match requires the CoAP ipatch_datagram builder'')
      else
      attempt (ipatch_payload x u) (\<lambda>payload.
        Inr \<lparr>cq_management = True, cq_path = [], cq_content_format = Some YangInstancesCborSeq,
             cq_raw_content_format = Some 142, cq_payload = payload\<rparr>))"

definition ipatch_packet ::
  "'x management_ext_scheme \<Rightarrow> resolved_update \<Rightarrow> nat \<Rightarrow> bytes option \<Rightarrow> inspection_error + lite_packet" where
  "ipatch_packet x u message_id base_tag =
     (if ru_if_match (up_request u) \<and> base_tag = None then
        Inl (InvalidTarget ''--if-match requires a base context tag'')
      else if \<not> ru_if_match (up_request u) \<and> base_tag \<noteq> None then
        Inl (InvalidTarget ''a base context tag requires --if-match'')
      else
        let packet = add_option opt_content_format [142] (base_request MIPatch message_id) in
        attempt (ipatch_payload x u) (\<lambda>payload.
        let packet' = packet\<lparr>lp_payload := payload\<rparr> in
        Inr (case base_tag of None \<Rightarrow> packet' | Some tag \<Rightarrow> add_option opt_if_match tag packet')))"

definition ipatch_datagram ::
  "'x management_ext_scheme \<Rightarrow> resolved_update \<Rightarrow> nat \<Rightarrow> bytes option \<Rightarrow> inspection_error + bytes" where
  "ipatch_datagram x u message_id base_tag =
     attempt (ipatch_packet x u message_id base_tag) (\<lambda>packet. map_err CoapError (lite_to_bytes x packet))"

text \<open>The device reads the precondition of a message with \<open>parse_if_match_option\<close>.\<close>

definition parse_if_match_option :: "lite_packet \<Rightarrow> patch_failure + bytes option" where
  "parse_if_match_option packet =
     (case get_option packet opt_if_match of
        None \<Rightarrow> Inr None
      | Some [tag] \<Rightarrow>
          if length tag \<noteq> context_tag_len then
            Inl (patch_bad (''If-Match option must contain exactly '' @ show_nat context_tag_len @ '' bytes''))
          else Inr (Some tag)
      | Some _ \<Rightarrow> Inl (patch_bad ''targeted iPATCH must contain zero or one If-Match option''))"

subsection \<open>Lemmas\<close>

lemma select_target_bound:
  assumes "select_target k e entry_index = Inr t"
  shows "fst t < usize_bound"
proof -
  obtain targets where "(case targets of
      [t] \<Rightarrow>
        attempt (ok_or (InvalidTarget ''target-value member has no numeric index'')
          (Option.bind (get_key t (k_target_index k)) (bounded_u64 usize_bound))) (\<lambda>i.
        attempt (ok_or (InvalidTarget ''target-value member has no value'') (get_key t (k_target_value k))) (\<lambda>v.
          Inr (i, v)))
    | _ \<Rightarrow> Inl (InvalidTarget (''entry '' @ show_nat entry_index @ '' target-value list has ''
             @ show_nat (length targets) @ '' members; exactly one is required''))) = Inr t"
    using assms unfolding select_target_def attempt_Inr_iff by blast
  then show ?thesis
    by (cases targets; cases "tl targets")
      (auto simp: attempt_Inr_iff ok_or_Inr_iff bounded_u64_def bind_eq_Some_conv split: if_splits)
qed

text \<open>The bytes that the tree holds at present for the target of a resolved update: the only member of the
  target list of the entry, in the rule of the request.\<close>

definition current_target :: "coreconf_model \<Rightarrow> json \<Rightarrow> resolved_update \<Rightarrow> inspection_error + bytes" where
  "current_target model tree u =
     attempt (validate_update_model_shape model) (\<lambda>s.
     attempt (update_keys_of model s) (\<lambda>k.
     attempt (select_rule k tree (ru_rule (up_request u))) (\<lambda>r.
     attempt (select_entry k r (ru_rule (up_request u)) (up_entry_index u)) (\<lambda>e.
     attempt (select_target k e (up_entry_index u)) (\<lambda>(_, v).
     attempt (ok_or (InvalidTarget []) (get_identifier model (sid_target_value s))) (\<lambda>path.
     attempt (map_err InvalidTarget (identifier_to_sid_at model v path)) binary_bytes))))))"

lemma update_from_request_Inr:
  assumes "update_from_request x request entry_index tree model = Inr u"
  obtains s current field_length where "current_target model tree u = Inr current" and "validate_update_model_shape model = Inr s"
    and "numeric_target_value (ru_target_value request) current field_length = Inr (up_value u)"
    and "target_value_path x s (ru_rule request) entry_index (up_target_index u) = Inr (up_path u)"
    and "up_request u = request" and "up_entry_index u = entry_index" and "up_target_index u < usize_bound"
proof -
  obtain s k r e t value_path wire current field_length replacement path where s: "validate_update_model_shape model = Inr s"
    and k: "update_keys_of model s = Inr k" and r: "select_rule k tree (ru_rule request) = Inr r"
    and e: "select_entry k r (ru_rule request) entry_index = Inr e"
    and w: "get_identifier model (sid_target_value s) = Some value_path"
      "identifier_to_sid_at model (snd t) value_path = Inr wire" "binary_bytes wire = Inr current"
    and t: "select_target k e entry_index = Inr t"
    and v: "numeric_target_value (ru_target_value request) current field_length = Inr replacement"
    and p: "target_value_path x s (ru_rule request) entry_index (fst t) = Inr path"
    and u: "u = \<lparr>up_request = request, up_entry_index = entry_index, up_target_index = fst t,
            up_path = path, up_value = replacement\<rparr>"
    using assms unfolding update_from_request_def attempt_Inr_iff
    by (auto simp: attempt_Inr_iff ok_or_Inr_iff map_err_Inr_iff)
  have "current_target model tree u = Inr current"
    by (simp add: current_target_def u s k r e t w case_prod_beta)
  moreover have "fst t < usize_bound" using t by (rule select_target_bound)
  ultimately show thesis using s v p by (intro that [of current s field_length]) (simp_all add: u)
qed

lemma base_request_options [simp]: "lp_options (base_request m i) = [(opt_uri_path, [schc_segment])]"
  by (simp add: base_request_def add_option_def)

subsection \<open>Properties\<close>

text \<open>C24: Console and device agree on what an update addresses. The instance of a resolved update, read
  by the device over the same model, is a patch of the requested rule with the update's path and
  value; and that value is the operator's number in as many bytes as the tree holds for the target at
  present.\<close>

theorem update_reaches_device:
  assumes "update_from_request x request entry_index tree model = Inr u" and "push_delta_ok x"
    and "valid_selector (ru_rule request)" and "entry_index < usize_bound"
  shows "\<exists>s bs. validate_update_model_shape model = Inr s \<and>
    target_patch_from_instance x (update_instance u) s
      = Inr \<lparr>tp_selector = ru_rule request, tp_path = up_path u, tp_value = up_value u\<rparr> \<and>
    binary_bytes (up_value u) = Inr bs \<and> be_nat bs = decimal (ru_target_value request) \<and>
    (\<exists>current. current_target model tree u = Inr current \<and> length bs = length current)"
proof -
  obtain s current field_length where c: "current_target model tree u = Inr current" and s: "validate_update_model_shape model = Inr s"
    and v: "numeric_target_value (ru_target_value request) current field_length = Inr (up_value u)"
    and p: "target_value_path x s (ru_rule request) entry_index (up_target_index u) = Inr (up_path u)"
    and t: "up_target_index u < usize_bound"
    using assms(1) by (rule update_from_request_Inr)
  have "rs_value (ru_rule request) < u64_bound"
    using assms(3) valid_selector_bounds by blast
  then have "selector_new (rs_value (ru_rule request)) (rs_bits (ru_rule request)) = Inr (ru_rule request)"
    using assms(3) by (simp add: selector_new_Inr_iff valid_selector_def)
  from target_patch_of_path [OF assms(2) p this assms(4) t, of "up_value u"]
  have "target_patch_from_instance x (update_instance u) s
      = Inr \<lparr>tp_selector = ru_rule request, tp_path = up_path u, tp_value = up_value u\<rparr>"
    by (simp add: update_instance_def)
  moreover have "\<exists>bs. binary_bytes (up_value u) = Inr bs \<and> be_nat bs = decimal (ru_target_value request)
      \<and> length bs = length current"
    using v unfolding numeric_target_value_Inr_iff
    by (intro exI [of _ "be_bytes (length current) (decimal (ru_target_value request))"])
      (simp add: be_nat_be_bytes)
  ultimately show ?thesis using s c by blast
qed

text \<open>The precondition of an update survives the message. The packet of an update carries exactly
  the base tag it was built with: the device reads that tag from it, or no precondition when there
  was none, and a tag is present exactly when the command asked for one.\<close>

theorem if_match_roundtrip:
  assumes "ipatch_packet x u message_id base_tag = Inr packet" and "case base_tag of None \<Rightarrow> True | Some t \<Rightarrow> length t = 8"
  shows "parse_if_match_option packet = Inr base_tag \<and> (base_tag \<noteq> None \<longleftrightarrow> ru_if_match (up_request u)) \<and>
    lp_code packet = LiteRequest MIPatch \<and> lp_type packet = Confirmable \<and> lp_message_id packet = message_id \<and>
    get_option packet opt_uri_path = Some [schc_segment] \<and> get_option packet opt_content_format = Some [[142]]"
proof -
  obtain payload where "packet = (case base_tag of
      None \<Rightarrow> (add_option opt_content_format [142] (base_request MIPatch message_id))\<lparr>lp_payload := payload\<rparr>
    | Some tag \<Rightarrow> add_option opt_if_match tag
        ((add_option opt_content_format [142] (base_request MIPatch message_id))\<lparr>lp_payload := payload\<rparr>))"
    and "base_tag \<noteq> None \<longleftrightarrow> ru_if_match (up_request u)"
    using assms(1) by (auto simp: ipatch_packet_def attempt_Inr_iff Let_def split: if_splits)
  then show ?thesis
    using assms(2) by (auto simp: base_request_def add_option_def get_option_def option_numbers
        parse_if_match_option_def context_tag_len_def split: option.splits)
qed

definition upd_model :: coreconf_model where
  "upd_model = dup_model\<lparr>get_keys := map_of [(2, [4, 3]), (5, [6]), (8, [9])],
     identifier_to_sid_at := (\<lambda>v _. Inr v), sid_to_identifier_at := (\<lambda>v _. Inr v)\<rparr>"

lemma upd_resolve [simp]: "resolve_sids upd_model = Inr demo_sids"
proof -
  have "resolve_sid upd_model = resolve_sid dup_model"
    by (intro ext) (simp add: resolve_sid_def upd_model_def)
  then show ?thesis using dup_resolve by (simp add: resolve_sids_def)
qed

lemma upd_model_simps [simp]:
  "get_identifier upd_model i = get_identifier dup_model i"
  "identifier_to_sid_at upd_model v p = Inr v" "sid_to_identifier_at upd_model v p = Inr v"
  "get_keys upd_model = map_of [(2, [4, 3]), (5, [6]), (8, [9])]"
  by (simp_all add: upd_model_def)

lemma more_demo_sids [simp]:
  "sid_entry_index demo_sids = 6" "sid_field_length demo_sids = 7" "sid_target_index demo_sids = 9"
  by (simp_all add: demo_sids_def sids_of_list_def)

lemma upd_shape [simp]: "validate_update_model_shape upd_model = Inr demo_sids"
  by (simp add: validate_update_model_shape_def require_list_keys_def)

definition upd_tree :: json where
  "upd_tree = JObject [(''ietf-schc:schc'', JObject [(''rule'', JArray
     [JObject [(''entry-universal'', JArray
        [JObject [(''entry-index'', json_nat 4), (''field-length'', json_nat 16),
           (''target-value'', JArray [JObject [(''index'', json_nat 0),
              (''value'', JArray [json_byte 22, json_byte 51])]])]]),
        (''rule-id-length'', json_nat 3), (''rule-id-value'', json_nat 5)]])])]"

definition upd_request :: rule_update_request where
  "upd_request = \<lparr>ru_rule = selector 5 3, ru_entry = EntryIndex 4, ru_target_value = show_nat 300, ru_if_match = True\<rparr>"

lemma upd_keys: "update_keys_of upd_model demo_sids = Inr
   \<lparr>k_root = ''ietf-schc:schc'', k_rule = ''rule'', k_entry = ''entry-universal'', k_target = ''target-value'',
    k_rule_value = ''rule-id-value'', k_rule_length = ''rule-id-length'', k_entry_index = ''entry-index'',
    k_target_index = ''index'', k_target_value = ''value''\<rparr>"
  by (simp add: update_keys_of_def tree_key_for_sid_def dup_identifier last_segment_def sid_paths_def Let_def)

lemma demo_bytes_300: "numeric_target_value (show_nat 300) [22, 51] (json_nat 16)
    = Inr (JArray (map json_byte (be_bytes 2 300)))"
proof -
  have "length [22, 51 :: byte] = 2" by simp
  then show ?thesis
    unfolding numeric_target_value_Inr_iff by (simp add: u64_bound_def usize_bound_def del: be_bytes.simps list.size)
qed

lemma binary_bytes_pair: "binary_bytes (JArray [json_byte a, json_byte b]) = Inr [a, b]"
  using binary_bytes_json [of "[a, b]"] by simp

definition upd_update :: resolved_update where
  "upd_update =
     \<lparr>up_request = upd_request, up_entry_index = 4, up_target_index = 0,
      up_path = [SidDelta 1, SidDelta 1, KeyValue (json_nat 5), KeyValue (json_nat 3), SidDelta 3,
        KeyValue (json_nat 4), SidDelta 3, KeyValue (json_nat 0), SidDelta 2],
      up_value = JArray (map json_byte (be_bytes 2 300))\<rparr>"

lemma upd_resolved: "update_from_request demo_mgmt upd_request 4 upd_tree upd_model = Inr upd_update"
proof -
  have l: "tree_key_for_sid upd_model 7 = Inr ''field-length''"
    by (simp add: tree_key_for_sid_def dup_identifier last_segment_def sid_paths_def Let_def)
  have p: "get_identifier dup_model 10 = Some (sid_paths ! 9)" by (simp add: dup_identifier)
  show ?thesis
    unfolding update_from_request_def upd_update_def
    by (simp add: upd_keys upd_tree_def upd_request_def select_rule_def select_entry_def select_target_def
        tree_rule_is_def bounded_u64_def usize_bound_def l p binary_bytes_pair demo_bytes_300
        target_value_path_def push_sid_def Let_def del: be_bytes.simps list.map)
qed

lemma update_reaches_device_witness:
  "\<exists>s. target_patch_from_instance demo_mgmt (update_instance upd_update) s
    = Inr \<lparr>tp_selector = selector 5 3, tp_path = up_path upd_update, tp_value = up_value upd_update\<rparr>"
proof -
  have "valid_selector (ru_rule upd_request)" by (simp add: upd_request_def valid_selector_def)
  from update_reaches_device [OF upd_resolved demo_push_delta_ok this] show ?thesis
    by (auto simp: usize_bound_def upd_request_def)
qed

lemma if_match_roundtrip_witness:
  "\<exists>packet. ipatch_packet demo_mgmt upd_update 7 (Some [1, 2, 3, 4, 5, 6, 7, 8]) = Inr packet \<and>
     parse_if_match_option packet = Inr (Some [1, 2, 3, 4, 5, 6, 7, 8])"
proof -
  have "into_writer demo_mgmt v = into_writer demo_ext v" for v
    by (simp add: demo_mgmt_def demo_net_def context_ext.defs packet_ext.defs management_ext.defs)
  then obtain packet where p: "ipatch_packet demo_mgmt upd_update 7 (Some [1, 2, 3, 4, 5, 6, 7, 8]) = Inr packet"
    by (simp add: ipatch_packet_def ipatch_payload_def upd_update_def upd_request_def Let_def del: be_bytes.simps)
  from if_match_roundtrip [OF this] p show ?thesis by simp
qed

end
