(* ===== verification/Device.thy ===== *)
theory Device
  imports Updates
begin

text \<open>
  The management service of the device (\<open>InspectionService\<close> of \<open>src/management.rs\<close>): the
  dispatch of a CoAP datagram, the context check, the one-way duplicate and the targeted iPATCH.
  The two mutations run under the writer lock from the snapshot they read to the publication, so
  each is one function from the active context to the active context.
\<close>

subsection \<open>The service\<close>

record inspection_service =
  is_active :: active_context
  is_model :: coreconf_model
  is_registry :: sid_registry

text \<open>\<open>with_backend\<close> is the library's check of the context as a datastore backend.\<close>

definition service_new ::
  "'x context_ext_scheme \<Rightarrow> (coreconf_model \<Rightarrow> active_context \<Rightarrow> string + unit) \<Rightarrow> active_context
    \<Rightarrow> inspection_error + inspection_service" where
  "service_new x with_backend a =
     attempt (map_err DatastoreError (model_from_sid_str x (rc_sid_json (ac_recipe a)))) (\<lambda>model.
     attempt (map_err DatastoreError (registry_from_json_str x (rc_sid_json (ac_recipe a)))) (\<lambda>registry.
     attempt (map_err DatastoreError (with_backend model a)) (\<lambda>_.
       Inr \<lparr>is_active = a, is_model = model, is_registry = registry\<rparr>)))"

record context_status =
  st_generation :: nat
  st_tag :: bytes
  st_rule_count :: nat
  st_guard :: "guard_period option"

definition status_from_snapshot :: "context_snapshot \<Rightarrow> context_status" where
  "status_from_snapshot s =
     \<lparr>st_generation = sn_generation s, st_tag = cd_tag (sn_data s),
      st_rule_count = length (cd_rules (sn_data s)), st_guard = cd_guard (sn_data s)\<rparr>"

definition resolve_update_entry ::
  "'x management_ext_scheme \<Rightarrow> active_context \<Rightarrow> rule_update_request \<Rightarrow> inspection_error + nat" where
  "resolve_update_entry x a request =
     attempt (detail_from_snapshot (nature_as_str x) (ac_snapshot a) (ru_rule request)) (resolve_request_entry request)"

subsection \<open>Publication\<close>

text \<open>
  What an operation answers, or the panic of the generation counter. A failed operation leaves the
  active context as it was.
\<close>

datatype 'r outcome = Answered 'r | CounterPanic

text \<open>The part common to both mutations: prepare, validate against the snapshot, publish.\<close>

definition prepare_candidate ::
  "'x context_ext_scheme \<Rightarrow> active_context \<Rightarrow> json \<Rightarrow> context_error + prepared_context" where
  "prepare_candidate x a tree =
     attempt (from_tree_for_recipe x (ac_recipe a) tree) (\<lambda>p.
     attempt (validate_candidate x a (ac_snapshot a) p) (\<lambda>_. Inr p))"

definition publish_and ::
  "active_context \<Rightarrow> prepared_context \<Rightarrow> (active_context \<Rightarrow> 'r) \<Rightarrow> active_context \<times> 'r outcome" where
  "publish_and a p f =
     (case publish_locked a p of None \<Rightarrow> (a, CounterPanic) | Some a' \<Rightarrow> (a', Answered (f a')))"

subsection \<open>The duplicate operation\<close>

datatype duplicate_result = Applied nat bytes | Idempotent nat bytes

definition duplicate_candidate ::
  "'x flow_ext_scheme \<Rightarrow> coreconf_model \<Rightarrow> active_context \<Rightarrow> duplicate_operation
    \<Rightarrow> inspection_error + prepared_context \<times> json \<times> rule option" where
  "duplicate_candidate x model a operation =
     (let snapshot = ac_snapshot a; destination = dr_destination (op_request operation) in
      attempt (expected_duplicate_tree x model snapshot (op_request operation) (op_instances operation)) (\<lambda>expected.
      let existing = List.find (\<lambda>r. rule_id_of r = selector_id destination) (cd_rules (sn_data snapshot)) in
      if (case sn_dynamic snapshot of None \<Rightarrow> False
          | Some ns \<Rightarrow> existing = None \<and> \<not> accepts ns (selector_id destination)) then
        Inl (invalid_duplicate (''new duplicate destination '' @ show_selector destination
          @ '' is outside the configured dynamic RuleID namespace''))
      else
      attempt (find_tree_rule expected model destination) (\<lambda>found.
      attempt (ok_or (invalid_duplicate ''constructed destination rule is missing'') found) (\<lambda>expected_rule.
      attempt (map_err (\<lambda>e. InvalidUpdate (show_context_error e)) (prepare_candidate x a expected)) (\<lambda>p.
        Inr (p, expected_rule, existing))))))"

definition apply_duplicate_operation ::
  "'x flow_ext_scheme \<Rightarrow> coreconf_model \<Rightarrow> active_context \<Rightarrow> duplicate_operation
    \<Rightarrow> active_context \<times> (inspection_error + duplicate_result) outcome" where
  "apply_duplicate_operation x model a operation =
     (let destination = dr_destination (op_request operation) in
      case duplicate_candidate x model a operation of
        Inl e \<Rightarrow> (a, Answered (Inl e))
      | Inr (p, expected_rule, existing) \<Rightarrow>
          if existing \<noteq> None then
            (a, Answered (
              attempt (find_tree_rule (cd_tree (active_data a)) model destination) (\<lambda>found.
              attempt (ok_or (invalid_duplicate ''existing destination rule is missing'') found) (\<lambda>existing_rule.
              if existing_rule \<noteq> expected_rule then
                Inl (InvalidUpdate (''duplicate destination '' @ show_selector destination
                  @ '' already exists with different contents''))
              else Inr (Idempotent (active_generation a) (cd_tag (active_data a)))))))
          else publish_and a p (\<lambda>a'. Inr (Applied (active_generation a') (cd_tag (active_data a')))))"

subsection \<open>The targeted iPATCH\<close>

definition conflict_of :: "string + 'a \<Rightarrow> patch_failure + 'a" where
  "conflict_of = map_err patch_conflict"

definition conflict_of_error :: "inspection_error + 'a \<Rightarrow> patch_failure + 'a" where
  "conflict_of_error = map_err (\<lambda>e. patch_conflict (show_inspection_error e))"

definition decode_target_ipatch ::
  "'x management_ext_scheme \<Rightarrow> coreconf_model \<Rightarrow> coreconf_request \<Rightarrow> patch_failure + model_sids \<times> target_patch" where
  "decode_target_ipatch x model request =
     (if \<not> cq_management request \<or> cq_path request \<noteq> [] then
        Inl (patch_bad ''targeted iPATCH must address the management root'')
      else if cq_content_format request \<noteq> Some YangInstancesCborSeq \<or> cq_raw_content_format request \<noteq> Some 142 then
        Inl (patch_bad ''targeted iPATCH requires content format 142 (yang-instances+cbor-seq)'')
      else if cq_payload request = [] then
        Inl (patch_bad ''targeted iPATCH payload must contain one replacement'')
      else
      attempt (map_err (\<lambda>e. patch_internal (show_inspection_error e)) (validate_update_model_shape model)) (\<lambda>s.
      attempt (map_err (\<lambda>e. patch_bad (''invalid iPATCH payload: '' @ e))
        (decode_instances x model (cq_payload request))) (\<lambda>instances.
      case instances of
        [i] \<Rightarrow> attempt (target_patch_from_instance x i s) (\<lambda>t. Inr (s, t))
      | _ \<Rightarrow> Inl (patch_bad (''targeted iPATCH must contain exactly one operation, got ''
               @ show_nat (length instances))))))"

text \<open>The checks on the addressed rule, in the code's order.\<close>

definition check_target_rule ::
  "context_snapshot \<Rightarrow> target_patch \<Rightarrow> bytes option \<Rightarrow> patch_failure + unit" where
  "check_target_rule snapshot t if_match =
     (if (case if_match of None \<Rightarrow> False | Some tag \<Rightarrow> tag \<noteq> cd_tag (sn_data snapshot)) then
        Inl (patch_precondition ''If-Match context tag does not match the current context'')
      else if protected_contains (cd_protected (sn_data snapshot)) (selector_id (tp_selector t)) then
        Inl (patch_conflict (''RuleID '' @ show_selector (tp_selector t) @ '' is protected and immutable''))
      else if \<not> list_ex (\<lambda>r. rule_id_of r = selector_id (tp_selector t)) (cd_rules (sn_data snapshot)) then
        Inl (patch_conflict (''RuleID '' @ show_selector (tp_selector t) @ '' does not exist''))
      else Inr ())"

definition entry_field_length ::
  "'x management_ext_scheme \<Rightarrow> coreconf_model \<Rightarrow> model_sids \<Rightarrow> datastore \<Rightarrow> json list \<Rightarrow> patch_failure + nat" where
  "entry_field_length x model s ds keys =
     attempt (conflict_of (create_xpath x ds (sid_entry s) (take 3 keys))) (\<lambda>entry_xpath.
     attempt (conflict_of (get_path x ds entry_xpath)) (\<lambda>found.
     attempt (ok_or (patch_conflict ''target entry does not exist'') found) (\<lambda>entry.
     attempt (conflict_of_error (tree_key_for_sid model (sid_field_length s))) (\<lambda>key.
       ok_or (patch_conflict ''target entry has no numeric field-length'') (get_u64 entry key)))))"

definition replacement_value ::
  "coreconf_model \<Rightarrow> string \<Rightarrow> target_patch \<Rightarrow> bytes \<Rightarrow> nat \<Rightarrow> patch_failure + json" where
  "replacement_value model canonical_path t current field_length =
     (if \<not> binary_fits_field_length current field_length \<or> field_length = 0 then
        Inl (patch_conflict (''existing target value does not fit field length '' @ show_nat field_length))
      else
      attempt (conflict_of (sid_to_identifier_at model (tp_value t) canonical_path)) (\<lambda>replacement.
      attempt (conflict_of (identifier_to_sid_at model replacement canonical_path)) (\<lambda>wire.
      attempt (conflict_of_error (binary_bytes wire)) (\<lambda>bs.
      if length bs \<noteq> length current then
        Inl (patch_conflict (''target-value replacement has '' @ show_nat (length bs) @ '' bytes, expected ''
          @ show_nat (length current)))
      else if \<not> binary_fits_field_length bs field_length then
        Inl (patch_conflict (''target-value replacement does not fit field length '' @ show_nat field_length))
      else Inr replacement))))"

definition patched_tree ::
  "'x management_ext_scheme \<Rightarrow> coreconf_model \<Rightarrow> model_sids \<Rightarrow> context_snapshot \<Rightarrow> target_patch
    \<Rightarrow> patch_failure + json" where
  "patched_tree x model s snapshot t =
     attempt (map_err (\<lambda>e. patch_conflict (''candidate datastore rejected the active tree: '' @ e))
       (datastore_with_data x model (cd_tree (sn_data snapshot)))) (\<lambda>ds.
     let keys = path_keys (tp_path t) in
     attempt (ok_or (patch_bad ''targeted iPATCH path has no target-value leaf SID'')
       (absolute_sid x (tp_path t))) (\<lambda>sid.
     attempt (conflict_of (create_xpath x ds sid keys)) (\<lambda>xpath.
     attempt (conflict_of (predicate_path x xpath)) (\<lambda>canonical_path.
     attempt (conflict_of (get_path x ds xpath)) (\<lambda>found.
     attempt (ok_or (patch_conflict ''target-value leaf does not exist'') found) (\<lambda>current_value.
     attempt (conflict_of (identifier_to_sid_at model current_value canonical_path)) (\<lambda>current_wire.
     attempt (conflict_of_error (binary_bytes current_wire)) (\<lambda>current.
     attempt (entry_field_length x model s ds keys) (\<lambda>field_length.
     attempt (replacement_value model canonical_path t current field_length) (\<lambda>replacement.
     attempt (conflict_of (set_path x ds xpath replacement)) (\<lambda>ds'.
       Inr (get_all x ds'))))))))))))"

definition ipatch_candidate ::
  "'x management_ext_scheme \<Rightarrow> coreconf_model \<Rightarrow> active_context \<Rightarrow> coreconf_request \<Rightarrow> bytes option
    \<Rightarrow> patch_failure + prepared_context" where
  "ipatch_candidate x model a request if_match =
     attempt (decode_target_ipatch x model request) (\<lambda>(s, t).
     attempt (check_target_rule (ac_snapshot a) t if_match) (\<lambda>_.
     attempt (patched_tree x model s (ac_snapshot a) t) (\<lambda>tree.
       map_err (\<lambda>e. patch_conflict (show_context_error e)) (prepare_candidate x a tree))))"

definition apply_target_ipatch ::
  "'x management_ext_scheme \<Rightarrow> coreconf_model \<Rightarrow> active_context \<Rightarrow> coreconf_request \<Rightarrow> bytes option
    \<Rightarrow> active_context \<times> (patch_failure + coreconf_response) outcome" where
  "apply_target_ipatch x model a request if_match =
     (case ipatch_candidate x model a request if_match of
        Inl e \<Rightarrow> (a, Answered (Inl e))
      | Inr p \<Rightarrow> publish_and a p (\<lambda>_. Inr ChangedResponse))"

subsection \<open>Responses\<close>

definition packet_without_content_format ::
  "'x management_ext_scheme \<Rightarrow> lite_packet \<Rightarrow> coreconf_response \<Rightarrow> inspection_error + bytes" where
  "packet_without_content_format x request response =
     map_err CoapError (to_bytes_unlimited x (clear_option opt_content_format (response_to_packet x request response)))"

text \<open>4.12 Precondition Failed.\<close>

definition precondition_failed_code :: nat where "precondition_failed_code = 140"

definition packet_precondition_without_content_format ::
  "'x management_ext_scheme \<Rightarrow> lite_packet \<Rightarrow> string \<Rightarrow> inspection_error + bytes" where
  "packet_precondition_without_content_format x request message =
     map_err CoapError (to_bytes_unlimited x (clear_option opt_content_format
       ((response_to_packet x request (ErrorResponse ConflictCode message))
          \<lparr>lp_code := LiteResponse precondition_failed_code\<rparr>)))"

definition is_mutation :: "lite_packet \<Rightarrow> bool" where
  "is_mutation p \<longleftrightarrow> lp_code p \<in> {LiteRequest MIPatch, LiteRequest MPatch, LiteRequest MPost, LiteRequest MDelete}"

definition patch_failure_response ::
  "'x management_ext_scheme \<Rightarrow> lite_packet \<Rightarrow> patch_failure \<Rightarrow> inspection_error + bytes" where
  "patch_failure_response x packet e =
     (if pf_precondition e then packet_precondition_without_content_format x packet (pf_message e)
      else packet_without_content_format x packet (ErrorResponse (pf_code e) (pf_message e)))"

definition handle_context_check ::
  "'x management_ext_scheme \<Rightarrow> active_context \<Rightarrow> lite_packet \<Rightarrow> inspection_error + bytes" where
  "handle_context_check x a packet =
     (if length (lp_payload packet) \<noteq> 1 + context_tag_len then
        packet_without_content_format x packet (ErrorResponse BadRequest
          ''context check payload must contain marker and eight-byte tag'')
      else
        packet_without_content_format x packet
          (ContentResponse (context_check_payload (drop 1 (lp_payload packet)) (cd_tag (active_data a)))
             YangDataCborSid))"

definition handle_target_ipatch ::
  "'x management_ext_scheme \<Rightarrow> coreconf_model \<Rightarrow> active_context \<Rightarrow> lite_packet
    \<Rightarrow> active_context \<times> (inspection_error + bytes) outcome" where
  "handle_target_ipatch x model a packet =
     (case packet_to_request x packet ''schc'' of
        Inl response \<Rightarrow> (a, Answered (packet_without_content_format x packet response))
      | Inr request \<Rightarrow>
          (case parse_if_match_option packet of
             Inl e \<Rightarrow> (a, Answered (patch_failure_response x packet e))
           | Inr if_match \<Rightarrow>
               (case apply_target_ipatch x model a request if_match of
                  (a', CounterPanic) \<Rightarrow> (a', CounterPanic)
                | (a', Answered (Inl e)) \<Rightarrow> (a', Answered (patch_failure_response x packet e))
                | (a', Answered (Inr response)) \<Rightarrow>
                    (a', Answered (packet_without_content_format x packet response)))))"

subsection \<open>Dispatch\<close>

text \<open>
  A GET or a FETCH is answered by the library's request handler over the tree it reads from the
  backend; with those methods it does not write.
\<close>

definition handle_packet ::
  "'x management_ext_scheme \<Rightarrow> coreconf_model \<Rightarrow> active_context \<Rightarrow> lite_packet
    \<Rightarrow> active_context \<times> (inspection_error + bytes) outcome" where
  "handle_packet x model a packet =
     (if is_duplicate_rule_coap_shape packet then
        (a, Answered (Inl (UnexpectedResponse ''duplicate-rule NON POST must use handle_datagram_no_response'')))
      else if lp_code packet = LiteRequest MIPatch then
        (if lp_payload packet = [] \<and> get_option packet opt_content_format = None
           \<and> get_option packet opt_if_match = None then
           (a, Answered (packet_without_content_format x packet MethodNotAllowed))
         else handle_target_ipatch x model a packet)
      else if is_mutation packet then
        (a, Answered (packet_without_content_format x packet MethodNotAllowed))
      else if lp_code packet \<noteq> LiteRequest MGet \<and> lp_code packet \<noteq> LiteRequest MFetch then
        (a, Answered (packet_without_content_format x packet MethodNotAllowed))
      else if (case get_option packet opt_uri_path of None \<Rightarrow> True
               | Some segments \<Rightarrow> list_ex (\<lambda>e. e \<noteq> schc_segment) segments) then
        (a, Answered (packet_without_content_format x packet (NotFoundResponse ''/schc'')))
      else if lp_code packet = LiteRequest MFetch \<and> take 1 (lp_payload packet) = [context_check_marker] then
        (a, Answered (handle_context_check x a packet))
      else
        (a, Answered (case packet_to_request x packet ''schc'' of
           Inl response \<Rightarrow> Inl (CoapError (''CORECONF request rejected with '' @ response_code_text x response))
         | Inr request \<Rightarrow>
             packet_without_content_format x packet (handle_request x (snd (read_tree a)) request))))"

definition handle_datagram ::
  "'x management_ext_scheme \<Rightarrow> coreconf_model \<Rightarrow> active_context \<Rightarrow> bytes
    \<Rightarrow> active_context \<times> (inspection_error + bytes) outcome" where
  "handle_datagram x model a datagram =
     (case lite_from_bytes x datagram of
        Inl e \<Rightarrow> (a, Answered (Inl (CoapError e)))
      | Inr packet \<Rightarrow> handle_packet x model a packet)"

definition handle_datagram_no_response ::
  "'x flow_ext_scheme \<Rightarrow> coreconf_model \<Rightarrow> active_context \<Rightarrow> bytes
    \<Rightarrow> active_context \<times> (inspection_error + bytes option) outcome" where
  "handle_datagram_no_response x model a datagram =
     (case lite_from_bytes x datagram of
        Inl e \<Rightarrow> (a, Answered (Inl (CoapError e)))
      | Inr packet \<Rightarrow>
          if is_duplicate_rule_coap_shape packet then
            (case decode_duplicate_operation x model (lp_payload packet) of
               Inl e \<Rightarrow> (a, Answered (Inl e))
             | Inr operation \<Rightarrow>
                 (case apply_duplicate_operation x model a operation of
                    (a', CounterPanic) \<Rightarrow> (a', CounterPanic)
                  | (a', Answered (Inl e)) \<Rightarrow> (a', Answered (Inl e))
                  | (a', Answered (Inr _)) \<Rightarrow> (a', Answered (Inr None))))
          else
            (case handle_datagram x model a datagram of
               (a', CounterPanic) \<Rightarrow> (a', CounterPanic)
             | (a', Answered r) \<Rightarrow> (a', Answered (attempt r (\<lambda>bs. Inr (Some bs))))))"

subsection \<open>Every operation is a step of a writer\<close>

lemma prepare_candidate_Inr:
  "prepare_candidate x a tree = Inr p \<longleftrightarrow>
     from_tree_for_recipe x (ac_recipe a) tree = Inr p \<and> validate_candidate x a (ac_snapshot a) p = Inr ()"
  by (auto simp: prepare_candidate_def attempt_Inr_iff)

lemma publish_and_cases:
  assumes "publish_and a p f = (a', r)"
  obtains "a' = a" and "r = CounterPanic" | "publish_locked a p = Some a'" and "r = Answered (f a')"
  using assms by (auto simp: publish_and_def split: option.splits)

lemma prepared_publication:
  "prepare_candidate x a tree = Inr p \<Longrightarrow> publish_locked a p = Some a' \<Longrightarrow> publication x a a'"
  by (auto simp: prepare_candidate_Inr intro: publication.publish)

lemma duplicate_candidate_Inr:
  assumes "duplicate_candidate x model a operation = Inr (p, expected_rule, existing)"
  obtains expected where "expected_duplicate_tree x model (ac_snapshot a) (op_request operation) (op_instances operation) = Inr expected"
    and "prepare_candidate x a expected = Inr p"
    and "find_tree_rule expected model (dr_destination (op_request operation)) = Inr (Some expected_rule)"
    and "existing = List.find (\<lambda>r. rule_id_of r = selector_id (dr_destination (op_request operation))) (cd_rules (active_data a))"
    and "existing = None \<longrightarrow> (\<forall>ns. sn_dynamic (ac_snapshot a) = Some ns \<longrightarrow>
        accepts ns (selector_id (dr_destination (op_request operation))))"
  using assms that
  by (auto simp: duplicate_candidate_def Let_def attempt_Inr_iff map_err_Inr_iff ok_or_Inr_iff split: if_splits option.splits)

text \<open>The two results of a duplicate that keep the context, and the one that publishes.\<close>

lemma apply_duplicate_cases:
  assumes "apply_duplicate_operation x model a operation = (a', r)"
  obtains (kept) "a' = a" and "\<forall>g t. r \<noteq> Answered (Inr (Applied g t))"
  | (applied) p rule where "duplicate_candidate x model a operation = Inr (p, rule, None)"
      and "publish_locked a p = Some a'"
      and "r = Answered (Inr (Applied (active_generation a') (cd_tag (active_data a'))))"
proof (cases "duplicate_candidate x model a operation")
  case (Inl e)
  with assms kept show thesis by (auto simp: apply_duplicate_operation_def)
next
  case (Inr c)
  then obtain p rule existing where c: "duplicate_candidate x model a operation = Inr (p, rule, existing)"
    by (cases c) auto
  show thesis
  proof (cases existing)
    case None
    with assms c have "publish_and a p (\<lambda>a'. Inr (Applied (active_generation a') (cd_tag (active_data a')))) = (a', r)"
      by (simp add: apply_duplicate_operation_def)
    then show thesis by (rule publish_and_cases) (use kept applied c None in auto)
  next
    case (Some e)
    with assms c have "a' = a" and "\<exists>q. r = Answered q \<and> (\<forall>g t. q \<noteq> Inr (Applied g t))"
      by (auto simp: apply_duplicate_operation_def Let_def attempt_Inr_iff split: if_splits)
    with kept show thesis by auto
  qed
qed

lemma apply_ipatch_cases:
  assumes "apply_target_ipatch x model a request if_match = (a', r)"
  obtains (kept) "a' = a" and "\<forall>q. r \<noteq> Answered (Inr q)"
  | (changed) p where "ipatch_candidate x model a request if_match = Inr p"
      and "publish_locked a p = Some a'" and "r = Answered (Inr ChangedResponse)"
proof (cases "ipatch_candidate x model a request if_match")
  case (Inl e)
  with assms kept show thesis by (auto simp: apply_target_ipatch_def)
next
  case (Inr p)
  with assms have "publish_and a p (\<lambda>_. Inr ChangedResponse) = (a', r)" by (simp add: apply_target_ipatch_def)
  then show thesis by (rule publish_and_cases) (use kept changed Inr in auto)
qed

lemma ipatch_candidate_Inr:
  assumes "ipatch_candidate x model a request if_match = Inr p"
  obtains s t tree where "decode_target_ipatch x model request = Inr (s, t)"
    and "check_target_rule (ac_snapshot a) t if_match = Inr ()"
    and "patched_tree x model s (ac_snapshot a) t = Inr tree" and "prepare_candidate x a tree = Inr p"
  using assms by (auto simp: ipatch_candidate_def attempt_Inr_iff map_err_Inr_iff)

lemma apply_ipatch_step:
  "apply_target_ipatch x model a request if_match = (a', r) \<Longrightarrow> a' = a \<or> publication x a a'"
  by (erule apply_ipatch_cases) (auto elim!: ipatch_candidate_Inr intro: prepared_publication)

lemma apply_duplicate_step:
  "apply_duplicate_operation x model a operation = (a', r) \<Longrightarrow> a' = a \<or> publication x a a'"
  by (erule apply_duplicate_cases) (auto elim!: duplicate_candidate_Inr intro: prepared_publication)

lemma handle_target_ipatch_step:
  assumes "handle_target_ipatch x model a packet = (a', r)"
  shows "a' = a \<or> publication x a a'"
proof (cases "packet_to_request x packet ''schc''")
  case (Inl e)
  with assms show ?thesis by (simp add: handle_target_ipatch_def)
next
  case request: (Inr request)
  show ?thesis
  proof (cases "parse_if_match_option packet")
    case (Inl e)
    with request assms show ?thesis by (simp add: handle_target_ipatch_def)
  next
    case (Inr if_match)
    obtain b q where "apply_target_ipatch x model a request if_match = (b, q)"
      by (cases "apply_target_ipatch x model a request if_match")
    moreover have "a' = b"
      using request Inr assms calculation by (auto simp: handle_target_ipatch_def split: outcome.splits sum.splits)
    ultimately show ?thesis using apply_ipatch_step by blast
  qed
qed

lemma handle_packet_step:
  assumes "handle_packet x model a packet = (a', r)"
  shows "a' = a \<or> lp_code packet = LiteRequest MIPatch \<and> publication x a a'"
  using assms handle_target_ipatch_step [of x model a packet a' r]
  by (auto simp: handle_packet_def simp del: not_None_eq split: if_splits)

lemma handle_datagram_step:
  assumes "handle_datagram x model a datagram = (a', r)"
  shows "a' = a \<or> publication x a a'"
  using assms handle_packet_step [of x model a _ a' r]
  by (cases "lite_from_bytes x datagram") (auto simp: handle_datagram_def)

lemma no_response_step:
  assumes "handle_datagram_no_response x model a datagram = (a', r)"
  shows "a' = a \<or> publication x a a'"
proof (cases "lite_from_bytes x datagram")
  case (Inl e)
  with assms show ?thesis by (simp add: handle_datagram_no_response_def)
next
  case packet: (Inr packet)
  show ?thesis
  proof (cases "is_duplicate_rule_coap_shape packet")
    case shape: True
    show ?thesis
    proof (cases "decode_duplicate_operation x model (lp_payload packet)")
      case (Inl e)
      with packet shape assms show ?thesis by (simp add: handle_datagram_no_response_def)
    next
      case (Inr operation)
      obtain b q where "apply_duplicate_operation x model a operation = (b, q)"
        by (cases "apply_duplicate_operation x model a operation")
      moreover have "a' = b"
        using packet shape Inr assms calculation
        by (auto simp: handle_datagram_no_response_def split: outcome.splits sum.splits)
      ultimately show ?thesis using apply_duplicate_step by blast
    qed
  next
    case False
    obtain b q where "handle_datagram x model a datagram = (b, q)" by (cases "handle_datagram x model a datagram")
    moreover have "a' = b"
      using packet False assms calculation by (auto simp: handle_datagram_no_response_def split: outcome.splits)
    ultimately show ?thesis using handle_datagram_step by blast
  qed
qed

text \<open>The context before and after a step of a program, which publishes at most once.\<close>

definition kept_or_published :: "'x context_ext_scheme \<Rightarrow> active_context \<Rightarrow> active_context \<Rightarrow> bool" where
  "kept_or_published x a a' \<longleftrightarrow> a' = a \<or> publication x a a'"

lemma kept_refl [simp]: "kept_or_published x a a"
  by (simp add: kept_or_published_def)

lemma kept_run: "kept_or_published x a a' \<Longrightarrow> (publication x)\<^sup>*\<^sup>* a a'"
  by (auto simp: kept_or_published_def)

text \<open>The device as a transition system: one step answers one datagram.\<close>

inductive device_step :: "'x flow_ext_scheme \<Rightarrow> coreconf_model \<Rightarrow> active_context \<Rightarrow> active_context \<Rightarrow> bool" for x model where
  datagram: "handle_datagram_no_response x model a datagram = (a', r) \<Longrightarrow> device_step x model a a'"

inductive_cases device_stepE: "device_step x model a a'"

interpretation device: publisher "device_step x model" "active_ok x" active_generation ac_snapshot
    "\<lambda>a. (cd_protected (active_data a), ac_recipe a)" for x model
  by unfold_locales
    (auto elim!: device_stepE dest!: no_response_step simp: publication_ok publication_facts)

text \<open>The context after a sequence of datagrams.\<close>

fun handle_all :: "'x flow_ext_scheme \<Rightarrow> coreconf_model \<Rightarrow> active_context \<Rightarrow> bytes list \<Rightarrow> active_context" where
  "handle_all x model a [] = a"
| "handle_all x model a (d # ds) = handle_all x model (fst (handle_datagram_no_response x model a d)) ds"

lemma handle_all_run: "(device_step x model)\<^sup>*\<^sup>* a (handle_all x model a ds)"
proof (induction ds arbitrary: a)
  case (Cons d ds)
  have "device_step x model a (fst (handle_datagram_no_response x model a d))"
    by (rule device_step.datagram [where r = "snd (handle_datagram_no_response x model a d)"]) simp
  with Cons show ?case by (simp add: converse_rtranclp_into_rtranclp)
qed simp

lemma prepared_tree_of: "from_tree_for_recipe x rc tree = Inr p \<Longrightarrow> cd_tree (pc_data p) = tree"
  using load_source_coherent(2) from_loaded_recipe(6)
  by (fastforce simp: from_tree_for_recipe_def from_source_def attempt_Inr_iff simp del: load_source.simps)

lemma find_None_ids: "List.find (\<lambda>r. f r = i) rs = None \<longleftrightarrow> i \<notin> f ` set rs"
  by (auto simp: find_None_iff2)

subsection \<open>Installing a rule twice\<close>

lemma sort_key_idem_append: "sort_key f (sort_key f xs @ ys) = sort_key f (xs @ ys)"
proof (rule properties_for_sort_key [symmetric, THEN sym])
  show "filter (\<lambda>x. f k = f x) (sort_key f (xs @ ys)) = filter (\<lambda>x. f k = f x) (sort_key f xs @ ys)" for k
  proof -
    have *: "filter (\<lambda>x. f k = f x) zs = filter (\<lambda>x. f x = f k) zs" for zs by (auto intro: filter_cong)
    show ?thesis unfolding * by (simp add: sort_key_stable)
  qed
qed simp_all

lemma insert_tree_rule_twice:
  assumes "tree_rule_is vk lk dest r"
  shows "insert_tree_rule vk lk dest r (insert_tree_rule vk lk dest r rules) = insert_tree_rule vk lk dest r rules"
proof -
  have "filter (\<lambda>e. \<not> tree_rule_is vk lk dest e) (filter (\<lambda>e. \<not> tree_rule_is vk lk dest e) rules @ [r])
      = filter (\<lambda>e. \<not> tree_rule_is vk lk dest e) rules"
    using assms by simp
  then show ?thesis by (simp add: insert_tree_rule_def filter_sort sort_key_idem_append)
qed

lemma replace_value_twice: "replace_value k v (replace_value k w es) = replace_value k v es"
  by (induction k v es rule: replace_value.induct) auto

lemma set_tree_rules_twice:
  "tree_rules rk lk tree = Some old \<Longrightarrow>
     set_tree_rules rk lk rules (set_tree_rules rk lk rules tree) = set_tree_rules rk lk rules tree"
  by (auto simp: tree_rules_Some set_tree_rules_def map_of_replace_value replace_value_twice)

lemma duplicated_tree_twice:
  assumes "duplicated_tree model s tree dest src = Inr t"
    and "rule_key model (sid_rule_id_value s) \<noteq> rule_key model (sid_rule_id_length s)"
  shows "duplicated_tree model s t dest src = Inr t"
proof -
  obtain rk lk vk nk r rules where keys: "rule_key model (sid_root s) = Inr rk" "rule_key model (sid_rule s) = Inr lk"
      "rule_key model (sid_rule_id_value s) = Inr vk" "rule_key model (sid_rule_id_length s) = Inr nk"
    and r: "copied_rule model s dest src = Inr r" and rules: "tree_rules rk lk tree = Some rules"
    and t: "t = set_tree_rules rk lk (insert_tree_rule vk nk dest r rules) tree"
    using assms(1) by (auto simp: duplicated_tree_def attempt_Inr_iff ok_or_Inr_iff)
  have "tree_rule_is vk nk dest r" using copied_rule_is [OF r keys(3,4)] keys assms(2) by simp
  with keys r rules show ?thesis
    by (simp add: duplicated_tree_def t tree_rules_set insert_tree_rule_twice set_tree_rules_twice)
qed

subsection \<open>A concrete device\<close>

definition world_rule :: "nat \<Rightarrow> nat \<Rightarrow> json" where
  "world_rule v n = JObject [(''rule-id-length'', json_nat n), (''rule-id-value'', json_nat v)]"

text \<open>The tree with the rule 5/3, and with its copy 9/8 as well.\<close>

definition world_tree :: "bool \<Rightarrow> json" where
  "world_tree b = JObject [(''ietf-schc:schc'', JObject [(''rule'', JArray
     (if b then [world_rule 5 3, world_rule 9 8] else [world_rule 5 3]))])]"

definition world_model :: coreconf_model where
  "world_model = upd_model\<lparr>to_value := (\<lambda>bs. Inr (world_tree (bs = demo_bytes True))),
     json_to_cbor := (\<lambda>t. Inr (CMap [(CInteger 1, CBool (t = world_tree True))]))\<rparr>"

definition world_rules :: "bool \<Rightarrow> rule_context" where
  "world_rules b =
     (let rs = map (\<lambda>i. \<lparr>rule_id_of = i, nature = NatureCompression, rule_fields = []\<rparr>)
        (if b then [RuleId 5 3, RuleId 9 8] else [RuleId 5 3])
      in \<lparr>ctx_rules = rs, find_rule = (\<lambda>i. List.find (\<lambda>r. rule_id_of r = i) rs)\<rparr>)"

definition world :: flow_ext where
  "world = demo_flow
     \<lparr>model_from_sid_str := (\<lambda>_. Inr world_model),
      from_reader := (\<lambda>bs. Inr (CMap [(CInteger 1, CBool (bs = demo_bytes True))], length bs)),
      into_writer := (\<lambda>v. Inr (demo_bytes (v = CMap [(CInteger 1, CBool True)]))),
      json_to_vec := (\<lambda>t. Inr (demo_bytes (t = world_tree True))),
      context_from_cbor_slice := (\<lambda>bs _. Inr (world_rules (bs = demo_bytes True))),
      decode_instances := (\<lambda>_ _. Inr [update_instance upd_update]),
      create_xpath := (\<lambda>_ sid _. Inr (if sid = 10 then ''leaf'' else ''entry'')),
      get_path := (\<lambda>_ p. Inr (Some (if p = ''leaf'' then JArray [json_byte 22, json_byte 51]
         else JObject [(''field-length'', json_nat 16)]))),
      set_path := (\<lambda>_ _ _. Inr (world_tree True))\<rparr>"

definition world_prepared :: "bool \<Rightarrow> prepared_context" where
  "world_prepared b =
     (let digest = digest_input (demo_bytes b) (demo_bytes b) in
      \<lparr>pc_recipe = \<lparr>rc_sid_json = ''m'', rc_device = 3, rc_profile = 0, rc_dynamic = None, rc_context_profile = None\<rparr>,
       pc_data = \<lparr>cd_tree = world_tree b, cd_sor = demo_bytes b, cd_runtime = demo_runtime 3,
         cd_application_runtime = demo_runtime 3,
         cd_application_rule_ids = map rule_id_of (ctx_rules (world_rules b)),
         cd_protected = [], cd_guard = None, cd_rule_ids = map rule_id_of (ctx_rules (world_rules b)),
         cd_rules = ctx_rules (world_rules b), cd_digest = digest, cd_tag = context_tag digest\<rparr>\<rparr>)"

lemma world_tree_eq [simp]: "world_tree b = world_tree c \<longleftrightarrow> b = c"
  by (simp add: world_tree_def)

lemma world_tree_normal [simp]: "normalize_tree (world_tree b) = Inr (world_tree b)"
  by (cases b) (simp_all add: normalize_tree_def world_tree_def world_rule_def normalize_array_def rule_sort_key_def)

lemma world_model_simps [simp]:
  "get_sid world_model p = get_sid dup_model p" "get_identifier world_model i = get_identifier dup_model i"
  "to_value world_model bs = Inr (world_tree (bs = demo_bytes True))"
  "json_to_cbor world_model t = Inr (CMap [(CInteger 1, CBool (t = world_tree True))])"
  "identifier_to_sid_at world_model v p = Inr v" "sid_to_identifier_at world_model v p = Inr v"
  "get_keys world_model = get_keys upd_model"
  by (simp_all add: world_model_def upd_model_def)

lemma world_sid [simp]: "get_sid dup_model ''/ietf-schc:schc'' = Some 1"
  by (simp add: dup_model_def sid_paths_def upt_rec)

lemma world_simps [simp]:
  "strict_cbor_value world bs = Inr (CMap [(CInteger 1, CBool (bs = demo_bytes True))])"
  "into_writer world v = Inr (demo_bytes (v = CMap [(CInteger 1, CBool True)]))"
  "json_to_vec world t = Inr (demo_bytes (t = world_tree True))"
  "sha256 world = (\<lambda>bs. bs)" "model_from_sid_str world sid = Inr world_model"
  "registry_from_json_str world sid = Inr 0"
  "context_from_cbor_slice world bs reg = Inr (world_rules (bs = demo_bytes True))"
  "runtime_new world device ctx prof = Inr (demo_runtime device)"
  "datastore_with_data world m t = Inr t" "get_all world t = t" "push_delta world p d = Inr (p @ [SidDelta d])"
  by (simp_all add: world_def demo_flow_def demo_mgmt_def demo_net_def demo_ext_def strict_cbor_value_def
      context_ext.defs packet_ext.defs management_ext.defs flow_ext.defs)

lemma world_derive [simp]: "derive (world_rules b) = Inr []"
  by (simp add: derive_def management_ids_def world_rules_def Let_def)

lemma world_guard [simp]: "guard_period_from_tree (world_tree b) = Inr None"
  by (simp add: guard_period_from_tree_def world_tree_def)

definition world_loaded :: "bool \<Rightarrow> loaded_context" where
  "world_loaded b =
     \<lparr>lc_model = world_model, lc_registry = 0, lc_rule_context = world_rules b,
      lc_tree = world_tree b, lc_sor = demo_bytes b, lc_protected = [], lc_guard = None\<rparr>"

lemma world_encode [simp]: "encode_tree world world_model (world_tree b) = Inr (demo_bytes b)"
  by (simp add: encode_tree_def)

lemma world_load [simp]: "load_sor world sid (demo_bytes b) = Inr (world_loaded b)"
  by (simp add: load_sor_def world_loaded_def ensure_schc_root_def)

lemma world_from_tree [simp]:
  "from_tree_for_recipe world (pc_recipe (world_prepared b)) (world_tree c) = Inr (world_prepared c)"
  by (simp add: from_tree_for_recipe_def from_source_def from_loaded_def check_namespace_def
      application_runtime_def digest_context_def world_prepared_def world_loaded_def
      protected_ids_def Let_def)

lemma world_prepared_for: "prepared_for world (world_prepared b) (world_loaded b)"
proof -
  have "prepared_for world (world_prepared b) l" if "load_source world [] (TreeSource (world_tree b)) = Inr l" for l
    using that world_from_tree [of b b] load_source_coherent(1) [OF that]
    by (auto simp: prepared_for_def from_tree_for_recipe_def from_source_def coherent_def world_loaded_def)
  then show ?thesis by (simp add: world_loaded_def)
qed

abbreviation world_active :: "active_context" where
  "world_active \<equiv> active_new (world_prepared False)"

lemma world_active_ok: "active_ok world world_active"
  using world_prepared_for by (rule active_new_ok)

definition world_published :: active_context where
  "world_published = world_active\<lparr>ac_snapshot := from_prepared (world_prepared True) 2\<rparr>"

lemma world_active_simps [simp]:
  "ac_recipe (active_new (world_prepared b)) = pc_recipe (world_prepared b)"
  "active_data (active_new (world_prepared b)) = pc_data (world_prepared b)"
  "active_generation (active_new (world_prepared b)) = 1"
  "sn_dynamic (ac_snapshot (active_new (world_prepared b))) = None"
  by (simp_all add: active_new_def from_prepared_def world_prepared_def Let_def)

lemma world_data [simp]:
  "cd_tree (pc_data (world_prepared b)) = world_tree b" "cd_protected (pc_data (world_prepared b)) = []"
  "cd_rules (pc_data (world_prepared b)) = ctx_rules (world_rules b)"
  by (simp_all add: world_prepared_def Let_def)

lemma world_publish: "publish_locked world_active (world_prepared True) = Some world_published"
  by (simp add: publish_locked_def world_published_def active_new_def from_prepared_def u64_bound_def Let_def)

lemma world_candidate: "prepare_candidate world world_active (world_tree True) = Inr (world_prepared True)"
proof -
  have "validate_candidate world world_active (ac_snapshot world_active) (world_prepared True) = Inr ()"
    by (rule publishable [OF world_active_ok, where tree = "world_tree True"]) (simp_all add: enforce_def)
  then show ?thesis by (simp add: prepare_candidate_Inr)
qed

lemma world_resolve [simp]: "resolve_sids world_model = Inr demo_sids"
proof -
  have "resolve_sid world_model = resolve_sid dup_model" by (intro ext) (simp add: resolve_sid_def)
  then show ?thesis using dup_resolve by (simp add: resolve_sids_def)
qed

lemma world_keys [simp]:
  "rule_key world_model 1 = Inr ''ietf-schc:schc''" "rule_key world_model 2 = Inr ''rule''"
  "rule_key world_model 3 = Inr ''rule-id-length''" "rule_key world_model 4 = Inr ''rule-id-value''"
  using dup_keys by (simp_all add: rule_key_def)

lemma world_shapes [simp]:
  "validate_duplicate_model_shape world_model = Inr demo_sids"
  "validate_update_model_shape world_model = Inr demo_sids"
  by (simp_all add: validate_duplicate_model_shape_def validate_update_model_shape_def require_list_keys_def dup_identifier)

definition world_copy :: duplicate_operation where
  "world_copy = demo_operation\<lparr>op_request := (op_request demo_operation)\<lparr>dr_overrides := []\<rparr>,
     op_instances := [], op_inner_payload := []\<rparr>"

lemma world_copy_simps [simp]:
  "dr_source (op_request world_copy) = selector 5 3" "dr_destination (op_request world_copy) = selector 9 8"
  "op_instances world_copy = []"
  by (simp_all add: world_copy_def demo_operation_def)

lemma world_find [simp]:
  "find_tree_rule (world_tree b) world_model (selector 5 3) = Inr (Some (world_rule 5 3))"
  "find_tree_rule (world_tree True) world_model (selector 9 8) = Inr (Some (world_rule 9 8))"
  by (simp_all add: find_tree_rule_def tree_rules_def tree_rule_is_def world_tree_def world_rule_def)

lemma world_duplicated [simp]:
  "duplicated_tree world_model demo_sids (world_tree False) (selector 9 8) (world_rule 5 3) = Inr (world_tree True)"
  by (simp add: duplicated_tree_def copied_rule_def set_tree_rule_key_def tree_rules_def set_tree_rules_def
      insert_tree_rule_def tree_rule_is_def unwrap_or_zero_def world_tree_def world_rule_def)

lemma world_expected:
  "expected_duplicate_tree world world_model (ac_snapshot world_active) (op_request world_copy) [] = Inr (world_tree True)"
  by (simp add: expected_duplicate_tree_def check_duplicate_rules_def world_rules_def selector_id_def
      protected_contains_def Let_def)

lemma world_applied:
  "apply_duplicate_operation world world_model world_active world_copy
   = (world_published, Answered (Inr (Applied 2 (cd_tag (active_data world_published)))))"
proof -
  have e: "List.find (\<lambda>r. rule_id_of r = RuleId 9 8) (ctx_rules (world_rules False)) = None"
    by (simp add: world_rules_def Let_def)
  have g: "active_generation world_published = 2" by (simp add: world_published_def from_prepared_def)
  show ?thesis
    by (simp add: apply_duplicate_operation_def duplicate_candidate_def world_expected e selector_id_def
        world_candidate publish_and_def world_publish g Let_def)
qed

definition world_request :: coreconf_request where
  "world_request = \<lparr>cq_management = True, cq_path = [], cq_content_format = Some YangInstancesCborSeq,
     cq_raw_content_format = Some 142, cq_payload = [1]\<rparr>"

lemma world_decode: "decode_target_ipatch world world_model world_request
    = Inr (demo_sids, \<lparr>tp_selector = selector 5 3, tp_path = up_path upd_update, tp_value = up_value upd_update\<rparr>)"
proof -
  have "push_delta_ok world" by (simp add: push_delta_ok_def)
  moreover have "target_value_path world demo_sids (selector 5 3) 4 0 = Inr (up_path upd_update)"
    by (simp add: target_value_path_def push_sid_def upd_update_def)
  moreover have "selector_new 5 3 = Inr (selector 5 3)" by (simp add: selector_new_def)
  ultimately have "target_patch_from_instance world (update_instance upd_update) demo_sids
      = Inr \<lparr>tp_selector = selector 5 3, tp_path = up_path upd_update, tp_value = up_value upd_update\<rparr>"
    unfolding update_instance_def by (intro target_patch_of_path [of world, where e = 4 and t = 0]) (simp_all add: usize_bound_def)
  moreover have "decode_instances world m bs = Inr [update_instance upd_update]" for m bs
    by (simp add: world_def)
  ultimately show ?thesis by (simp add: decode_target_ipatch_def world_request_def)
qed

lemma world_patched: "patched_tree world world_model demo_sids (ac_snapshot world_active)
    \<lparr>tp_selector = selector 5 3, tp_path = up_path upd_update, tp_value = up_value upd_update\<rparr>
    = Inr (world_tree True)"
proof -
  have w: "create_xpath world ds sid ks = Inr (if sid = 10 then ''leaf'' else ''entry'')"
    "get_path world ds p = Inr (Some (if p = ''leaf'' then JArray [json_byte 22, json_byte 51]
         else JObject [(''field-length'', json_nat 16)]))"
    "set_path world ds p v = Inr (world_tree True)" "predicate_path world p = Inr p"
    "absolute_sid world (up_path upd_update) = Some 10" for ds sid ks p v
    by (simp_all add: world_def demo_flow_def demo_mgmt_def packet_ext.defs management_ext.defs flow_ext.defs upd_update_def)
  have k: "tree_key_for_sid world_model 7 = Inr ''field-length''"
    by (simp add: tree_key_for_sid_def dup_identifier last_segment_def sid_paths_def Let_def)
  have "be_bytes (Suc (Suc 0)) 300 = [1, 44]" by simp
  then have b: "be_bytes 2 300 = [1, 44]" by (simp only: numeral_2_eq_2)
  have v: "up_value upd_update = JArray [json_byte 1, json_byte 44]" by (simp add: upd_update_def b)
  show ?thesis
    by (simp add: patched_tree_def w k v conflict_of_def conflict_of_error_def binary_bytes_pair entry_field_length_def
        replacement_value_def fits_iff_number be_nat_def Let_def)
qed

lemma world_patch_applied:
  "apply_target_ipatch world world_model world_active world_request (Some (cd_tag (active_data world_active)))
   = (world_published, Answered (Inr ChangedResponse))"
  by (simp add: apply_target_ipatch_def ipatch_candidate_def world_decode check_target_rule_def world_rules_def
      protected_contains_def selector_id_def world_patched world_candidate publish_and_def world_publish Let_def)

subsection \<open>Properties\<close>

text \<open>No sequence of datagrams changes the policy. Whatever arrives, in whatever order, the
  protected rules and the construction parameters stay those of the start, the active context
  stays coherent, its generation never decreases, and as long as it does not increase the snapshot
  is the same.\<close>

theorem device_keeps_policy:
  assumes "active_ok x a"
  shows "cd_protected (active_data (handle_all x model a ds)) = cd_protected (active_data a) \<and>
    ac_recipe (handle_all x model a ds) = ac_recipe a \<and> active_ok x (handle_all x model a ds) \<and>
    active_generation a \<le> active_generation (handle_all x model a ds) \<and>
    (active_generation (handle_all x model a ds) = active_generation a \<longrightarrow>
       ac_snapshot (handle_all x model a ds) = ac_snapshot a)"
  using device.run_ok [OF handle_all_run assms] device.run_generation [OF handle_all_run]
    device.run_same_generation [OF handle_all_run] by blast

lemma device_keeps_policy_witness:
  "active_ok world (handle_all world world_model world_active [[1], [2]])"
  using device_keeps_policy [OF world_active_ok, of world_model "[[1], [2]]"] by blast

text \<open>Only an iPATCH can change the context on the path with a response. Any other packet leaves
  it as it was, and one that is neither a GET nor a FETCH is answered with 4.05.\<close>

theorem other_methods_do_not_write:
  assumes "lp_code packet \<noteq> LiteRequest MIPatch"
  shows "fst (handle_packet x model a packet) = a \<and>
    (\<not> is_duplicate_rule_coap_shape packet \<and> lp_code packet \<noteq> LiteRequest MGet \<and> lp_code packet \<noteq> LiteRequest MFetch \<longrightarrow>
       snd (handle_packet x model a packet) = Answered (packet_without_content_format x packet MethodNotAllowed))"
  using assms by (auto simp: handle_packet_def)

lemma other_methods_do_not_write_witness:
  "snd (handle_packet world world_model world_active (base_request MDelete 1))
    = Answered (packet_without_content_format world (base_request MDelete 1) MethodNotAllowed)"
proof -
  have c: "lp_code (base_request MDelete 1) = LiteRequest MDelete" by (simp add: base_request_def add_option_def)
  then have "\<not> is_duplicate_rule_coap_shape (base_request MDelete 1)" by (simp add: is_duplicate_rule_coap_shape_def)
  with other_methods_do_not_write [of "base_request MDelete 1" world world_model world_active] c show ?thesis by simp
qed

text \<open>C9: A patch is applied only under its guards. When the device reports a change, the
  precondition named the tag of the context it replaced, the addressed rule exists and is not
  protected, the published tree is the active tree with the one leaf replaced by the patch, and the
  generation is the next one.\<close>

theorem ipatch_guarded:
  assumes "apply_target_ipatch x model a request if_match = (a', Answered (Inr response))"
  shows "\<exists>s t. decode_target_ipatch x model request = Inr (s, t) \<and>
    (if_match = None \<or> if_match = Some (cd_tag (active_data a))) \<and>
    selector_id (tp_selector t) \<in> rule_id_of ` set (cd_rules (active_data a)) \<and>
    \<not> protected_contains (cd_protected (active_data a)) (selector_id (tp_selector t)) \<and>
    patched_tree x model s (ac_snapshot a) t = Inr (cd_tree (active_data a')) \<and>
    active_generation a' = active_generation a + 1 \<and> response = ChangedResponse"
  using assms
proof (cases rule: apply_ipatch_cases)
  case (changed p)
  from changed(1) obtain s t tree where d: "decode_target_ipatch x model request = Inr (s, t)"
    and c: "check_target_rule (ac_snapshot a) t if_match = Inr ()"
    and tree: "patched_tree x model s (ac_snapshot a) t = Inr tree" and p: "prepare_candidate x a tree = Inr p"
    by (rule ipatch_candidate_Inr)
  have "cd_tree (pc_data p) = tree"
    using p by (auto simp: prepare_candidate_Inr dest: prepared_tree_of)
  with d c tree changed show ?thesis
    by (auto simp: check_target_rule_def publish_locked_facts list_ex_iff split: if_splits option.splits)
      (metis image_eqI)+
qed simp

lemma ipatch_guarded_witness:
  "active_generation world_published = active_generation world_active + 1"
  using ipatch_guarded [OF world_patch_applied] by blast

text \<open>What a successful operation has done.\<close>

lemma duplicate_succeeded:
  assumes "apply_duplicate_operation x model a operation = (a', Answered (Inr result))"
  shows "\<exists>expected. expected_duplicate_tree x model (ac_snapshot a) (op_request operation) (op_instances operation)
      = Inr expected \<and>
    (if selector_id (dr_destination (op_request operation)) \<in> rule_id_of ` set (cd_rules (active_data a)) then
       a' = a \<and> result = Idempotent (active_generation a) (cd_tag (active_data a)) \<and>
       find_tree_rule (cd_tree (active_data a)) model (dr_destination (op_request operation))
         = find_tree_rule expected model (dr_destination (op_request operation))
     else
       cd_tree (active_data a') = expected \<and> active_generation a' = active_generation a + 1 \<and>
       result = Applied (active_generation a') (cd_tag (active_data a')) \<and>
       (\<forall>ns. sn_dynamic (ac_snapshot a) = Some ns \<longrightarrow>
          accepts ns (selector_id (dr_destination (op_request operation)))))"
proof -
  have None_iff: "List.find (\<lambda>r. rule_id_of r = i) rs = None \<longleftrightarrow> i \<notin> rule_id_of ` set rs" for i rs
    by (rule find_None_ids)
  show ?thesis
  proof (cases "duplicate_candidate x model a operation")
    case (Inl e)
    with assms show ?thesis by (simp add: apply_duplicate_operation_def)
  next
    case (Inr c)
    then obtain p rule existing where c: "duplicate_candidate x model a operation = Inr (p, rule, existing)"
      by (cases c) auto
    then obtain expected where e: "expected_duplicate_tree x model (ac_snapshot a) (op_request operation)
        (op_instances operation) = Inr expected"
      and p: "prepare_candidate x a expected = Inr p"
      and r: "find_tree_rule expected model (dr_destination (op_request operation)) = Inr (Some rule)"
      and ex: "existing = List.find (\<lambda>r. rule_id_of r = selector_id (dr_destination (op_request operation))) (cd_rules (active_data a))"
      and ns: "existing = None \<longrightarrow> (\<forall>ns. sn_dynamic (ac_snapshot a) = Some ns \<longrightarrow>
        accepts ns (selector_id (dr_destination (op_request operation))))"
      by (rule duplicate_candidate_Inr)
    have tree: "cd_tree (pc_data p) = expected"
      using p by (auto simp: prepare_candidate_Inr dest: prepared_tree_of)
    show ?thesis
    proof (cases existing)
      case None
      with assms c have "publish_and a p (\<lambda>a'. Inr (Applied (active_generation a') (cd_tag (active_data a'))) :: inspection_error + duplicate_result)
          = (a', Answered (Inr result))"
        by (simp add: apply_duplicate_operation_def)
      then have "publish_locked a p = Some a'" "result = Applied (active_generation a') (cd_tag (active_data a'))"
        by (auto elim: publish_and_cases)
      moreover have "selector_id (dr_destination (op_request operation)) \<notin> rule_id_of ` set (cd_rules (active_data a))"
        using None ex None_iff by metis
      ultimately show ?thesis using e tree ns None by (simp add: publish_locked_facts)
    next
      case (Some q)
      then have "selector_id (dr_destination (op_request operation)) \<in> rule_id_of ` set (cd_rules (active_data a))"
        using ex None_iff by (metis option.distinct(1))
      with Some assms c e r show ?thesis
        by (auto simp: apply_duplicate_operation_def Let_def attempt_Inr_iff ok_or_Inr_iff split: if_splits)
    qed
  qed
qed

lemma duplicate_installed:
  assumes "apply_duplicate_operation x model a operation = (a', answer)"
    and "selector_id (dr_destination (op_request operation)) \<in> rule_id_of ` set (cd_rules (active_data a))"
  shows "a' = a"
proof (cases "duplicate_candidate x model a operation")
  case (Inr c)
  then obtain p rule existing where c: "duplicate_candidate x model a operation = Inr (p, rule, existing)"
    by (cases c) auto
  then have "existing = List.find (\<lambda>r. rule_id_of r = selector_id (dr_destination (op_request operation))) (cd_rules (active_data a))"
    by (rule duplicate_candidate_Inr)
  with assms(2) have "existing \<noteq> None" using find_None_ids by metis
  with c assms(1) show ?thesis by (auto simp: apply_duplicate_operation_def Let_def)
qed (use assms(1) in \<open>simp add: apply_duplicate_operation_def\<close>)

lemma duplicate_failed:
  assumes "apply_duplicate_operation x model a operation = (a', answer)" and "\<nexists>result. answer = Answered (Inr result)"
  shows "a' = a"
  using assms
  by (auto simp: apply_duplicate_operation_def publish_and_def Let_def split: sum.splits prod.splits if_splits option.splits)

text \<open>C10: A duplicate never overwrites. When the destination is installed already the context does
  not change, whatever the answer; nor does it when the operation fails or the generation counter is
  used up. Success at an installed destination means that its rule is the one the operation would
  install; success at a new one publishes the expected tree as the next generation, with a destination
  the namespace accepts.\<close>

theorem duplicate_never_overwrites:
  assumes "apply_duplicate_operation x model a operation = (a', answer)"
  shows "(selector_id (dr_destination (op_request operation)) \<in> rule_id_of ` set (cd_rules (active_data a)) \<longrightarrow> a' = a) \<and>
    ((\<nexists>result. answer = Answered (Inr result)) \<longrightarrow> a' = a) \<and>
    (\<forall>result. answer = Answered (Inr result) \<longrightarrow>
      (\<exists>expected. expected_duplicate_tree x model (ac_snapshot a) (op_request operation) (op_instances operation)
        = Inr expected \<and>
      (if selector_id (dr_destination (op_request operation)) \<in> rule_id_of ` set (cd_rules (active_data a)) then
         a' = a \<and> result = Idempotent (active_generation a) (cd_tag (active_data a)) \<and>
         find_tree_rule (cd_tree (active_data a)) model (dr_destination (op_request operation))
           = find_tree_rule expected model (dr_destination (op_request operation))
       else
         cd_tree (active_data a') = expected \<and> active_generation a' = active_generation a + 1 \<and>
         result = Applied (active_generation a') (cd_tag (active_data a')) \<and>
         (\<forall>ns. sn_dynamic (ac_snapshot a) = Some ns \<longrightarrow>
            accepts ns (selector_id (dr_destination (op_request operation)))))))"
proof (intro conjI impI allI)
  show "a' = a" if "selector_id (dr_destination (op_request operation)) \<in> rule_id_of ` set (cd_rules (active_data a))"
    using assms that by (rule duplicate_installed)
  show "a' = a" if "\<nexists>result. answer = Answered (Inr result)" using assms that by (rule duplicate_failed)
qed (rule duplicate_succeeded, use assms in simp)

lemma duplicate_never_overwrites_witness: "cd_tree (active_data world_published) = world_tree True"
proof -
  have "selector_id (selector 9 8) \<notin> rule_id_of ` set (cd_rules (active_data world_active))"
    by (simp add: selector_id_def world_rules_def Let_def)
  with duplicate_never_overwrites [OF world_applied] show ?thesis by (auto simp: world_expected)
qed

text \<open>C25: A copy without overrides can be sent again. When the operation was applied and its message
  arrives a second time at the same context, nothing changes and the answer is the same generation
  and tag, provided the datastore returns the tree it was given and the typed rules of the new
  context have the source as before and the destination.\<close>

theorem duplicate_retry_idempotent:
  assumes "active_ok x a" and "op_instances operation = []"
    and first: "apply_duplicate_operation x model a operation = (a', Answered (Inr (Applied g t)))"
    and "\<And>tree ds. datastore_with_data x model tree = Inr ds \<Longrightarrow> get_all x ds = tree"
    and "\<And>s. resolve_sids model = Inr s \<Longrightarrow>
       rule_key model (sid_rule_id_value s) \<noteq> rule_key model (sid_rule_id_length s)"
    and "List.find (\<lambda>r. rule_id_of r = selector_id (dr_source (op_request operation))) (cd_rules (active_data a'))
       = List.find (\<lambda>r. rule_id_of r = selector_id (dr_source (op_request operation))) (cd_rules (active_data a))"
    and "selector_id (dr_destination (op_request operation)) \<in> rule_id_of ` set (cd_rules (active_data a'))"
  shows "apply_duplicate_operation x model a' operation = (a', Answered (Inr (Idempotent g t)))"
proof -
  let ?r = "op_request operation" and ?msg = "''source rule is absent from the typed snapshot''"
  from first obtain p rule where c: "duplicate_candidate x model a operation = Inr (p, rule, None)"
    and pub: "publish_locked a p = Some a'" and gt: "g = active_generation a'" "t = cd_tag (active_data a')"
    by (rule apply_duplicate_cases) auto
  from c obtain expected where e: "expected_duplicate_tree x model (ac_snapshot a) ?r [] = Inr expected"
    and p: "prepare_candidate x a expected = Inr p"
    by (rule duplicate_candidate_Inr) (simp add: assms(2))
  have tree: "cd_tree (active_data a') = expected"
    using p pub by (auto simp: prepare_candidate_Inr publish_locked_facts dest: prepared_tree_of)
  have pol: "cd_protected (active_data a') = cd_protected (active_data a)"
    using publication_ok(2) [OF assms(1) prepared_publication [OF p pub]] .
  obtain s src candidate ds u where s: "validate_duplicate_model_shape model = Inr s"
    and src: "find_tree_rule (cd_tree (active_data a)) model (dr_source ?r) = Inr (Some src)"
    and chk: "check_duplicate_rules (ac_snapshot a) ?r ?msg = Inr u"
    and ne: "dr_source ?r \<noteq> dr_destination ?r"
    and dt: "duplicated_tree model s (cd_tree (active_data a)) (dr_destination ?r) src = Inr candidate"
    and ds: "datastore_with_data x model candidate = Inr ds" and ex: "expected = get_all x ds"
    using e unfolding expected_duplicate_tree_def Let_def
    by (auto simp: attempt_Inr_iff ok_or_Inr_iff map_err_Inr_iff split: if_splits)
  have sids: "resolve_sids model = Inr s"
    using s by (auto simp: validate_duplicate_model_shape_def attempt_Inr_iff split: option.splits)
  note keys = assms(5) [OF sids]
  have cand: "candidate = expected" using assms(4) [OF ds] ex by simp
  have src': "find_tree_rule expected model (dr_source ?r) = Inr (Some src)"
    and dst': "\<exists>q. find_tree_rule expected model (dr_destination ?r) = Inr (Some q)"
    using find_duplicated_tree [OF sids dt keys] src ne dt
    by (auto simp: cand duplicated_tree_def attempt_Inr_iff)
  have chk': "check_duplicate_rules (ac_snapshot a') ?r ?msg = Inr u"
    using chk assms(6) by (simp add: check_duplicate_rules_def pol)
  have e': "expected_duplicate_tree x model (ac_snapshot a') ?r [] = Inr expected"
    using s src' chk' ne duplicated_tree_twice [OF dt keys] ds ex
    by (simp add: expected_duplicate_tree_def tree cand)
  have ok': "active_ok x a'" using publication_ok(1) [OF assms(1) prepared_publication [OF p pub]] .
  have p': "prepare_candidate x a' expected = Inr p"
    using p pub publishable [OF ok', of expected p] pol validate_candidate_Inr(3) [of x a "ac_snapshot a" p]
    by (auto simp: prepare_candidate_Inr publish_locked_facts)
  obtain q where q: "find_tree_rule expected model (dr_destination ?r) = Inr (Some q)" using dst' by blast
  obtain old where "List.find (\<lambda>r. rule_id_of r = selector_id (dr_destination ?r)) (cd_rules (active_data a')) = Some old"
    using assms(7) find_None_ids by (metis not_None_eq)
  with e' p' q have "duplicate_candidate x model a' operation = Inr (p, q, Some old)"
    by (simp add: duplicate_candidate_def Let_def assms(2) split: option.splits)
  with q show ?thesis by (simp add: apply_duplicate_operation_def tree gt)
qed

lemma duplicate_retry_idempotent_witness:
  "apply_duplicate_operation world world_model world_published world_copy
   = (world_published, Answered (Inr (Idempotent 2 (cd_tag (active_data world_published)))))"
proof (rule duplicate_retry_idempotent [OF world_active_ok _ world_applied])
  have p: "active_data world_published = pc_data (world_prepared True)"
    by (simp add: world_published_def from_prepared_def)
  show "List.find (\<lambda>r. rule_id_of r = selector_id (dr_source (op_request world_copy))) (cd_rules (active_data world_published))
      = List.find (\<lambda>r. rule_id_of r = selector_id (dr_source (op_request world_copy))) (cd_rules (active_data world_active))"
    by (simp add: p selector_id_def world_rules_def Let_def)
  show "selector_id (dr_destination (op_request world_copy)) \<in> rule_id_of ` set (cd_rules (active_data world_published))"
    by (simp add: p selector_id_def world_rules_def Let_def)
  show "rule_key world_model (sid_rule_id_value s) \<noteq> rule_key world_model (sid_rule_id_length s)"
    if "resolve_sids world_model = Inr s" for s
    using that by simp
qed simp_all

text \<open>The check of the console reaches the device's answer. The packet of a context check, whatever
  tag it carries, is answered with the device's tag in the form the console decodes, and the
  context does not change.\<close>

theorem context_check_answered:
  assumes "length core_tag = 8"
  shows "handle_packet x model a ((base_request MFetch message_id)\<lparr>lp_payload := context_check_marker # core_tag\<rparr>)
    = (a, Answered (packet_without_content_format x
        ((base_request MFetch message_id)\<lparr>lp_payload := context_check_marker # core_tag\<rparr>)
        (ContentResponse (context_check_payload core_tag (cd_tag (active_data a))) YangDataCborSid)))"
  using assms
  by (simp add: handle_packet_def is_duplicate_rule_coap_shape_def base_request_def add_option_def get_option_def
      option_numbers is_mutation_def handle_context_check_def context_tag_len_def)

lemma context_check_answered_witness:
  "fst (handle_packet world world_model world_active
     ((base_request MFetch 1)\<lparr>lp_payload := context_check_marker # [1, 2, 3, 4, 5, 6, 7, 8]\<rparr>)) = world_active"
  by (subst context_check_answered) simp_all

end
