(* ===== verification/CoapCost.thy ===== *)
theory CoapCost
  imports Device
begin

text \<open>
  The byte cost of a CoAP datagram (\<open>inspect_coap\<close> of \<open>src/report.rs\<close>): the walk over the encoded
  options with the cost of each of their parts. The walk is compared with an encoder written from
  the CoAP message format, which is not part of the program.
\<close>

subsection \<open>Machine arithmetic\<close>

text \<open>\<open>checked_add\<close>, \<open>checked_sub\<close> and \<open>checked_mul\<close> on \<open>usize\<close>.\<close>

definition checked_add :: "nat \<Rightarrow> nat \<Rightarrow> nat option" where
  "checked_add m n = (if usize_bound \<le> m + n then None else Some (m + n))"

definition checked_sub :: "nat \<Rightarrow> nat \<Rightarrow> nat option" where
  "checked_sub m n = (if m < n then None else Some (m - n))"

definition checked_mul :: "nat \<Rightarrow> nat \<Rightarrow> nat option" where
  "checked_mul m n = (if usize_bound \<le> m * n then None else Some (m * n))"

lemma checked_Some [result_simps]:
  "checked_add m n = Some k \<longleftrightarrow> m + n < usize_bound \<and> k = m + n"
  "checked_sub m n = Some k \<longleftrightarrow> n \<le> m \<and> k = m - n"
  "checked_mul m n = Some k \<longleftrightarrow> m * n < usize_bound \<and> k = m * n"
  by (auto simp: checked_add_def checked_sub_def checked_mul_def)

subsection \<open>Costs\<close>

datatype report_error = InvalidPacket string | InvalidSchc string

fun show_report_error :: "report_error \<Rightarrow> string" where
  "show_report_error (InvalidPacket e) = ''packet report rejected: '' @ e"
| "show_report_error (InvalidSchc e) = ''packet report SCHC accounting failed: '' @ e"

record option_cost =
  oc_number :: nat
  oc_value_bytes :: nat
  oc_header_bytes :: nat
  oc_delta_extension_bytes :: nat
  oc_length_extension_bytes :: nat
  oc_encoded_bytes :: nat

record coap_cost =
  cc_base_header_bytes :: nat
  cc_token_bytes :: nat
  cc_options :: "option_cost list"
  cc_payload_marker_bytes :: nat
  cc_payload_bytes :: nat
  cc_total_bytes :: nat

subsection \<open>The options of a datagram\<close>

text \<open>
  The value of an option nibble and of its extension bytes, with the offset after them. The
  offset is a \<open>usize\<close>; the value fits \<open>u32\<close>.
\<close>

definition read_coap_extended :: "byte \<Rightarrow> bytes \<Rightarrow> nat \<Rightarrow> string \<Rightarrow> report_error + nat \<times> nat" where
  "read_coap_extended nibble bs offset label =
     (if nibble \<le> 12 then Inr (unat nibble, offset)
      else if nibble = 13 then
        (if offset < length bs then Inr (unat (bs ! offset) + 13, offset + 1)
         else Inl (InvalidPacket (''CoAP '' @ label @ '' extension is truncated'')))
      else if nibble = 14 then
        (if usize_bound \<le> offset + 2 then Inl (InvalidPacket (''CoAP '' @ label @ '' extension overflows''))
         else if length bs < offset + 2 then
           Inl (InvalidPacket (''CoAP '' @ label @ '' extension is truncated''))
         else Inr (be_nat [bs ! offset, bs ! (offset + 1)] + 269, offset + 2))
      else Inl (InvalidPacket (''CoAP '' @ label @ '' uses reserved nibble'')))"

definition extended_bytes :: "byte \<Rightarrow> nat" where
  "extended_bytes nibble = (if nibble = 13 then 1 else if nibble = 14 then 2 else 0)"

text \<open>
  One option, from its header byte at \<open>offset\<close>. The conversion of its length from \<open>u32\<close> to
  \<open>usize\<close> cannot fail on a 64-bit target.
\<close>

definition read_option :: "bytes \<Rightarrow> nat \<Rightarrow> nat \<Rightarrow> report_error + option_cost \<times> nat" where
  "read_option bs offset previous =
     (let header = bs ! offset; delta_nibble = drop_bit 4 header; length_nibble = and header 0x0F in
      attempt (read_coap_extended delta_nibble bs (offset + 1) ''delta'') (\<lambda>(delta, offset1).
      attempt (read_coap_extended length_nibble bs offset1 ''length'') (\<lambda>(len, offset2).
      if u32_bound \<le> previous + delta then Inl (InvalidPacket ''CoAP option number overflow'')
      else
        attempt (ok_or (InvalidPacket ''CoAP option length overflow'') (checked_add offset2 len)) (\<lambda>stop.
        if length bs < stop then Inl (InvalidPacket ''CoAP option exceeds datagram'')
        else Inr (\<lparr>oc_number = previous + delta, oc_value_bytes = len, oc_header_bytes = 1,
                   oc_delta_extension_bytes = extended_bytes delta_nibble,
                   oc_length_extension_bytes = extended_bytes length_nibble,
                   oc_encoded_bytes = stop - offset\<rparr>, stop)))))"

lemma read_coap_extended_offset:
  "read_coap_extended nibble bs offset label = Inr (v, offset') \<Longrightarrow>
     offset' = offset + extended_bytes nibble"
  by (auto simp: read_coap_extended_def extended_bytes_def word_le_nat_alt split: if_splits)

lemma read_option_cost:
  assumes "read_option bs offset previous = Inr (c, stop)"
  shows "stop \<le> length bs" and "oc_encoded_bytes c = stop - offset" and "offset < stop"
    and "oc_header_bytes c + oc_delta_extension_bytes c + oc_length_extension_bytes c + oc_value_bytes c
           = oc_encoded_bytes c"
    and "oc_header_bytes c = 1" and "oc_number c < u32_bound"
  using assms unfolding read_option_def Let_def
  by (auto simp: result_simps split: prod.splits if_splits dest!: read_coap_extended_offset)

text \<open>The loop over the options, with the offset of the payload it ends at.\<close>

function coap_options :: "bytes \<Rightarrow> nat \<Rightarrow> nat \<Rightarrow> report_error + option_cost list \<times> nat" where
  "coap_options bs offset previous =
     (if length bs \<le> offset then Inr ([], offset)
      else if bs ! offset = 0xFF then
        (if length bs \<le> offset + 1 then Inl (InvalidPacket ''CoAP payload marker has no payload'')
         else Inr ([], offset + 1))
      else
        attempt (read_option bs offset previous) (\<lambda>(c, stop).
        attempt (coap_options bs stop (oc_number c)) (\<lambda>(cs, payload). Inr (c # cs, payload))))"
  by pat_completeness auto

termination
  by (relation "measure (\<lambda>(bs, offset, _). length bs - offset)")
    (auto dest: read_option_cost(1,3))

declare coap_options.simps [simp del]

definition option_matches :: "option_cost \<times> coap_option \<Rightarrow> bool" where
  "option_matches = (\<lambda>(c, o'). oc_number c = co_number o' \<and> oc_value_bytes c = length (co_value o'))"

definition inspect_coap :: "bytes \<Rightarrow> coap_message \<Rightarrow> report_error + coap_cost" where
  "inspect_coap bs message =
     (if length bs < 4 then Inl (InvalidPacket ''CoAP datagram is shorter than four bytes'')
      else let token_len = unat (and (bs ! 0) 0x0F) in
        attempt (ok_or (InvalidPacket ''CoAP token length overflow'') (checked_add 4 token_len)) (\<lambda>token_end.
        if length bs < token_end \<or> token_len \<noteq> length (cm_token message) then
          Inl (InvalidPacket ''CoAP token length is inconsistent'')
        else
          attempt (coap_options bs token_end 0) (\<lambda>(options, offset).
          attempt (ok_or (InvalidPacket ''CoAP payload length underflow'') (checked_sub (length bs) offset)) (\<lambda>payload_bytes.
          if length options \<noteq> length (cm_options message) \<or> payload_bytes \<noteq> length (cm_payload message) then
            Inl (InvalidPacket ''CoAP parsed fields do not match encoded datagram'')
          else if \<not> list_all option_matches (zip options (cm_options message)) then
            Inl (InvalidPacket ''CoAP option cost does not match parsed option'')
          else Inr \<lparr>cc_base_header_bytes = 4, cc_token_bytes = token_len, cc_options = options,
                    cc_payload_marker_bytes = of_bool (payload_bytes \<noteq> 0),
                    cc_payload_bytes = payload_bytes, cc_total_bytes = length bs\<rparr>))))"

subsection \<open>Every byte is accounted for\<close>

definition options_bytes :: "option_cost list \<Rightarrow> nat" where
  "options_bytes cs = sum_list (map oc_encoded_bytes cs)"

lemma options_bytes_simps [simp]:
  "options_bytes [] = 0" "options_bytes (c # cs) = oc_encoded_bytes c + options_bytes cs"
  by (simp_all add: options_bytes_def)

definition option_adds_up :: "option_cost \<Rightarrow> bool" where
  "option_adds_up c \<longleftrightarrow>
     oc_header_bytes c + oc_delta_extension_bytes c + oc_length_extension_bytes c + oc_value_bytes c
       = oc_encoded_bytes c"

text \<open>The options, the marker when there is a payload, and the payload fill the rest of the datagram.\<close>

lemma coap_options_cost:
  assumes "coap_options bs offset previous = Inr (cs, payload)" and "offset \<le> length bs"
  shows "offset + options_bytes cs + of_bool (payload < length bs) + (length bs - payload) = length bs
    \<and> payload \<le> length bs \<and> list_all option_adds_up cs"
  using assms
proof (induction bs offset previous arbitrary: cs payload rule: coap_options.induct)
  case (1 bs offset previous)
  consider "length bs \<le> offset" | "offset < length bs" "bs ! offset = 0xFF"
    | "offset < length bs" "bs ! offset \<noteq> 0xFF" by linarith
  then show ?case
  proof cases
    case 3
    with 1 obtain c stop ds where c: "read_option bs offset previous = Inr (c, stop)"
      and ds: "coap_options bs stop (oc_number c) = Inr (ds, payload)" and cs: "cs = c # ds"
      by (auto simp: coap_options.simps [of bs offset previous] attempt_Inr_iff split: prod.splits)
    note cost = read_option_cost [OF c]
    have "stop + options_bytes ds + of_bool (payload < length bs) + (length bs - payload) = length bs
      \<and> payload \<le> length bs \<and> list_all option_adds_up ds"
      using 1(1) [OF _ 3(2) c refl ds] 3 cost(1) by simp
    moreover have "option_adds_up c" using cost(4) by (simp add: option_adds_up_def)
    ultimately show ?thesis using cs cost(1-3) by simp
  qed (use 1(2,3) in \<open>auto simp: coap_options.simps [of bs offset previous] split: if_splits\<close>)
qed


lemma inspect_coap_bytes:
  assumes "inspect_coap bs message = Inr c"
  shows "cc_base_header_bytes c + cc_token_bytes c + options_bytes (cc_options c)
      + cc_payload_marker_bytes c + cc_payload_bytes c = length bs
    \<and> cc_total_bytes c = length bs \<and> list_all option_adds_up (cc_options c)"
proof -
  obtain offset where "coap_options bs (4 + cc_token_bytes c) 0 = Inr (cc_options c, offset)"
    and "4 + cc_token_bytes c \<le> length bs" and "cc_payload_bytes c = length bs - offset"
    and "cc_payload_marker_bytes c = of_bool (cc_payload_bytes c \<noteq> 0)"
    and "cc_base_header_bytes c = 4" and "cc_total_bytes c = length bs"
    using assms unfolding inspect_coap_def Let_def
    by (auto simp: result_simps split: if_splits prod.splits)
  with coap_options_cost show ?thesis by fastforce
qed

text \<open>When the accounting of a CoAP datagram succeeds, the four header bytes, the token, the
  encoded options, the payload marker and the payload add up to the length of the datagram, and the
  encoded size of every option is the sum of its header byte, its extension bytes and its value. So
  the consistency check that follows in \<open>inspect_report\<close> cannot fail.\<close>

theorem coap_cost_adds_up:
  assumes "inspect_coap bs message = Inr c"
  shows "cc_base_header_bytes c + cc_token_bytes c + options_bytes (cc_options c)
      + cc_payload_marker_bytes c + cc_payload_bytes c = length bs
    \<and> cc_total_bytes c = length bs \<and> list_all option_adds_up (cc_options c)"
  using assms by (rule inspect_coap_bytes)

subsection \<open>Comparison with an encoder\<close>

text \<open>
  A slice is never longer than \<open>isize::MAX\<close>. A CoAP message as the message format defines it: the version, type and token length in the first
  byte, the code, the message ID, the token, the options as differences of their numbers, and the
  payload behind a marker byte.
\<close>

definition nibble_of :: "nat \<Rightarrow> nat" where
  "nibble_of n = (if n < 13 then n else if n < 269 then 13 else 14)"

definition extension_of :: "nat \<Rightarrow> bytes" where
  "extension_of n = (if n < 13 then [] else if n < 269 then be_bytes 1 (n - 13) else be_bytes 2 (n - 269))"

definition encoded_option :: "nat \<Rightarrow> coap_option \<Rightarrow> bytes" where
  "encoded_option previous o' =
     (let delta = co_number o' - previous; len = length (co_value o') in
      of_nat (16 * nibble_of delta + nibble_of len) # extension_of delta @ extension_of len @ co_value o')"

fun encoded_options :: "nat \<Rightarrow> coap_option list \<Rightarrow> bytes" where
  "encoded_options previous [] = []"
| "encoded_options previous (o' # os) = encoded_option previous o' @ encoded_options (co_number o') os"

definition encoded_payload :: "bytes \<Rightarrow> bytes" where
  "encoded_payload p = (if p = [] then [] else 0xFF # p)"

definition encoded_message :: "coap_message \<Rightarrow> bytes" where
  "encoded_message m =
     [of_nat (64 * cm_version m + 16 * cm_type m + length (cm_token m)), of_nat (cm_code m)]
       @ be_bytes 2 (cm_message_id m) @ cm_token m @ encoded_options 0 (cm_options m)
       @ encoded_payload (cm_payload m)"

fun options_encodable :: "nat \<Rightarrow> coap_option list \<Rightarrow> bool" where
  "options_encodable previous [] = True"
| "options_encodable previous (o' # os) \<longleftrightarrow>
     previous \<le> co_number o' \<and> co_number o' - previous < 65805 \<and> co_number o' < u32_bound
     \<and> length (co_value o') < 65805 \<and> options_encodable (co_number o') os"

definition message_encodable :: "coap_message \<Rightarrow> bool" where
  "message_encodable m \<longleftrightarrow>
     cm_version m < 4 \<and> cm_type m < 4 \<and> length (cm_token m) < 16 \<and> options_encodable 0 (cm_options m)
     \<and> length (encoded_message m) < 2 ^ 63"

text \<open>The cost of an option in terms of the message alone.\<close>

definition extension_bytes :: "nat \<Rightarrow> nat" where
  "extension_bytes n = (if n < 13 then 0 else if n < 269 then 1 else 2)"

fun expected_costs :: "nat \<Rightarrow> coap_option list \<Rightarrow> option_cost list" where
  "expected_costs previous [] = []"
| "expected_costs previous (o' # os) =
     (let d = extension_bytes (co_number o' - previous); l = extension_bytes (length (co_value o')) in
      \<lparr>oc_number = co_number o', oc_value_bytes = length (co_value o'), oc_header_bytes = 1,
       oc_delta_extension_bytes = d, oc_length_extension_bytes = l,
       oc_encoded_bytes = 1 + d + l + length (co_value o')\<rparr>)
     # expected_costs (co_number o') os"

lemma nibble_of_bound: "nibble_of n < 15"
  by (simp add: nibble_of_def)

lemma length_extension_of: "length (extension_of n) = extension_bytes n"
  by (simp add: extension_of_def extension_bytes_def)

lemma header_nibbles:
  assumes "m < 16" and "n < 16"
  shows "drop_bit 4 (of_nat (16 * m + n) :: byte) = of_nat m"
    and "and (of_nat (16 * m + n) :: byte) 0x0F = of_nat n"
proof -
  show "drop_bit 4 (of_nat (16 * m + n) :: byte) = of_nat m"
    using assms by (intro unsigned_word_eqI [where 'a = nat])
      (simp add: unat_drop_bit_eq drop_bit_nat_def unat_of_nat del: of_nat_add of_nat_mult)
  have "and w 0x0F = take_bit 4 w" for w :: byte by (simp add: take_bit_eq_mask mask_eq_exp_minus_1)
  then show "and (of_nat (16 * m + n) :: byte) 0x0F = of_nat n"
    using assms by (intro unsigned_word_eqI [where 'a = nat])
      (simp add: unsigned_take_bit_eq take_bit_nat_def unat_of_nat del: of_nat_add of_nat_mult)
qed

lemma of_nat_byte_iff:
  assumes "k < 256"
  shows "(of_nat k :: byte) = w \<longleftrightarrow> k = unat w" and "(of_nat k :: byte) \<le> w \<longleftrightarrow> k \<le> unat w"
proof -
  have "unat (of_nat k :: byte) = k" using assms by simp
  then show "(of_nat k :: byte) = w \<longleftrightarrow> k = unat w" "(of_nat k :: byte) \<le> w \<longleftrightarrow> k \<le> unat w"
    by (auto simp: word_le_nat_alt)
qed

lemma one_element: "length xs = 1 \<Longrightarrow> \<exists>a. xs = [a]"
  by (cases xs) auto

lemma two_elements: "length xs = 2 \<Longrightarrow> \<exists>a b. xs = [a, b]"
  by (cases xs; cases "tl xs") auto

lemma read_extension:
  assumes "n < 65805" and "length pre + 2 < usize_bound"
  shows "read_coap_extended (of_nat (nibble_of n)) (pre @ extension_of n @ rest) (length pre) label
    = Inr (n, length pre + extension_bytes n)"
proof -
  consider "n < 13" | "13 \<le> n" "n < 269" | "269 \<le> n" by linarith
  then show ?thesis
  proof cases
    case 1
    then show ?thesis
      by (simp add: read_coap_extended_def nibble_of_def extension_of_def extension_bytes_def of_nat_byte_iff)
  next
    case 2
    obtain b where b: "be_bytes 1 (n - 13) = [b]"
      using one_element [OF length_be_bytes] by blast
    have "be_nat [b] = n - 13" using be_nat_be_bytes [of 1 "n - 13"] 2 unfolding b by simp
    then have "unat b = n - 13" by (simp add: be_nat_def)
    with 2 b show ?thesis
      by (simp add: read_coap_extended_def nibble_of_def extension_of_def extension_bytes_def del: be_bytes.simps)
  next
    case 3
    obtain a b where ab: "be_bytes 2 (n - 269) = [a, b]"
      using two_elements [OF length_be_bytes] by blast
    have "be_nat [a, b] = n - 269"
      using be_nat_be_bytes [of 2 "n - 269"] assms(1) unfolding ab by simp
    with 3 ab assms(2) show ?thesis
      by (simp add: read_coap_extended_def nibble_of_def extension_of_def extension_bytes_def nth_append
          del: be_bytes.simps)
  qed
qed

lemma extended_bytes_nibble: "extended_bytes (of_nat (nibble_of n)) = extension_bytes n"
  using nibble_of_bound [of n]
  by (simp add: extended_bytes_def extension_bytes_def of_nat_byte_iff) (simp add: nibble_of_def)

lemma length_encoded_option:
  "length (encoded_option previous o') =
     1 + extension_bytes (co_number o' - previous) + extension_bytes (length (co_value o')) + length (co_value o')"
  by (simp add: encoded_option_def Let_def length_extension_of)

lemma read_encoded_option:
  assumes bs: "bs = pre @ encoded_option previous o' @ rest" and len: "length bs + 2 < usize_bound"
    and ok: "options_encodable previous [o']"
  shows "read_option bs (length pre) previous =
    Inr (hd (expected_costs previous [o']), length pre + length (encoded_option previous o'))"
proof -
  define delta where "delta = co_number o' - previous"
  define n where "n = length (co_value o')"
  define h where "h = (of_nat (16 * nibble_of delta + nibble_of n) :: byte)"
  have n: "delta < 65805" "n < 65805" "previous + delta = co_number o'" "co_number o' < u32_bound"
    using ok by (simp_all add: delta_def n_def)
  have opt: "encoded_option previous o' = h # extension_of delta @ extension_of n @ co_value o'"
    by (simp add: encoded_option_def Let_def delta_def n_def h_def)
  have nibbles: "drop_bit 4 h = of_nat (nibble_of delta)" "and h 0x0F = of_nat (nibble_of n)"
    using header_nibbles [of "nibble_of delta" "nibble_of n"] nibble_of_bound [of delta] nibble_of_bound [of n]
    by (simp_all add: h_def)
  have bs1: "bs = (pre @ [h]) @ extension_of delta @ (extension_of n @ co_value o' @ rest)"
    and bs2: "bs = (pre @ [h] @ extension_of delta) @ extension_of n @ (co_value o' @ rest)"
    by (simp_all add: bs opt)
  have r1: "read_coap_extended (of_nat (nibble_of delta)) bs (length pre + 1) ''delta''
      = Inr (delta, length pre + 1 + extension_bytes delta)"
    using read_extension [of delta "pre @ [h]" "extension_of n @ co_value o' @ rest"] n(1) len bs1
    by simp
  have r2: "read_coap_extended (of_nat (nibble_of n)) bs (length pre + 1 + extension_bytes delta) ''length''
      = Inr (n, length pre + 1 + extension_bytes delta + extension_bytes n)"
    using read_extension [of n "pre @ [h] @ extension_of delta" "co_value o' @ rest"] n(2) len bs2
    by (simp add: length_extension_of)
  have h: "bs ! length pre = h" by (simp add: bs opt)
  have stop: "length pre + 1 + extension_bytes delta + extension_bytes n + n \<le> length bs"
    by (simp add: bs opt length_extension_of n_def)
  show ?thesis
    using r1 r2 stop len n
    by (simp add: read_option_def h Let_def nibbles extended_bytes_nibble length_encoded_option
        checked_add_def flip: delta_def n_def)
qed

lemma coap_options_encoded:
  assumes "bs = pre @ encoded_options previous os @ encoded_payload p" and "length bs + 2 < usize_bound"
    and "options_encodable previous os"
  shows "coap_options bs (length pre) previous = Inr (expected_costs previous os, length bs - length p)"
  using assms
proof (induction os arbitrary: pre previous)
  case Nil
  then show ?case by (cases p) (simp_all add: coap_options.simps encoded_payload_def)
next
  case (Cons o' os)
  let ?e = "encoded_option previous o'"
  have read: "read_option bs (length pre) previous = Inr (hd (expected_costs previous [o']), length pre + length ?e)"
    using Cons.prems by (intro read_encoded_option [where rest = "encoded_options (co_number o') os @ encoded_payload p"]) auto
  have rest: "coap_options bs (length pre + length ?e) (co_number o') =
      Inr (expected_costs (co_number o') os, length bs - length p)"
    using Cons.IH [of "pre @ ?e" "co_number o'"] Cons.prems by simp
  have "?e \<noteq> []" by (simp add: encoded_option_def Let_def)
  moreover have "hd ?e \<noteq> 0xFF"
  proof -
    let ?n = "16 * nibble_of (co_number o' - previous) + nibble_of (length (co_value o'))"
    have "?n < 255" using nibble_of_bound [of "co_number o' - previous"] nibble_of_bound [of "length (co_value o')"]
      by linarith
    then show ?thesis by (simp add: encoded_option_def Let_def of_nat_byte_iff del: of_nat_add of_nat_mult)
  qed
  ultimately have "length pre < length bs" and "bs ! length pre \<noteq> 0xFF"
    using Cons.prems(1) by (auto simp: nth_append hd_conv_nth)
  then show ?case
    using read rest by (simp add: coap_options.simps [of bs "length pre"] Let_def)
qed

lemma expected_costs_match:
  "length (expected_costs previous os) = length os \<and> list_all option_matches (zip (expected_costs previous os) os)"
  by (induction os arbitrary: previous) (simp_all add: Let_def option_matches_def)

lemma inspect_encoded:
  assumes "message_encodable m"
  shows "inspect_coap (encoded_message m) m =
    Inr \<lparr>cc_base_header_bytes = 4, cc_token_bytes = length (cm_token m),
         cc_options = expected_costs 0 (cm_options m),
         cc_payload_marker_bytes = (if cm_payload m = [] then 0 else 1),
         cc_payload_bytes = length (cm_payload m), cc_total_bytes = length (encoded_message m)\<rparr>"
proof -
  define bs where "bs = encoded_message m"
  obtain a b where ab: "be_bytes 2 (cm_message_id m) = [a, b]"
    using two_elements [OF length_be_bytes] by blast
  define pre where "pre = of_nat (16 * (4 * cm_version m + cm_type m) + length (cm_token m)) # of_nat (cm_code m) # a # b
      # cm_token m"
  have bs: "bs = of_nat (16 * (4 * cm_version m + cm_type m) + length (cm_token m)) # of_nat (cm_code m) # a # b
      # cm_token m @ encoded_options 0 (cm_options m) @ encoded_payload (cm_payload m)"
    by (simp add: bs_def encoded_message_def ab algebra_simps del: be_bytes.simps)
  have pre: "bs = pre @ encoded_options 0 (cm_options m) @ encoded_payload (cm_payload m)"
    and length_pre: "length pre = 4 + length (cm_token m)"
    by (simp_all add: pre_def bs)
  have ok: "4 * cm_version m + cm_type m < 16" "length (cm_token m) < 16" "options_encodable 0 (cm_options m)"
    using assms(1) by (simp_all add: message_encodable_def)
  have token: "unat (and (bs ! 0) 0x0F) = length (cm_token m)"
    using header_nibbles(2) [OF ok(1,2)] ok(2) by (simp add: bs del: of_nat_add of_nat_mult)
  have options: "coap_options bs (4 + length (cm_token m)) 0 =
      Inr (expected_costs 0 (cm_options m), length bs - length (cm_payload m))"
    using coap_options_encoded [OF pre _ ok(3)] assms length_pre
    by (simp add: bs_def message_encodable_def usize_bound_def)
  have len: "4 + length (cm_token m) \<le> length bs" "length (cm_payload m) \<le> length bs"
    by (simp_all add: bs encoded_payload_def)
  show ?thesis
    using options len token ok(2) expected_costs_match [of 0 "cm_options m"]
    unfolding bs_def [symmetric] inspect_coap_def Let_def token
    by (auto simp: checked_add_def checked_sub_def usize_bound_def)
qed

text \<open>C34: On the encoding of any message whose options are in order of their numbers, the accounting
  succeeds and gives, for every option, exactly its number, the length of its value, and the number
  of extension bytes that its number difference and its length need; the token and payload sizes are
  those of the message, and the marker is counted exactly when there is a payload.\<close>

theorem inspect_coap_exact:
  assumes "message_encodable m"
  shows "inspect_coap (encoded_message m) m =
    Inr \<lparr>cc_base_header_bytes = 4, cc_token_bytes = length (cm_token m),
         cc_options = expected_costs 0 (cm_options m),
         cc_payload_marker_bytes = (if cm_payload m = [] then 0 else 1),
         cc_payload_bytes = length (cm_payload m), cc_total_bytes = length (encoded_message m)\<rparr>"
  using assms by (rule inspect_encoded)

definition demo_message :: coap_message where
  "demo_message = \<lparr>cm_version = 1, cm_type = 1, cm_code = 2, cm_message_id = 7, cm_token = [9],
     cm_options = [\<lparr>co_number = 11, co_value = [115, 99, 104, 99]\<rparr>, \<lparr>co_number = 60, co_value = [1]\<rparr>],
     cm_payload = [0xA0]\<rparr>"

lemma demo_message_ok: "length (encoded_message demo_message) = 15" "message_encodable demo_message"
  by (simp_all add: message_encodable_def demo_message_def encoded_message_def length_encoded_option
      extension_bytes_def encoded_payload_def Let_def u32_bound_def del: be_bytes.simps)

theorem inspect_coap_exact_witness:
  "inspect_coap (encoded_message demo_message) demo_message =
    Inr \<lparr>cc_base_header_bytes = 4, cc_token_bytes = 1,
         cc_options =
           [\<lparr>oc_number = 11, oc_value_bytes = 4, oc_header_bytes = 1, oc_delta_extension_bytes = 0,
             oc_length_extension_bytes = 0, oc_encoded_bytes = 5\<rparr>,
            \<lparr>oc_number = 60, oc_value_bytes = 1, oc_header_bytes = 1, oc_delta_extension_bytes = 1,
             oc_length_extension_bytes = 0, oc_encoded_bytes = 3\<rparr>],
         cc_payload_marker_bytes = 1, cc_payload_bytes = 1, cc_total_bytes = 15\<rparr>"
  using inspect_coap_exact [of demo_message] demo_message_ok
  by (simp add: usize_bound_def extension_bytes_def Let_def demo_message_def)

theorem coap_cost_adds_up_witness:
  "\<exists>c. inspect_coap (encoded_message demo_message) demo_message = Inr c
    \<and> cc_base_header_bytes c + cc_token_bytes c + options_bytes (cc_options c)
      + cc_payload_marker_bytes c + cc_payload_bytes c = 15"
proof -
  obtain c where c: "inspect_coap (encoded_message demo_message) demo_message = Inr c"
    using inspect_encoded [OF demo_message_ok(2)] by blast
  then show ?thesis using coap_cost_adds_up [OF c] demo_message_ok(1) by auto
qed

end
