(* ===== verification/Utf8.thy ===== *)
theory Utf8
  imports Prelude
begin

text \<open>
  The UTF-8 readers of the standard library that the programs use on received bytes:
  \<open>str::from_utf8\<close> and \<open>String::from_utf8_lossy\<close>. A string of the program is the list of the
  bytes of its encoding.
\<close>

definition text_of_bytes :: "bytes \<Rightarrow> string" where
  "text_of_bytes bs = map (\<lambda>b. char_of (unat b)) bs"

subsection \<open>One encoded character\<close>

text \<open>The length of the encoding a byte starts, 0 when it starts none.\<close>

definition utf8_width :: "byte \<Rightarrow> nat" where
  "utf8_width b = (let n = unat b in
     if n < 128 then 1
     else if 0xC2 \<le> n \<and> n \<le> 0xDF then 2
     else if 0xE0 \<le> n \<and> n \<le> 0xEF then 3
     else if 0xF0 \<le> n \<and> n \<le> 0xF4 then 4
     else 0)"

definition utf8_continuation :: "byte \<Rightarrow> bool" where
  "utf8_continuation b \<longleftrightarrow> (let n = unat b in 0x80 \<le> n \<and> n \<le> 0xBF)"

text \<open>The second byte excludes over-long encodings, surrogates and values above the last character.\<close>

definition utf8_second :: "byte \<Rightarrow> byte \<Rightarrow> bool" where
  "utf8_second b c \<longleftrightarrow> utf8_continuation c \<and>
     (unat b = 0xE0 \<longrightarrow> 0xA0 \<le> unat c) \<and> (unat b = 0xED \<longrightarrow> unat c \<le> 0x9F) \<and>
     (unat b = 0xF0 \<longrightarrow> 0x90 \<le> unat c) \<and> (unat b = 0xF4 \<longrightarrow> unat c \<le> 0x8F)"

text \<open>Whether the bytes start with a character, and the length of it or of the invalid prefix.\<close>

fun utf8_scan :: "bytes \<Rightarrow> bool \<times> nat" where
  "utf8_scan [] = (False, 0)"
| "utf8_scan (b # bs) =
     (let w = utf8_width b in
      if w = 1 then (True, 1)
      else if w = 0 \<or> bs = [] \<or> \<not> utf8_second b (hd bs) then (False, 1)
      else if w = 2 then (True, 2)
      else if length bs < 2 \<or> \<not> utf8_continuation (bs ! 1) then (False, 2)
      else if w = 3 then (True, 3)
      else if length bs < 3 \<or> \<not> utf8_continuation (bs ! 2) then (False, 3)
      else (True, 4))"

lemma utf8_scan_positive: "bs \<noteq> [] \<Longrightarrow> 0 < snd (utf8_scan bs)"
  by (cases bs) (auto simp: Let_def)

lemma utf8_scan_bounded: "snd (utf8_scan bs) \<le> length bs"
proof (cases bs)
  case (Cons b cs)
  then show ?thesis by (cases cs) (auto simp: Let_def Suc_le_eq)
qed simp

subsection \<open>The two readers\<close>

function utf8_valid :: "bytes \<Rightarrow> bool" where
  "utf8_valid bs =
     (if bs = [] then True
      else if fst (utf8_scan bs) then utf8_valid (drop (snd (utf8_scan bs)) bs)
      else False)"
  by pat_completeness auto
termination
  by (relation "measure length") (simp_all add: utf8_scan_positive)

declare utf8_valid.simps [simp del]

definition from_utf8 :: "bytes \<Rightarrow> string option" where
  "from_utf8 bs = (if utf8_valid bs then Some (text_of_bytes bs) else None)"

text \<open>Every invalid prefix becomes one replacement character.\<close>

definition replacement_bytes :: bytes where
  "replacement_bytes = [0xEF, 0xBF, 0xBD]"

function lossy_bytes :: "bytes \<Rightarrow> bytes" where
  "lossy_bytes bs = (if bs = [] then [] else
     (if fst (utf8_scan bs) then take (snd (utf8_scan bs)) bs else replacement_bytes)
       @ lossy_bytes (drop (snd (utf8_scan bs)) bs))"
  by pat_completeness auto
termination
  by (relation "measure length") (simp_all add: utf8_scan_positive)

declare lossy_bytes.simps [simp del]

definition from_utf8_lossy :: "bytes \<Rightarrow> string" where
  "from_utf8_lossy bs = text_of_bytes (lossy_bytes bs)"

subsection \<open>Facts\<close>

lemma lossy_bytes_valid: "utf8_valid bs \<Longrightarrow> lossy_bytes bs = bs"
proof (induction bs rule: utf8_valid.induct)
  case (1 bs)
  show ?case
  proof (cases "bs = []")
    case False
    then have ok: "fst (utf8_scan bs)" "utf8_valid (drop (snd (utf8_scan bs)) bs)"
      using "1.prems" utf8_valid.simps [of bs] by (auto split: if_splits)
    then have "lossy_bytes (drop (snd (utf8_scan bs)) bs) = drop (snd (utf8_scan bs)) bs"
      using 1 False by blast
    with ok False show ?thesis by (simp add: lossy_bytes.simps [of bs])
  qed (simp add: lossy_bytes.simps)
qed

text \<open>A valid text is read as itself by both readers.\<close>

lemma from_utf8_lossy_valid: "from_utf8 bs = Some s \<Longrightarrow> from_utf8_lossy bs = s"
  by (auto simp: from_utf8_def from_utf8_lossy_def lossy_bytes_valid split: if_splits)

lemma utf8_valid_ascii: "\<forall>b \<in> set bs. unat b < 128 \<Longrightarrow> utf8_valid bs"
proof (induction bs)
  case (Cons b bs)
  then have "utf8_scan (b # bs) = (True, 1)" by (simp add: utf8_width_def)
  with Cons show ?case by (simp add: utf8_valid.simps [of "b # bs"])
qed (simp add: utf8_valid.simps)

lemma utf8_scan_prefix:
  assumes "fst (utf8_scan bs)"
  shows "utf8_scan (take (snd (utf8_scan bs)) bs @ cs) = utf8_scan bs"
proof (cases bs)
  case (Cons b ds)
  note bs = Cons
  show ?thesis
  proof (cases ds)
    case Nil
    with assms bs show ?thesis by (auto simp: Let_def split: if_splits)
  next
    case (Cons c es)
    note ds = Cons
    show ?thesis
    proof (cases es)
      case Nil
      with assms bs ds show ?thesis by (auto simp: Let_def split: if_splits)
    next
      case (Cons d fs)
      with assms bs ds show ?thesis by (cases fs) (auto simp: Let_def split: if_splits)
    qed
  qed
qed (use assms in simp)

lemma utf8_valid_char:
  assumes "fst (utf8_scan bs)" and "utf8_valid cs"
  shows "utf8_valid (take (snd (utf8_scan bs)) bs @ cs)"
proof -
  have "length (take (snd (utf8_scan bs)) bs) = snd (utf8_scan bs)" using utf8_scan_bounded by simp
  then show ?thesis
    using assms utf8_scan_prefix [OF assms(1), of cs]
    by (simp add: utf8_valid.simps [of "take (snd (utf8_scan bs)) bs @ cs"])
qed

lemma utf8_scan_replacement: "utf8_scan (replacement_bytes @ cs) = (True, 3)"
  by (simp add: replacement_bytes_def utf8_width_def utf8_second_def utf8_continuation_def)

text \<open>Whatever the bytes, the lossy reader gives a valid text.\<close>

lemma lossy_bytes_text: "utf8_valid (lossy_bytes bs)"
proof (induction bs rule: lossy_bytes.induct)
  case (1 bs)
  show ?case
  proof (cases "bs = []")
    case False
    then have IH: "utf8_valid (lossy_bytes (drop (snd (utf8_scan bs)) bs))" using 1 by blast
    show ?thesis
    proof (cases "fst (utf8_scan bs)")
      case True
      with False IH utf8_valid_char show ?thesis by (simp add: lossy_bytes.simps [of bs])
    next
      case False
      have "utf8_valid (replacement_bytes @ lossy_bytes (drop (snd (utf8_scan bs)) bs))"
        (is "utf8_valid (_ @ ?rest)")
      proof -
        have "drop 3 (replacement_bytes @ ?rest) = ?rest" and "replacement_bytes @ ?rest \<noteq> []"
          by (simp_all add: replacement_bytes_def)
        then show ?thesis
          using IH utf8_scan_replacement [of ?rest] by (simp add: utf8_valid.simps [of "replacement_bytes @ ?rest"])
      qed
      with False \<open>bs \<noteq> []\<close> show ?thesis by (simp add: lossy_bytes.simps [of bs])
    qed
  qed (simp add: lossy_bytes.simps utf8_valid.simps)
qed

end
