(* ===== verification/Report.thy ===== *)
theory Report
  imports CoapCost Utf8
begin

text \<open>
  Packet reports (\<open>src/report.rs\<close>): the costs of the packet layers and of the SCHC frame of one link
  report, the bit breakdown of a protected management report (\<open>management_bit_breakdown\<close> of
  \<open>src/management.rs\<close>), and the text of a report. The packet parser, its constants and the decoding
  of UTF-8 text (whose characters go beyond \<open>char\<close>) are fields of \<open>report_ext\<close>.
\<close>

subsection \<open>Third-party code\<close>

datatype packet_error = UnsupportedNextHeader nat | PacketRejected string

record report_ext = flow_ext +
  parse_coap_packet :: "bytes \<Rightarrow> packet_error + coap_packet"
  packet_error_text :: "packet_error \<Rightarrow> string"
  ipv6_header_len :: nat
  udp_header_len :: nat
  ipv6_version :: nat
  udp_next_header :: nat

subsection \<open>Report data\<close>

record layer_cost =
  ly_ipv6_header_bytes :: nat
  ly_udp_header_bytes :: nat
  ly_coap :: coap_cost
  ly_packet_bytes :: nat

record schc_cost =
  sc_meaningful_bits :: nat
  sc_padded_bytes :: nat
  sc_padding_bits :: nat

record ipv6_report =
  i6_version :: nat
  i6_traffic_class :: nat
  i6_flow_label :: nat
  i6_payload_length :: nat
  i6_next_header :: nat
  i6_hop_limit :: nat
  i6_source :: bytes
  i6_destination :: bytes

record udp_report =
  ur_source_port :: nat
  ur_destination_port :: nat
  ur_length :: nat
  ur_checksum :: nat

record option_description =
  od_number :: nat
  od_name :: string
  od_value :: string

record coap_report =
  cr_version :: nat
  cr_message_type :: nat
  cr_code :: nat
  cr_message_id :: nat
  cr_token_bytes :: nat
  cr_token :: string
  cr_options :: "option_description list"
  cr_payload_bytes :: nat

record packet_report =
  pr_ipv6 :: ipv6_report
  pr_udp :: udp_report
  pr_coap :: coap_report
  pr_layers :: layer_cost
  pr_schc :: schc_cost
  pr_rpc :: "rpc_cost option"

datatype report_direction = Tx | Rx

fun direction_label :: "report_direction \<Rightarrow> string" where
  "direction_label Tx = ''TX''"
| "direction_label Rx = ''RX''"

subsection \<open>Descriptions\<close>

definition option_name :: "nat \<Rightarrow> string" where
  "option_name n =
     (case map_of [(1, ''If-Match''), (3, ''Uri-Host''), (4, ''ETag''), (5, ''If-None-Match''), (6, ''Observe''),
        (7, ''Uri-Port''), (8, ''Location-Path''), (11, ''Uri-Path''), (12, ''Content-Format''), (14, ''Max-Age''),
        (15, ''Uri-Query''), (17, ''Accept''), (20, ''Location-Query''), (23, ''Block2''), (27, ''Block1''),
        (35, ''Proxy-Uri''), (39, ''Proxy-Scheme''), (60, ''Size1'')] n of
        Some name \<Rightarrow> name | None \<Rightarrow> ''Option'')"

text \<open>\<open>checked_mul(256)\<close> and \<open>checked_add\<close> on \<open>u64\<close>, stopping at the first overflow.\<close>

fun fold_u64 :: "nat \<Rightarrow> bytes \<Rightarrow> nat option" where
  "fold_u64 v [] = Some v"
| "fold_u64 v (b # bs) =
     (if u64_bound \<le> v * 256 \<or> u64_bound \<le> v * 256 + unat b then None else fold_u64 (v * 256 + unat b) bs)"

definition decode_unsigned :: "bytes \<Rightarrow> string" where
  "decode_unsigned bs =
     (if bs = [] then ''0''
      else if 8 < length bs then ''binary '' @ show_nat (length bs) @ '' B''
      else case fold_u64 0 bs of
        None \<Rightarrow> ''binary '' @ show_nat (length bs) @ '' B''
      | Some v \<Rightarrow> show_nat v)"

definition describe_option :: "coap_option \<Rightarrow> option_description" where
  "describe_option o' =
     \<lparr>od_number = co_number o', od_name = option_name (co_number o'),
      od_value =
        (if co_number o' = 1 then show_nat (length (co_value o')) @ '' B If-Match''
         else if co_number o' = 11 then from_utf8_lossy (co_value o')
         else if co_number o' \<in> {12, 17, 23, 35, 60} then decode_unsigned (co_value o')
         else show_nat (length (co_value o')) @ '' B'')\<rparr>"

definition is_ascii_graphic :: "byte \<Rightarrow> bool" where
  "is_ascii_graphic b \<longleftrightarrow> 0x21 \<le> b \<and> b \<le> 0x7E"

definition describe_token :: "bytes \<Rightarrow> string" where
  "describe_token token =
     (if token = [] then ''empty''
      else if list_all is_ascii_graphic token then from_utf8_lossy token
      else ''binary '' @ show_nat (length token) @ '' B'')"

definition message_type_name :: "nat \<Rightarrow> string" where
  "message_type_name n =
     (case map_of [(0, ''CON''), (1, ''NON''), (2, ''ACK''), (3, ''RST'')] n of Some s \<Rightarrow> s | None \<Rightarrow> ''unknown'')"

definition code_name :: "nat \<Rightarrow> string" where
  "code_name n =
     (case map_of [(1, ''0.01 GET''), (2, ''0.02 POST''), (3, ''0.03 PUT''), (4, ''0.04 DELETE''), (5, ''0.05 FETCH''),
        (65, ''2.01 Created''), (66, ''2.02 Deleted''), (67, ''2.03 Valid''), (68, ''2.04 Changed''), (69, ''2.05 Content''),
        (128, ''4.00 Bad Request''), (129, ''4.01 Unauthorized''), (132, ''4.04 Not Found''),
        (160, ''5.00 Internal Server Error'')] n of
        Some s \<Rightarrow> s | None \<Rightarrow> ''unknown code'')"

definition next_header_name :: "'x report_ext_scheme \<Rightarrow> nat \<Rightarrow> string" where
  "next_header_name x n = (if n = udp_next_header x then ''UDP'' else ''unknown'')"

subsection \<open>Inspection\<close>

definition validate_line_report :: "link_report \<Rightarrow> report_error + unit" where
  "validate_line_report r =
     (if lr_packet_size r \<noteq> length (lr_packet_bytes r) then
        Inl (InvalidPacket (''packet_size='' @ show_nat (lr_packet_size r) @ '' but packet_bytes has ''
          @ show_nat (length (lr_packet_bytes r)) @ '' bytes''))
      else if lr_padded_byte_len r \<noteq> length (lr_frame_bytes r) then
        Inl (InvalidSchc (''padded_byte_len='' @ show_nat (lr_padded_byte_len r) @ '' but frame_bytes has ''
          @ show_nat (length (lr_frame_bytes r)) @ '' bytes''))
      else Inr ())"

text \<open>The sum over the encoded options, with the overflow test of every addition.\<close>

fun checked_sum :: "nat \<Rightarrow> nat list \<Rightarrow> nat option" where
  "checked_sum acc [] = Some acc"
| "checked_sum acc (n # ns) = Option.bind (checked_add acc n) (\<lambda>t. checked_sum t ns)"

definition coap_total :: "coap_cost \<Rightarrow> nat option" where
  "coap_total c = checked_sum (cc_base_header_bytes c)
     (cc_token_bytes c # map oc_encoded_bytes (cc_options c) @ [cc_payload_marker_bytes c, cc_payload_bytes c])"

text \<open>The layer checks: the declared lengths, the CoAP cost and the sum of the layers.\<close>

definition inspect_layers :: "'x report_ext_scheme \<Rightarrow> bytes \<Rightarrow> report_error + coap_packet \<times> layer_cost" where
  "inspect_layers x bs =
     (if length bs < ipv6_header_len x then
        Inl (InvalidPacket (''IPv6 packet is shorter than '' @ show_nat (ipv6_header_len x) @ '' bytes''))
      else if unat (drop_bit 4 (bs ! 0)) \<noteq> ipv6_version x then
        Inl (InvalidPacket (''IPv6 version is '' @ show_nat (unat (drop_bit 4 (bs ! 0))) @ '', expected ''
          @ show_nat (ipv6_version x)))
      else
        attempt (map_err (\<lambda>e. InvalidPacket (packet_error_text x e)) (parse_coap_packet x bs)) (\<lambda>p.
        attempt (ok_or (InvalidPacket ''IPv6 packet length underflow'')
          (checked_sub (length bs) (ipv6_header_len x))) (\<lambda>expected.
        if ud_ipv6_payload_length p \<noteq> expected then
          Inl (InvalidPacket (''IPv6 payload length is '' @ show_nat (ud_ipv6_payload_length p)
            @ '', packet contains '' @ show_nat expected))
        else if ud_udp_length p \<noteq> expected \<or> ud_udp_length p < udp_header_len x then
          Inl (InvalidPacket (''UDP length is '' @ show_nat (ud_udp_length p) @ '', expected '' @ show_nat expected
            @ '' and at least '' @ show_nat (udp_header_len x)))
        else
          attempt (inspect_coap (ud_payload p) (cp_message p)) (\<lambda>cost.
          attempt (ok_or (InvalidPacket ''CoAP byte cost overflow'') (coap_total cost)) (\<lambda>total.
          if total \<noteq> length (ud_payload p) then
            Inl (InvalidPacket (''CoAP cost is '' @ show_nat total @ '', datagram has ''
              @ show_nat (length (ud_payload p)) @ '' bytes''))
          else
            attempt (ok_or (InvalidPacket ''packet byte cost overflow'')
              (checked_sum (ipv6_header_len x) [udp_header_len x, total])) (\<lambda>layer_sum.
            if layer_sum \<noteq> length bs then
              Inl (InvalidPacket (''packet cost is '' @ show_nat layer_sum @ '', packet has ''
                @ show_nat (length bs) @ '' bytes''))
            else Inr (p, \<lparr>ly_ipv6_header_bytes = ipv6_header_len x, ly_udp_header_bytes = udp_header_len x,
                          ly_coap = cost\<lparr>cc_total_bytes := total\<rparr>, ly_packet_bytes = length bs\<rparr>)))))))"

definition inspect_schc :: "link_report \<Rightarrow> report_error + schc_cost" where
  "inspect_schc r =
     attempt (ok_or (InvalidSchc ''meaningful SCHC bit length is unavailable'') (lr_schc_bit_len r)) (\<lambda>meaningful.
     attempt (ok_or (InvalidSchc ''padded byte count overflows bits'') (checked_mul (lr_padded_byte_len r) 8)) (\<lambda>padded.
     attempt (ok_or (InvalidSchc (''meaningful bits '' @ show_nat meaningful @ '' exceed padded bits '' @ show_nat padded))
       (checked_sub padded meaningful)) (\<lambda>padding.
       Inr \<lparr>sc_meaningful_bits = meaningful, sc_padded_bytes = lr_padded_byte_len r, sc_padding_bits = padding\<rparr>)))"

definition inspect_rpc :: "'x report_ext_scheme \<Rightarrow> link_report \<Rightarrow> bytes \<Rightarrow> report_error + rpc_cost option" where
  "inspect_rpc x r payload =
     (case lr_management_rpc_sid r of
        None \<Rightarrow> Inr None
      | Some sid_json \<Rightarrow>
          attempt (map_err (\<lambda>e. InvalidPacket (show_inspection_error e)) (duplicate_rpc_cost x sid_json payload))
            (\<lambda>c. Inr (Some c)))"

definition inspect_report :: "'x report_ext_scheme \<Rightarrow> link_report \<Rightarrow> report_error + packet_report" where
  "inspect_report x r =
     attempt (validate_line_report r) (\<lambda>_.
     attempt (inspect_layers x (lr_packet_bytes r)) (\<lambda>(p, layers).
     attempt (inspect_schc r) (\<lambda>schc.
     attempt (inspect_rpc x r (cm_payload (cp_message p))) (\<lambda>rpc.
     let m = cp_message p in
       Inr \<lparr>pr_ipv6 = \<lparr>i6_version = unat (drop_bit 4 (lr_packet_bytes r ! 0)),
              i6_traffic_class = ud_traffic_class p, i6_flow_label = ud_flow_label p,
              i6_payload_length = ud_ipv6_payload_length p, i6_next_header = ud_next_header p,
              i6_hop_limit = ud_hop_limit p, i6_source = ud_source p, i6_destination = ud_destination p\<rparr>,
            pr_udp = \<lparr>ur_source_port = ud_source_port p, ur_destination_port = ud_destination_port p,
              ur_length = ud_udp_length p, ur_checksum = ud_udp_checksum p\<rparr>,
            pr_coap = \<lparr>cr_version = cm_version m, cr_message_type = cm_type m, cr_code = cm_code m,
              cr_message_id = cm_message_id m, cr_token_bytes = length (cm_token m),
              cr_token = describe_token (cm_token m), cr_options = map (describe_option) (cm_options m),
              cr_payload_bytes = length (cm_payload m)\<rparr>,
            pr_layers = layers, pr_schc = schc, pr_rpc = rpc\<rparr>))))"


lemma checked_sum_Some: "checked_sum acc ns = Some t \<Longrightarrow> t = acc + sum_list ns"
proof (induction ns arbitrary: acc)
  case (Cons n ns)
  then have "checked_sum (acc + n) ns = Some t" by (auto simp: bind_eq_Some_conv result_simps)
  then show ?case using Cons.IH [of "acc + n"] by simp
qed simp

lemma checked_sum_total: "acc + sum_list ns < usize_bound \<Longrightarrow> checked_sum acc ns = Some (acc + sum_list ns)"
  by (induction ns arbitrary: acc) (auto simp: checked_add_def add.assoc)

text \<open>The sum the report forms is the length of the datagram, so the test after it never fails.\<close>

lemma coap_total_length:
  assumes "inspect_coap bs m = Inr c" and "length bs < usize_bound"
  shows "coap_total c = Some (length bs)"
proof -
  have sum: "cc_base_header_bytes c + (cc_token_bytes c + (options_bytes (cc_options c)
      + (cc_payload_marker_bytes c + cc_payload_bytes c))) = length bs"
    using inspect_coap_bytes [OF assms(1)] by simp
  with assms(2) checked_sum_total [of "cc_base_header_bytes c"
      "cc_token_bytes c # map oc_encoded_bytes (cc_options c) @ [cc_payload_marker_bytes c, cc_payload_bytes c]"]
  show ?thesis by (simp add: coap_total_def options_bytes_def)
qed


lemma inspect_layers_cost:
  assumes "inspect_layers x bs = Inr (p, l)"
  shows "ly_ipv6_header_bytes l = ipv6_header_len x \<and> ly_udp_header_bytes l = udp_header_len x
    \<and> ly_packet_bytes l = length bs \<and> cc_total_bytes (ly_coap l) = length (ud_payload p)
    \<and> ly_ipv6_header_bytes l + ly_udp_header_bytes l + cc_total_bytes (ly_coap l) = ly_packet_bytes l
    \<and> cc_base_header_bytes (ly_coap l) + cc_token_bytes (ly_coap l) + options_bytes (cc_options (ly_coap l))
        + cc_payload_marker_bytes (ly_coap l) + cc_payload_bytes (ly_coap l) = cc_total_bytes (ly_coap l)
    \<and> list_all option_adds_up (cc_options (ly_coap l))"
proof -
  obtain cost acc where cost: "inspect_coap (ud_payload p) (cp_message p) = Inr cost"
    and acc: "acc = length (ud_payload p)"
    and layers: "checked_sum (ipv6_header_len x) [udp_header_len x, acc] = Some (length bs)"
    and l: "l = \<lparr>ly_ipv6_header_bytes = ipv6_header_len x, ly_udp_header_bytes = udp_header_len x,
        ly_coap = cost\<lparr>cc_total_bytes := acc\<rparr>, ly_packet_bytes = length bs\<rparr>"
    using assms unfolding inspect_layers_def
    by (auto simp: attempt_Inr_iff ok_or_Inr_iff simp del: checked_sum.simps split: if_splits)
  show ?thesis
    using inspect_coap_bytes [OF cost] checked_sum_Some [OF layers] by (simp add: l acc)
qed

lemma inspect_schc_cost:
  assumes "inspect_schc r = Inr s"
  shows "sc_meaningful_bits s + sc_padding_bits s = 8 * lr_padded_byte_len r"
    and "lr_schc_bit_len r = Some (sc_meaningful_bits s)"
  using assms by (auto simp: inspect_schc_def result_simps)

text \<open>C33: A report that passes inspection accounts for every byte and every bit: the IPv6 and UDP
  headers, the CoAP header, token, options, payload marker and payload add up to the packet, and the
  meaningful bits and the padding add up to the padded frame that was transmitted.\<close>

theorem report_accounts_for_all:
  assumes "inspect_report x r = Inr p"
  shows "let l = pr_layers p; c = ly_coap l; s = pr_schc p in
    ly_ipv6_header_bytes l + ly_udp_header_bytes l + cc_base_header_bytes c + cc_token_bytes c
      + options_bytes (cc_options c) + cc_payload_marker_bytes c + cc_payload_bytes c = lr_packet_size r
    \<and> lr_packet_size r = length (lr_packet_bytes r)
    \<and> sc_meaningful_bits s + sc_padding_bits s = 8 * length (lr_frame_bytes r)
    \<and> lr_schc_bit_len r = Some (sc_meaningful_bits s)
    \<and> (pr_rpc p = None \<longleftrightarrow> lr_management_rpc_sid r = None)"
proof -
  obtain q where "validate_line_report r = Inr ()" and l: "inspect_layers x (lr_packet_bytes r) = Inr (q, pr_layers p)"
    and s: "inspect_schc r = Inr (pr_schc p)" and rpc: "inspect_rpc x r (cm_payload (cp_message q)) = Inr (pr_rpc p)"
    using assms unfolding inspect_report_def Let_def by (auto simp: attempt_Inr_iff)
  then have "lr_packet_size r = length (lr_packet_bytes r)" "lr_padded_byte_len r = length (lr_frame_bytes r)"
    by (simp_all add: validate_line_report_def split: if_splits)
  moreover have "pr_rpc p = None \<longleftrightarrow> lr_management_rpc_sid r = None"
    using rpc by (cases "pr_rpc p") (auto simp: inspect_rpc_def attempt_Inr_iff split: option.splits)
  ultimately show ?thesis
    using inspect_layers_cost [OF l] inspect_schc_cost [OF s] by (simp add: Let_def)
qed

text \<open>A report made by the link is consistent.\<close>

lemma validate_report_of [simp]: "validate_line_report (report_of op g i c packet frame bits m sid) = Inr ()"
  by (simp add: validate_line_report_def report_of_def)

subsection \<open>Text\<close>

text \<open>
  \<open>Display\<close> of an IPv6 address: eight groups in lower-case hexadecimal, the first of the longest runs
  of at least two zero groups replaced by a double colon, and the dotted form of an IPv4-mapped
  address.
\<close>

fun show_hex :: "nat \<Rightarrow> string" where
  "show_hex n = (if n < 16 then [hex_digit n] else show_hex (n div 16) @ [hex_digit (n mod 16)])"

declare show_hex.simps [simp del]

fun ipv6_segments :: "bytes \<Rightarrow> nat list" where
  "ipv6_segments (a # b # bs) = (256 * unat a + unat b) # ipv6_segments bs"
| "ipv6_segments _ = []"

text \<open>The longest run so far and the current run, each as its start and its length.\<close>

fun longest_zeros :: "nat \<Rightarrow> nat \<times> nat \<Rightarrow> nat \<times> nat \<Rightarrow> nat list \<Rightarrow> nat \<times> nat" where
  "longest_zeros i longest current [] = longest"
| "longest_zeros i longest current (s # ss) =
     (if s = 0 then
        let run = (if snd current = 0 then i else fst current, snd current + 1) in
          longest_zeros (i + 1) (if snd longest < snd run then run else longest) run ss
      else longest_zeros (i + 1) longest (0, 0) ss)"

definition show_segments :: "nat list \<Rightarrow> string" where
  "show_segments ss = join '':'' (map show_hex ss)"

definition show_ipv6 :: "bytes \<Rightarrow> string" where
  "show_ipv6 bs =
     (let ss = ipv6_segments bs; (start, n) = longest_zeros 0 (0, 0) (0, 0) ss in
      if take 12 bs = replicate 10 0 @ [0xFF, 0xFF] then
        ''::ffff:'' @ join ''.'' (map (\<lambda>b. show_nat (unat b)) (drop 12 bs))
      else if 1 < n then show_segments (take start ss) @ ''::'' @ show_segments (drop (start + n) ss)
      else show_segments ss)"

definition pad_left :: "nat \<Rightarrow> string \<Rightarrow> string" where
  "pad_left n s = replicate (n - length s) CHR '' '' @ s"

definition pad_right :: "nat \<Rightarrow> string \<Rightarrow> string" where
  "pad_right n s = s @ replicate (n - length s) CHR '' ''"

definition text_lines :: "string list \<Rightarrow> string" where
  "text_lines ls = concat (map (\<lambda>l. l @ [CHR 0x0A]) ls)"

definition render_ipv6 :: "'x report_ext_scheme \<Rightarrow> ipv6_report \<Rightarrow> string list" where
  "render_ipv6 x r =
     [''  IPv6'',
      ''    version          '' @ show_nat (i6_version r),
      ''    source           '' @ show_ipv6 (i6_source r),
      ''    destination      '' @ show_ipv6 (i6_destination r),
      ''    traffic class    '' @ show_nat (i6_traffic_class r),
      ''    flow label       '' @ show_nat (i6_flow_label r),
      ''    payload length   '' @ show_nat (i6_payload_length r) @ '' B'',
      ''    next header      '' @ next_header_name x (i6_next_header r) @ '' ('' @ show_nat (i6_next_header r) @ '')'',
      ''    hop limit        '' @ show_nat (i6_hop_limit r)]"

definition render_udp :: "udp_report \<Rightarrow> string list" where
  "render_udp r =
     [''  UDP'',
      ''    source port       '' @ show_nat (ur_source_port r),
      ''    destination port  '' @ show_nat (ur_destination_port r),
      ''    length            '' @ show_nat (ur_length r) @ '' B'',
      ''    checksum          '' @ show_nat (ur_checksum r)]"

definition render_coap :: "coap_report \<Rightarrow> string list" where
  "render_coap r =
     [''  CoAP'',
      ''    version           '' @ show_nat (cr_version r),
      ''    type              '' @ message_type_name (cr_message_type r),
      ''    code              0x'' @ hex_byte (of_nat (cr_code r)) @ '' '' @ code_name (cr_code r),
      ''    message ID        '' @ show_nat (cr_message_id r),
      (if cr_token_bytes r = 0 then ''    token             empty''
       else ''    token             '' @ show_nat (cr_token_bytes r) @ '' B '' @ cr_token r),
      ''    options'']
     @ map (\<lambda>d. ''      '' @ od_name d @ '' ('' @ show_nat (od_number d) @ '')  '' @ od_value d) (cr_options r)
     @ [''    payload           '' @ show_nat (cr_payload_bytes r) @ '' B'']"

definition render_override :: "duplicate_override \<Rightarrow> string" where
  "render_override d =
     ''      entry '' @ show_nat (do_entry_index d) @ ''       '' @ join '' ''
       ((case do_target_value d of None \<Rightarrow> [] | Some v \<Rightarrow> [''target='' @ v])
        @ (case do_matching_operator d of None \<Rightarrow> [] | Some v \<Rightarrow> [''mo='' @ v])
        @ (case do_cda d of None \<Rightarrow> [] | Some v \<Rightarrow> [''cda='' @ v]))"

definition render_rpc :: "rpc_cost \<Rightarrow> string list" where
  "render_rpc c =
     [''  RPC'',
      ''    operation         duplicate-rule'',
      ''    source            '' @ show_selector (rc_source c),
      ''    destination       '' @ show_selector (rc_destination c),
      ''    overrides'']
     @ map render_override (rc_overrides c)"

definition semantic_overhead :: "coap_cost \<Rightarrow> nat" where
  "semantic_overhead c = cc_base_header_bytes c + cc_token_bytes c + options_bytes (cc_options c)
     + cc_payload_marker_bytes c"

definition render_payload :: "packet_report \<Rightarrow> string list" where
  "render_payload r =
     (case pr_rpc r of
        Some c \<Rightarrow>
          [''      RPC                           '' @ pad_left 3 (show_nat (rc_payload_bytes c)) @ '' B'',
           ''        fixed                       '' @ pad_left 3 (show_nat (rc_fixed_bytes c)) @ '' B'',
           ''        variable framing           '' @ pad_left 3 (show_nat (rc_variable_framing_bytes c)) @ '' B'',
           ''        target values              '' @ pad_left 3 (show_nat (rc_target_value_bytes c)) @ '' B'']
      | None \<Rightarrow>
          [''      payload          '' @ show_nat (cc_payload_bytes (ly_coap (pr_layers r))) @ '' B ('' @
             (if list_ex (\<lambda>d. od_number d = 12 \<and> od_value d \<in> {''141'', ''142''}) (cr_options (pr_coap r))
              then ''binary CORECONF payload'' else ''payload'') @ '')''])"

definition render_debug :: "'x report_ext_scheme \<Rightarrow> packet_report \<Rightarrow> string list" where
  "render_debug x r =
     (let l = pr_layers r; s = pr_schc r in
      [''  Packet                           '' @ show_nat (ly_packet_bytes l) @ '' B'',
       ''    IPv6                            '' @ show_nat (ly_ipv6_header_bytes l) @ '' B'',
       ''    UDP                              '' @ show_nat (ly_udp_header_bytes l) @ '' B'',
       ''    CoAP                            '' @ show_nat (cc_total_bytes (ly_coap l)) @ '' B'',
       ''      header/token/options/marker '' @ pad_left 3 (show_nat (semantic_overhead (ly_coap l))) @ '' B'']
      @ render_payload r @ render_ipv6 x (pr_ipv6 r) @ render_udp (pr_udp r) @ render_coap (pr_coap r)
      @ (case pr_rpc r of None \<Rightarrow> [] | Some c \<Rightarrow> render_rpc c)
      @ [''  SCHC'',
         ''    meaningful      '' @ show_nat (sc_meaningful_bits s) @ '' bits'',
         ''    padded           '' @ show_nat (sc_padded_bytes s) @ '' B'',
         ''    padding          '' @ show_nat (sc_padding_bits s) @ '' bits''])"

fun class_label :: "traffic_class \<Rightarrow> string" where
  "class_label Ordinary = ''APP''"
| "class_label ProtectedManagement = ''MGMT''"

definition concise_line :: "report_direction \<Rightarrow> link_report \<Rightarrow> string" where
  "concise_line d r =
     direction_label d @ '' '' @ pad_right 4 (class_label (lr_traffic_class r)) @ ''  ''
       @ show_nat (id_value (lr_rule_id r)) @ ''/'' @ show_nat (bit_len (lr_rule_id r)) @ ''  ''
       @ show_nat (lr_packet_size r) @ '' B -> '' @ show_nat (lr_padded_byte_len r) @ '' B''"

definition format_report :: "'x report_ext_scheme \<Rightarrow> report_direction \<Rightarrow> link_report \<Rightarrow> bool \<Rightarrow> report_error + string" where
  "format_report x d r debug =
     attempt (validate_line_report r) (\<lambda>_.
       if debug then attempt (inspect_report x r) (\<lambda>p. Inr (text_lines (concise_line d r # render_debug x p)))
       else Inr (text_lines [concise_line d r]))"

text \<open>Without the debug option, every report of the link is printed as one line.\<close>

lemma concise_report_of:
  "format_report x d (report_of op g i c packet frame bits m sid) False =
     Inr (text_lines [concise_line d (report_of op g i c packet frame bits m sid)])"
  by (simp add: format_report_def)

text \<open>The concise line comes first in both modes.\<close>

lemma debug_extends_concise:
  assumes "format_report x d r True = Inr t"
  shows "\<exists>s u. format_report x d r False = Inr s \<and> t = s @ u"
proof -
  obtain p where "validate_line_report r = Inr ()" and "t = text_lines (concise_line d r # render_debug x p)"
    using assms by (auto simp: format_report_def attempt_Inr_iff)
  then show ?thesis by (simp add: format_report_def text_lines_def)
qed

subsection \<open>A concrete report\<close>

definition demo_reporter :: report_ext where
  "demo_reporter = flow_ext.extend demo_flow (report_ext.fields
     (\<lambda>bs. Inr \<lparr>ud_bytes = bs, ud_payload = drop 48 bs, ud_source = core_logical_address,
        ud_destination = device_logical_address, ud_source_port = 5683, ud_destination_port = 5683,
        ud_traffic_class = 0, ud_flow_label = 0, ud_ipv6_payload_length = length bs - 40, ud_next_header = 17,
        ud_hop_limit = 64, ud_udp_length = length bs - 40, ud_udp_checksum = 0, cp_message = demo_message\<rparr>)
     (\<lambda>_. ''rejected'') 40 8 6 17)"

definition demo_report :: link_report where
  "demo_report = report_of OpEncode 0 \<lparr>id_value = 1, bit_len = 8\<rparr> Ordinary
     (0x60 # replicate 47 0 @ encoded_message demo_message) [1, 2] 12 None None"

lemma inspect_demo_report: "\<exists>p. inspect_report demo_reporter demo_report = Inr p"
proof -
  obtain c where c: "inspect_coap (encoded_message demo_message) demo_message = Inr c"
    using inspect_encoded [OF demo_message_ok(2)] by blast
  have total: "coap_total c = Some 15"
    using coap_total_length [OF c] demo_message_ok(1) by (simp add: usize_bound_def)
  show ?thesis
    using c total
    by (simp add: demo_report_def inspect_report_def inspect_layers_def inspect_schc_def inspect_rpc_def
        demo_reporter_def flow_ext.defs report_ext.defs demo_message_ok(1) checked_sub_def checked_mul_def
        checked_add_def usize_bound_def Let_def)
qed

theorem report_accounts_for_all_witness:
  "\<exists>p. inspect_report demo_reporter demo_report = Inr p
    \<and> sc_meaningful_bits (pr_schc p) + sc_padding_bits (pr_schc p) = 16 \<and> lr_packet_size demo_report = 63"
proof -
  obtain p where p: "inspect_report demo_reporter demo_report = Inr p"
    using inspect_demo_report by blast
  then show ?thesis
    using report_accounts_for_all [OF p] by (auto simp: Let_def demo_report_def report_of_def demo_message_ok(1))
qed

end
