(* ===== verification/Breakdown.thy ===== *)
theory Breakdown
  imports Report
begin

text \<open>
  The bit breakdown of a protected management report (\<open>management_bit_breakdown\<close> of
  \<open>src/management.rs\<close>): the residue of every field of the selected rule, checked against the
  meaningful length of the SCHC frame.
\<close>

record bit_breakdown =
  bb_rule_id_bits :: nat
  bb_mapping_bits :: nat
  bb_mid_residue_bits :: nat
  bb_payload_bits :: nat
  bb_payload_length_bits :: nat
  bb_option_residue_bits :: nat
  bb_byte_padding_bits :: nat
  bb_unaccounted_residue_bits :: nat

definition transport_residue_bits :: "bit_breakdown \<Rightarrow> nat" where
  "transport_residue_bits b = bb_rule_id_bits b + bb_mapping_bits b + bb_mid_residue_bits b"

subsection \<open>Widths\<close>

text \<open>The number of bits below the leading zeros of a \<open>usize\<close>.\<close>

fun significant_bits :: "nat \<Rightarrow> nat" where
  "significant_bits n = (if n = 0 then 0 else Suc (significant_bits (n div 2)))"

declare significant_bits.simps [simp del]

definition mapping_index_bits :: "nat \<Rightarrow> nat" where
  "mapping_index_bits n = (if n \<le> 1 then 0 else significant_bits (n - 1))"

definition variable_length_prefix_bits :: "nat \<Rightarrow> nat" where
  "variable_length_prefix_bits n = (if n \<le> 14 then 4 else if n \<le> 254 then 12 else 28)"

fun payload_prefix_bits :: "field_length \<Rightarrow> nat \<Rightarrow> nat" where
  "payload_prefix_bits VariableBytes n = variable_length_prefix_bits n"
| "payload_prefix_bits VariableBits n = variable_length_prefix_bits n"
| "payload_prefix_bits _ n = 0"

subsection \<open>The residue of a rule\<close>

record residue =
  re_mapping :: nat
  re_mid :: nat
  re_payload_length :: nat
  re_option :: nat

abbreviation unexpected :: "string \<Rightarrow> inspection_error" where
  "unexpected \<equiv> UnexpectedResponse"

definition mid_bits :: "field_rule \<Rightarrow> inspection_error + nat" where
  "mid_bits f =
     (case fr_length f of
        FixedBits bits \<Rightarrow>
          (case (fr_matching f, fr_action f) of
             (Msb msb, Lsb) \<Rightarrow> ok_or (unexpected ''management MID MSB exceeds its field width'') (checked_sub bits msb)
           | (_, ValueSent) \<Rightarrow> Inr bits
           | _ \<Rightarrow> Inr 0)
      | _ \<Rightarrow> Inl (unexpected ''management MID rule entry is not fixed-width''))"

definition option_bits :: "coap_message \<Rightarrow> nat \<Rightarrow> nat" where
  "option_bits m number =
     sum_list (map (\<lambda>o'. length (co_value o') * 8) (filter (\<lambda>o'. co_number o' = number) (cm_options m)))"

definition field_residue :: "coap_message \<Rightarrow> residue \<Rightarrow> field_rule \<Rightarrow> inspection_error + residue" where
  "field_residue m r f =
     (if fr_field f = FieldCoap ''fid-coap-code'' \<and> fr_action f = MappingSent then
        (case fr_target f of
           TargetMapping values \<Rightarrow> Inr (r\<lparr>re_mapping := mapping_index_bits (length values)\<rparr>)
         | _ \<Rightarrow> Inl (unexpected ''management code mapping has no mapping target''))
      else if fr_field f = FieldCoap ''fid-coap-mid'' then
        attempt (mid_bits f) (\<lambda>bits. Inr (r\<lparr>re_mid := bits\<rparr>))
      else if fr_field f = FieldPayload \<and> fr_action f = ValueSent then
        Inr (r\<lparr>re_payload_length := payload_prefix_bits (fr_length f) (length (cm_payload m))\<rparr>)
      else case fr_field f of
        FieldCoapOption number \<Rightarrow>
          if fr_action f = ValueSent then Inr (r\<lparr>re_option := re_option r + option_bits m number\<rparr>) else Inr r
      | _ \<Rightarrow> Inr r)"

definition rule_residue :: "coap_message \<Rightarrow> rule \<Rightarrow> inspection_error + residue" where
  "rule_residue m rule = fold_err (field_residue m)
     \<lparr>re_mapping = 0, re_mid = 0, re_payload_length = 0, re_option = 0\<rparr> (rule_fields rule)"

text \<open>
  The sums of the code are \<open>usize\<close> additions of lengths of slices in memory, which do not overflow.
\<close>

definition management_bit_breakdown :: "'x report_ext_scheme \<Rightarrow> link_report \<Rightarrow> inspection_error + bit_breakdown" where
  "management_bit_breakdown x r =
     (if lr_traffic_class r \<noteq> ProtectedManagement then
        Inl (unexpected ''bit breakdown requires a protected management report'')
      else
        attempt (map_err (\<lambda>e. CoapError (packet_error_text x e)) (parse_coap_packet x (lr_packet_bytes r))) (\<lambda>p.
        let m = cp_message p in
        if 128 \<le> cm_message_id m then Inl (unexpected ''management MID is outside the 7-bit compressed range'')
        else
          attempt (ok_or (unexpected ''management report has no selected rule structure'') (lr_management_rule r)) (\<lambda>rule.
          attempt (rule_residue m rule) (\<lambda>s.
          attempt (ok_or (unexpected ''management report has no meaningful bit length'') (lr_schc_bit_len r)) (\<lambda>meaningful.
          let payload_bits = length (cm_payload m) * 8;
              rule_id_bits = bit_len (lr_rule_id r);
              accounted = rule_id_bits + re_mapping s + re_mid s + payload_bits + re_payload_length s + re_option s in
          if meaningful \<noteq> accounted then
            Inl (unexpected (''management report has '' @ show_nat meaningful
              @ '' meaningful bits but accounted fields total '' @ show_nat accounted))
          else
            attempt (ok_or (unexpected ''management report padding is invalid'')
              (Option.bind (checked_mul (lr_padded_byte_len r) 8) (\<lambda>bits. checked_sub bits meaningful))) (\<lambda>padding.
              Inr \<lparr>bb_rule_id_bits = rule_id_bits, bb_mapping_bits = re_mapping s, bb_mid_residue_bits = re_mid s,
                   bb_payload_bits = payload_bits, bb_payload_length_bits = re_payload_length s,
                   bb_option_residue_bits = re_option s, bb_byte_padding_bits = padding,
                   bb_unaccounted_residue_bits = meaningful - accounted\<rparr>))))))"

subsection \<open>Properties\<close>

lemma significant_bits_le: "significant_bits n \<le> k \<longleftrightarrow> n < 2 ^ k"
proof (induction n arbitrary: k rule: significant_bits.induct)
  case (1 n)
  then show ?case
    by (cases k) (auto simp: significant_bits.simps [of n] div_less_iff_less_mult mult.commute)
qed

text \<open>The index width computed for a mapping is the least number of bits that can name every
  entry: a mapping of \<open>n\<close> values fits \<open>k\<close> bits exactly when the computed width is at most \<open>k\<close>.\<close>

theorem mapping_index_bits_least:
  assumes "1 \<le> n"
  shows "mapping_index_bits n \<le> k \<longleftrightarrow> n \<le> 2 ^ k"
proof -
  have "n - 1 < 2 ^ k \<longleftrightarrow> n \<le> 2 ^ k" using assms by linarith
  with assms show ?thesis by (auto simp: mapping_index_bits_def significant_bits_le)
qed

theorem mapping_index_bits_least_witness: "mapping_index_bits 5 \<le> 3 \<and> \<not> mapping_index_bits 5 \<le> 2"
  using mapping_index_bits_least [of 5 3] mapping_index_bits_least [of 5 2] by simp

text \<open>C35: A successful breakdown leaves no bit of the frame unexplained: the RuleID, mapping and message-ID
  residue, the payload with its length prefix and the option residue are exactly the meaningful bits,
  the padding fills the frame up to its last byte, and no residue is left over.\<close>

theorem breakdown_adds_up:
  assumes "management_bit_breakdown x r = Inr b"
  shows "transport_residue_bits b + bb_payload_bits b + bb_payload_length_bits b + bb_option_residue_bits b
      + bb_byte_padding_bits b = 8 * lr_padded_byte_len r
    \<and> lr_schc_bit_len r = Some (transport_residue_bits b + bb_payload_bits b + bb_payload_length_bits b
      + bb_option_residue_bits b)
    \<and> bb_rule_id_bits b = bit_len (lr_rule_id r) \<and> bb_unaccounted_residue_bits b = 0
    \<and> lr_traffic_class r = ProtectedManagement"
  using assms unfolding management_bit_breakdown_def Let_def
  by (auto simp: result_simps bind_eq_Some_conv transport_residue_bits_def split: if_splits)

definition demo_field :: "nat \<Rightarrow> field_ref \<Rightarrow> field_length \<Rightarrow> target_value \<Rightarrow> matching_operator \<Rightarrow> cda \<Rightarrow> field_rule" where
  "demo_field i f n t m a = \<lparr>fr_entry_index = i, fr_field = f, fr_position = 1, fr_direction = Bidirectional,
     fr_length = n, fr_target = t, fr_matching = m, fr_action = a\<rparr>"

definition demo_management_rule :: rule where
  "demo_management_rule = \<lparr>rule_id_of = RuleId 1 8, nature = NatureManagement, rule_fields =
     [demo_field 0 (FieldCoap ''fid-coap-code'') (FixedBits 8) (TargetMapping [[1], [2], [5]]) MatchMapping MappingSent,
      demo_field 1 (FieldCoap ''fid-coap-mid'') (FixedBits 16) (TargetBytes [0, 0]) (Msb 9) Lsb,
      demo_field 2 (FieldCoapOption 60) VariableBytes TargetNone Ignore ValueSent,
      demo_field 3 FieldPayload VariableBytes TargetNone Ignore ValueSent]\<rparr>"

definition demo_management_report :: link_report where
  "demo_management_report = report_of OpEncode 0 (RuleId 1 8) ProtectedManagement [0x60] [1, 2, 3, 4, 5] 37
     (Some demo_management_rule) None"

lemma significant_bits_2 [simp]: "significant_bits (Suc (Suc 0)) = 2"
  by (simp add: significant_bits.simps)

theorem breakdown_adds_up_witness:
  "\<exists>b. management_bit_breakdown demo_reporter demo_management_report = Inr b
    \<and> transport_residue_bits b = 17 \<and> bb_byte_padding_bits b = 3 \<and> bb_unaccounted_residue_bits b = 0"
proof -
  have "\<exists>b. management_bit_breakdown demo_reporter demo_management_report = Inr b
      \<and> transport_residue_bits b = 17 \<and> bb_byte_padding_bits b = 3"
    by (simp add: management_bit_breakdown_def demo_management_report_def report_of_def demo_reporter_def
        flow_ext.defs report_ext.defs demo_message_def demo_management_rule_def rule_residue_def
        field_residue_def demo_field_def mid_bits_def option_bits_def mapping_index_bits_def
        variable_length_prefix_bits_def checked_mul_def checked_sub_def usize_bound_def
        transport_residue_bits_def Let_def)
  then obtain b where b: "management_bit_breakdown demo_reporter demo_management_report = Inr b"
      "transport_residue_bits b = 17" "bb_byte_padding_bits b = 3" by blast
  with breakdown_adds_up [OF b(1)] show ?thesis by blast
qed

end
