(* ===== verification/Planner.thy ===== *)
theory Planner
  imports Device
begin

text \<open>
  The flow planner (\<open>flow_change\<close> of \<open>src/management.rs\<close>): given a logical packet, either an
  application rule that already compresses it, or the duplicate operation of least management wire
  cost that installs such a rule. Every candidate is tried on a detached context before it is
  ranked.
\<close>

subsection \<open>Building the operation\<close>

definition duplicate_rule_payload ::
  "'x flow_ext_scheme \<Rightarrow> coreconf_model \<Rightarrow> active_context \<Rightarrow> duplicate_request \<Rightarrow> inspection_error + bytes" where
  "duplicate_rule_payload x model a request =
     attempt (duplicate_inner_payload x model (ac_snapshot a) request) (\<lambda>inner.
       encode_duplicate_rpc_payload x model request inner)"

definition duplicate_rule_datagram ::
  "'x flow_ext_scheme \<Rightarrow> coreconf_model \<Rightarrow> active_context \<Rightarrow> duplicate_request \<Rightarrow> nat \<Rightarrow> inspection_error + bytes" where
  "duplicate_rule_datagram x model a request message_id =
     attempt (duplicate_rule_payload x model a request) (\<lambda>payload.
       map_err CoapError (lite_to_bytes x (duplicate_rule_packet payload message_id)))"

text \<open>The length of the SCHC frame that carries the operation to the device.\<close>

definition duplicate_rule_wire_bytes ::
  "'x flow_ext_scheme \<Rightarrow> coreconf_model \<Rightarrow> active_context \<Rightarrow> duplicate_request \<Rightarrow> inspection_error + nat" where
  "duplicate_rule_wire_bytes x model a request =
     attempt (duplicate_rule_datagram x model a request 0) (\<lambda>datagram.
     attempt (map_err CoapError (coap_packet_new x core_logical_address device_logical_address
       management_port management_port datagram)) (\<lambda>packet.
     attempt (map_err LinkFailure (encode_packet x a (link_new a RoleCore) OriginManagement packet)) (\<lambda>e.
       Inr (length (frame_data (le_frame e))))))"

subsection \<open>Parents\<close>

definition eligible_parent :: "context_snapshot \<Rightarrow> rule \<Rightarrow> bool" where
  "eligible_parent s r \<longleftrightarrow>
     nature r = NatureCompression \<and> \<not> protected_contains (cd_protected (sn_data s)) (rule_id_of r)
     \<and> has_application_payload r \<and> has_complete_flow_fields r"

definition rule_selector_of :: "rule \<Rightarrow> inspection_error + rule_selector" where
  "rule_selector_of r = selector_new (id_value (rule_id_of r)) (bit_len (rule_id_of r))"

text \<open>The application link encodes the packet with the given rule.\<close>

definition encodes_with ::
  "'x flow_ext_scheme \<Rightarrow> active_context \<Rightarrow> flow_direction \<Rightarrow> bytes \<Rightarrow> rule_id \<Rightarrow> bool" where
  "encodes_with x a d packet i =
     (case encode_bytes x a (link_new a (link_role_of d)) OriginApplication packet of
        Inl _ \<Rightarrow> False
      | Inr e \<Rightarrow> lr_rule_id (le_report e) = i)"

fun existing_match ::
  "'x flow_ext_scheme \<Rightarrow> active_context \<Rightarrow> udp_packet \<Rightarrow> flow_direction \<Rightarrow> rule list
    \<Rightarrow> inspection_error + rule_selector option" where
  "existing_match x a packet d [] = Inr None"
| "existing_match x a packet d (r # rs) =
     (if \<not> eligible_parent (ac_snapshot a) r then existing_match x a packet d rs
      else
        attempt (flow_overrides x r packet d) (\<lambda>overrides.
        if overrides \<noteq> Some [] then existing_match x a packet d rs
        else
          attempt (rule_selector_of r) (\<lambda>source.
          if encodes_with x a d (ud_bytes packet) (selector_id source) then Inr (Some source)
          else existing_match x a packet d rs)))"

definition existing_application_match ::
  "'x flow_ext_scheme \<Rightarrow> active_context \<Rightarrow> udp_packet \<Rightarrow> flow_direction \<Rightarrow> inspection_error + rule_selector option" where
  "existing_application_match x a packet d = existing_match x a packet d (cd_rules (active_data a))"

subsection \<open>Candidates\<close>

record flow_candidate =
  fc_request :: duplicate_request
  fc_wire_bytes :: nat

text \<open>The operation is encoded, decoded again, applied to a detached context and tried there.\<close>

definition trial ::
  "'x flow_ext_scheme \<Rightarrow> coreconf_model \<Rightarrow> active_context \<Rightarrow> udp_packet \<Rightarrow> flow_direction \<Rightarrow> duplicate_request
    \<Rightarrow> inspection_error + flow_candidate \<times> duplicate_operation \<times> prepared_context" where
  "trial x model a packet d request =
     attempt (duplicate_rule_wire_bytes x model a request) (\<lambda>wire.
     attempt (duplicate_rule_payload x model a request) (\<lambda>payload.
     attempt (decode_duplicate_operation x model payload) (\<lambda>operation.
     attempt (expected_duplicate_tree x model (ac_snapshot a) (op_request operation) (op_instances operation)) (\<lambda>tree.
     attempt (map_err (\<lambda>e. InvalidUpdate (show_context_error e)) (from_tree_for_recipe x (ac_recipe a) tree)) (\<lambda>p.
     let a' = active_new p in
     attempt (map_err LinkFailure (encode_bytes x a' (link_new a' (link_role_of d)) OriginApplication (ud_bytes packet))) (\<lambda>_.
       Inr (\<lparr>fc_request = request, fc_wire_bytes = wire\<rparr>, operation, p)))))))"

text \<open>A failure of the trial drops the candidate, whatever its error.\<close>

definition candidate_of ::
  "'x flow_ext_scheme \<Rightarrow> coreconf_model \<Rightarrow> active_context \<Rightarrow> udp_packet \<Rightarrow> flow_direction \<Rightarrow> duplicate_request
    \<Rightarrow> flow_candidate option" where
  "candidate_of x model a packet d request =
     (case trial x model a packet d request of Inl _ \<Rightarrow> None | Inr (c, _) \<Rightarrow> Some c)"

definition plan_parent ::
  "'x flow_ext_scheme \<Rightarrow> coreconf_model \<Rightarrow> active_context \<Rightarrow> udp_packet \<Rightarrow> flow_direction \<Rightarrow> rule_id \<Rightarrow> rule
    \<Rightarrow> inspection_error + flow_candidate option" where
  "plan_parent x model a packet d dest parent =
     (if \<not> eligible_parent (ac_snapshot a) parent then Inr None
      else
        attempt (flow_overrides x parent packet d) (\<lambda>found.
        case found of
          None \<Rightarrow> Inr None
        | Some overrides \<Rightarrow>
            attempt (rule_selector_of parent) (\<lambda>source.
            if overrides = [] then Inr None
            else
              attempt (selector_new (id_value dest) (bit_len dest)) (\<lambda>destination.
                Inr (candidate_of x model a packet d
                  \<lparr>dr_source = source, dr_destination = destination, dr_overrides = overrides\<rparr>)))))"

text \<open>The order of the candidates: wire bytes, number of overrides, source RuleID.\<close>

definition candidate_rank :: "flow_candidate \<Rightarrow> nat \<times> nat \<times> nat \<times> nat" where
  "candidate_rank c = (let r = fc_request c in
     (fc_wire_bytes c, length (dr_overrides r), rs_value (dr_source r), rs_bits (dr_source r)))"

datatype flow_outcome = AlreadyMatches rule_selector | DuplicateRule rule_selector duplicate_request

definition plan_candidates ::
  "'x flow_ext_scheme \<Rightarrow> coreconf_model \<Rightarrow> active_context \<Rightarrow> udp_packet \<Rightarrow> flow_direction \<Rightarrow> rule_id
    \<Rightarrow> inspection_error + flow_candidate list" where
  "plan_candidates x model a packet d dest =
     attempt (try_all (plan_parent x model a packet d dest) (cd_rules (active_data a))) (\<lambda>found.
       Inr (List.map_filter (\<lambda>c. c) found))"

definition flow_change_impl ::
  "'x flow_ext_scheme \<Rightarrow> coreconf_model \<Rightarrow> active_context \<Rightarrow> udp_packet \<Rightarrow> flow_direction \<Rightarrow> namespace
    \<Rightarrow> inspection_error + flow_outcome" where
  "flow_change_impl x model a packet d ns =
     attempt (existing_application_match x a packet d) (\<lambda>found.
     case found of
       Some rule \<Rightarrow> Inr (AlreadyMatches rule)
     | None \<Rightarrow>
         attempt (map_err AllocationFailure (allocate ns (map rule_id_of (cd_rules (active_data a))))) (\<lambda>dest.
         attempt (plan_candidates x model a packet d dest) (\<lambda>candidates.
         case sort_key candidate_rank candidates of
           [] \<Rightarrow> Inl (UnrepresentableFlow ''no application parent can represent the IPv6/UDP fields'')
         | c # _ \<Rightarrow> Inr (DuplicateRule (dr_source (fc_request c)) (fc_request c)))))"

definition flow_change ::
  "'x flow_ext_scheme \<Rightarrow> coreconf_model \<Rightarrow> active_context \<Rightarrow> udp_packet \<Rightarrow> flow_direction \<Rightarrow> inspection_error + flow_outcome" where
  "flow_change x model a packet d =
     (case sn_dynamic (ac_snapshot a) of
        None \<Rightarrow> Inl MissingDynamicRuleIdNamespace
      | Some ns \<Rightarrow> flow_change_impl x model a packet d ns)"

subsection \<open>What a plan establishes\<close>

lemma selector_new_id: "selector_new v b = Inr s \<Longrightarrow> rs_value s = v \<and> rs_bits s = b"
  by (auto simp: selector_new_def split: if_splits)

lemma selector_new_rule_id: "selector_new (id_value i) (bit_len i) = Inr s \<Longrightarrow> selector_id s = i"
  by (cases i) (auto simp: selector_id_def dest: selector_new_id)

lemma trial_Inr:
  assumes "trial x model a packet d request = Inr (c, operation, p)"
  shows "fc_request c = request" and "duplicate_rule_wire_bytes x model a request = Inr (fc_wire_bytes c)"
  using assms by (auto simp: trial_def Let_def attempt_Inr_iff)

lemma plan_parent_Some:
  assumes "plan_parent x model a packet d dest r = Inr (Some c)"
  obtains operation p where "eligible_parent (ac_snapshot a) r"
    and "selector_id (dr_source (fc_request c)) = rule_id_of r" and "selector_id (dr_destination (fc_request c)) = dest"
    and "flow_overrides x r packet d = Inr (Some (dr_overrides (fc_request c)))" and "dr_overrides (fc_request c) \<noteq> []"
    and "trial x model a packet d (fc_request c) = Inr (c, operation, p)"
proof -
  obtain overrides source destination where f: "eligible_parent (ac_snapshot a) r"
      "flow_overrides x r packet d = Inr (Some overrides)" "overrides \<noteq> []" "rule_selector_of r = Inr source"
      "selector_new (id_value dest) (bit_len dest) = Inr destination"
    and c: "candidate_of x model a packet d
      \<lparr>dr_source = source, dr_destination = destination, dr_overrides = overrides\<rparr> = Some c"
    using assms by (auto simp: plan_parent_def attempt_Inr_iff split: if_splits option.splits)
  then obtain operation p where t: "trial x model a packet d
      \<lparr>dr_source = source, dr_destination = destination, dr_overrides = overrides\<rparr> = Inr (c, operation, p)"
    by (auto simp: candidate_of_def split: sum.splits)
  with f trial_Inr(1) [OF t] that show thesis by (auto simp: rule_selector_of_def dest: selector_new_rule_id)
qed

lemma try_all_member: "try_all f xs = Inr ys \<Longrightarrow> y \<in> set ys \<longleftrightarrow> (\<exists>x \<in> set xs. f x = Inr y)"
proof (induction xs arbitrary: ys)
  case (Cons x xs)
  then show ?case by (auto simp: attempt_Inr_iff)
qed simp

lemma map_filter_member: "c \<in> set (List.map_filter (\<lambda>c. c) xs) \<longleftrightarrow> Some c \<in> set xs"
  by (induction xs) (auto simp: map_filter_simps split: option.splits)

lemma plan_candidates_member:
  "plan_candidates x model a packet d dest = Inr cs \<Longrightarrow>
     c \<in> set cs \<longleftrightarrow> (\<exists>r \<in> set (cd_rules (active_data a)). plan_parent x model a packet d dest r = Inr (Some c))"
  by (auto simp: plan_candidates_def attempt_Inr_iff map_filter_member try_all_member)

lemma sort_key_least: "sort_key f xs = c # cs \<Longrightarrow> c \<in> set xs \<and> (\<forall>y \<in> set xs. f c \<le> f y)"
  using sorted_sort_key [of f xs] set_sort [of f xs] by auto

lemma flow_change_DuplicateD:
  assumes "flow_change x model a packet d = Inr (DuplicateRule parent request)"
  obtains ns dest r c where "sn_dynamic (ac_snapshot a) = Some ns"
    and "allocate ns (map rule_id_of (cd_rules (active_data a))) = Inr dest"
    and "r \<in> set (cd_rules (active_data a))" and "plan_parent x model a packet d dest r = Inr (Some c)"
    and "parent = dr_source (fc_request c)" and "request = fc_request c"
    and "\<forall>r' \<in> set (cd_rules (active_data a)). \<forall>c'. plan_parent x model a packet d dest r' = Inr (Some c')
      \<longrightarrow> candidate_rank c \<le> candidate_rank c'"
proof -
  obtain ns where ns: "sn_dynamic (ac_snapshot a) = Some ns"
    and f: "flow_change_impl x model a packet d ns = Inr (DuplicateRule parent request)"
    using assms by (auto simp: flow_change_def split: option.splits)
  obtain dest cs where dest: "allocate ns (map rule_id_of (cd_rules (active_data a))) = Inr dest"
    and cs: "plan_candidates x model a packet d dest = Inr cs"
    and res: "(case sort_key candidate_rank cs of
        [] \<Rightarrow> Inl (UnrepresentableFlow ''no application parent can represent the IPv6/UDP fields'')
      | c # _ \<Rightarrow> Inr (DuplicateRule (dr_source (fc_request c)) (fc_request c))) = Inr (DuplicateRule parent request)"
    using f by (auto simp: flow_change_impl_def result_simps split: option.splits)
  obtain c cs' where c: "sort_key candidate_rank cs = c # cs'" "parent = dr_source (fc_request c)" "request = fc_request c"
  proof (cases "sort_key candidate_rank cs")
    case Nil
    with res show thesis by simp
  next
    case (Cons c cs')
    with res have "parent = dr_source (fc_request c)" "request = fc_request c" by auto
    with Cons that show thesis by blast
  qed
  note least = sort_key_least [OF c(1)]
  obtain r where r: "r \<in> set (cd_rules (active_data a))" "plan_parent x model a packet d dest r = Inr (Some c)"
    using least plan_candidates_member [OF cs] by blast
  have "candidate_rank c \<le> candidate_rank c'"
    if "r' \<in> set (cd_rules (active_data a))" "plan_parent x model a packet d dest r' = Inr (Some c')" for r' c'
    using least plan_candidates_member [OF cs, of c'] that by blast
  with that ns dest r c(2,3) show thesis by blast
qed

lemma planned_duplicate:
  assumes "flow_change x model a packet d = Inr (DuplicateRule parent request)"
  shows "\<exists>ns r c operation p. sn_dynamic (ac_snapshot a) = Some ns \<and> r \<in> set (cd_rules (active_data a))
    \<and> eligible_parent (ac_snapshot a) r \<and> selector_id parent = rule_id_of r \<and> dr_source request = parent
    \<and> flow_overrides x r packet d = Inr (Some (dr_overrides request)) \<and> dr_overrides request \<noteq> []
    \<and> accepts ns (selector_id (dr_destination request))
    \<and> selector_id (dr_destination request) \<notin> rule_id_of ` set (cd_rules (active_data a))
    \<and> trial x model a packet d request = Inr (c, operation, p)"
proof -
  obtain ns dest r c where ns: "sn_dynamic (ac_snapshot a) = Some ns"
    and dest: "allocate ns (map rule_id_of (cd_rules (active_data a))) = Inr dest"
    and r: "r \<in> set (cd_rules (active_data a))" and plan: "plan_parent x model a packet d dest r = Inr (Some c)"
    and c: "parent = dr_source (fc_request c)" "request = fc_request c"
    using assms by (rule flow_change_DuplicateD)
  have fresh: "accepts ns dest" "dest \<notin> rule_id_of ` set (cd_rules (active_data a))"
    using alloc.alloc_accepted [OF dest] alloc.alloc_fresh [OF dest] by auto
  obtain operation p where "eligible_parent (ac_snapshot a) r" "selector_id (dr_source request) = rule_id_of r"
    "selector_id (dr_destination request) = dest"
    "flow_overrides x r packet d = Inr (Some (dr_overrides request))" "dr_overrides request \<noteq> []"
    "trial x model a packet d request = Inr (c, operation, p)"
    using plan unfolding c by (rule plan_parent_Some)
  with ns r c fresh show ?thesis by blast
qed

lemma existing_match_Some:
  "existing_match x a packet d rs = Inr (Some s) \<Longrightarrow> \<exists>r \<in> set rs. eligible_parent (ac_snapshot a) r
    \<and> flow_overrides x r packet d = Inr (Some []) \<and> selector_id s = rule_id_of r
    \<and> encodes_with x a d (ud_bytes packet) (rule_id_of r)"
proof (induction x a packet d rs rule: existing_match.induct)
  case (2 x a packet d r rs)
  show ?case
  proof (cases "eligible_parent (ac_snapshot a) r \<and> flow_overrides x r packet d = Inr (Some [])
      \<and> (\<exists>source. rule_selector_of r = Inr source \<and> encodes_with x a d (ud_bytes packet) (selector_id source) \<and> s = source)")
    case True
    then show ?thesis by (auto simp: rule_selector_of_def dest: selector_new_rule_id)
  next
    case False
    with "2.prems" have "existing_match x a packet d rs = Inr (Some s)"
      by (auto simp: attempt_Inr_iff split: if_splits)
    moreover from False "2.prems" calculation have "\<exists>r \<in> set rs. eligible_parent (ac_snapshot a) r
        \<and> flow_overrides x r packet d = Inr (Some []) \<and> selector_id s = rule_id_of r
        \<and> encodes_with x a d (ud_bytes packet) (rule_id_of r)"
      using "2.IH" by (auto simp: attempt_Inr_iff split: if_splits)
    ultimately show ?thesis by simp
  qed
qed simp

lemma flow_change_AlreadyD:
  assumes "flow_change x model a packet d = Inr (AlreadyMatches s)"
  shows "existing_match x a packet d (cd_rules (active_data a)) = Inr (Some s)"
  using assms
  by (auto simp: flow_change_def flow_change_impl_def existing_application_match_def result_simps
      neq_Nil_conv split: option.splits list.splits)

text \<open>C26: The answer of the flow planner is sound. When it says that a rule already matches, that rule is an
  unprotected compression rule of the active context which needs no override for the packet and with
  which the link encodes it. When it asks for a duplicate, its parent is such a rule that does need
  overrides, which are exactly the requested ones; the destination is a RuleID that the namespace
  accepts and that no active rule has; and the operation was encoded, decoded, prepared and used to
  compress the packet.\<close>

theorem flow_change_sound:
  "case flow_change x model a packet d of
     Inl e \<Rightarrow> True
   | Inr (AlreadyMatches s) \<Rightarrow> (\<exists>r. r \<in> set (cd_rules (active_data a)) \<and> eligible_parent (ac_snapshot a) r
        \<and> flow_overrides x r packet d = Inr (Some []) \<and> selector_id s = rule_id_of r
        \<and> encodes_with x a d (ud_bytes packet) (rule_id_of r))
   | Inr (DuplicateRule parent request) \<Rightarrow>
       (\<exists>ns r c operation p. sn_dynamic (ac_snapshot a) = Some ns \<and> r \<in> set (cd_rules (active_data a))
        \<and> eligible_parent (ac_snapshot a) r \<and> selector_id parent = rule_id_of r \<and> dr_source request = parent
        \<and> flow_overrides x r packet d = Inr (Some (dr_overrides request)) \<and> dr_overrides request \<noteq> []
        \<and> accepts ns (selector_id (dr_destination request))
        \<and> selector_id (dr_destination request) \<notin> rule_id_of ` set (cd_rules (active_data a))
        \<and> trial x model a packet d request = Inr (c, operation, p))"
proof (cases "flow_change x model a packet d")
  case (Inr outcome)
  show ?thesis
  proof (cases outcome)
    case (AlreadyMatches s)
    with Inr existing_match_Some [OF flow_change_AlreadyD, of x model a packet d s] show ?thesis by auto
  next
    case (DuplicateRule parent request)
    with Inr planned_duplicate [of x model a packet d parent request] show ?thesis by simp
  qed
qed simp

text \<open>A planned duplicate is cheapest: no candidate for any active rule has a shorter management
  frame, or as short a frame with fewer overrides, or the same of both with a smaller source RuleID.\<close>

theorem flow_change_minimal:
  assumes "flow_change x model a packet d = Inr (DuplicateRule parent request)"
    and "sn_dynamic (ac_snapshot a) = Some ns"
    and "allocate ns (map rule_id_of (cd_rules (active_data a))) = Inr dest"
    and "r \<in> set (cd_rules (active_data a))" and "plan_parent x model a packet d dest r = Inr (Some c)"
  shows "\<exists>wire. duplicate_rule_wire_bytes x model a request = Inr wire
    \<and> (wire, length (dr_overrides request), rs_value parent, rs_bits parent) \<le> candidate_rank c"
proof -
  obtain ns' dest' r' c' where "sn_dynamic (ac_snapshot a) = Some ns'"
    and "allocate ns' (map rule_id_of (cd_rules (active_data a))) = Inr dest'"
    and plan: "plan_parent x model a packet d dest' r' = Inr (Some c')"
    and c: "parent = dr_source (fc_request c')" "request = fc_request c'"
    and least: "\<forall>r' \<in> set (cd_rules (active_data a)). \<forall>c''. plan_parent x model a packet d dest' r' = Inr (Some c'')
      \<longrightarrow> candidate_rank c' \<le> candidate_rank c''"
    using assms(1) by (rule flow_change_DuplicateD)
  then have "dest' = dest" using assms(2,3) by simp
  with least assms(4,5) have le: "candidate_rank c' \<le> candidate_rank c" by blast
  obtain operation p where "trial x model a packet d (fc_request c') = Inr (c', operation, p)"
    using plan by (rule plan_parent_Some)
  then have "duplicate_rule_wire_bytes x model a request = Inr (fc_wire_bytes c')"
    unfolding c by (rule trial_Inr(2))
  with le show ?thesis by (simp add: candidate_rank_def Let_def c)
qed

subsection \<open>Installing a plan\<close>

text \<open>Whether the link can encode a packet depends only on the data of the snapshot.\<close>

lemma encode_bytes_ok_cong:
  assumes "sn_data (ac_snapshot a) = sn_data (ac_snapshot b)"
  shows "is_ok (encode_bytes x a (link_new a r) origin bs) \<longleftrightarrow> is_ok (encode_bytes x b (link_new b r) origin bs)"
  using assms
  by (cases origin) (simp_all add: encode_bytes_def encode_validated_def link_new_def origin_runtime_def
      classify_def contains_rule_id_def contains_application_rule_id_def is_ok_attempt Let_def)

text \<open>A plan can be carried out: when the planned operation is applied by the device to the context
  it was planned for, the device installs it, provided the candidate passes the publication checks
  and its tree holds the new rule, and from then on the link compresses the packet that asked for
  the change.\<close>

theorem planned_duplicate_installs:
  assumes "flow_change x model a packet d = Inr (DuplicateRule parent request)"
    and "trial x model a packet d request = Inr (c, operation, p)"
    and "dr_destination (op_request operation) = dr_destination request"
    and "expected_duplicate_tree x model (ac_snapshot a) (op_request operation) (op_instances operation) = Inr tree"
    and "find_tree_rule tree model (dr_destination request) = Inr (Some rule)"
    and "validate_candidate x a (ac_snapshot a) p = Inr ()"
    and "active_generation a + 1 < u64_bound"
  shows "\<exists>a'. apply_duplicate_operation x model a operation =
      (a', Answered (Inr (Applied (active_generation a + 1) (cd_tag (pc_data p)))))
    \<and> is_ok (encode_bytes x a' (link_new a' (link_role_of d)) OriginApplication (ud_bytes packet))"
proof -
  let ?dest = "selector_id (dr_destination request)"
  obtain ns dest r c' where ns: "sn_dynamic (ac_snapshot a) = Some ns"
    and dest: "allocate ns (map rule_id_of (cd_rules (active_data a))) = Inr dest"
    and plan: "plan_parent x model a packet d dest r = Inr (Some c')" and c': "request = fc_request c'"
    using assms(1) by (rule flow_change_DuplicateD)
  have "?dest = dest" using plan unfolding c' by (rule plan_parent_Some)
  then have fresh: "accepts ns ?dest" "List.find (\<lambda>r. rule_id_of r = ?dest) (cd_rules (active_data a)) = None"
    using alloc.alloc_accepted [OF dest] alloc.alloc_fresh [OF dest] by (force simp: find_None_iff2)+
  have prep: "from_tree_for_recipe x (ac_recipe a) tree = Inr p"
    and enc: "is_ok (encode_bytes x (active_new p) (link_new (active_new p) (link_role_of d)) OriginApplication (ud_bytes packet))"
    using assms(2,4) by (auto simp: trial_def Let_def attempt_Inr_iff map_err_Inr_iff is_ok_iff)
  define a' where "a' = a\<lparr>ac_snapshot := from_prepared p (active_generation a + 1)\<rparr>"
  have "publish_locked a p = Some a'"
    using assms(7) by (simp add: publish_locked_def a'_def Let_def)
  moreover have "duplicate_candidate x model a operation = Inr (p, rule, None)"
    using assms(3-6) prep fresh ns
    by (simp add: duplicate_candidate_def Let_def prepare_candidate_def)
  moreover have "is_ok (encode_bytes x a' (link_new a' (link_role_of d)) OriginApplication (ud_bytes packet))"
  proof -
    have "sn_data (ac_snapshot a') = sn_data (ac_snapshot (active_new p))"
      by (simp add: a'_def active_new_def from_prepared_def)
    from encode_bytes_ok_cong [OF this] enc show ?thesis by (rule iffD2)
  qed
  ultimately show ?thesis
    by (simp add: apply_duplicate_operation_def publish_and_def Let_def a'_def from_prepared_def)
qed

end
