(* ===== verification/Remote.thy ===== *)
theory Remote
  imports Device
begin

text \<open>
  Decoding of the management responses a peer sends (\<open>src/management.rs\<close>): the rule list from one
  complete root container, and one complete rule, which is re-encoded and loaded again so that the
  detail shown is the codec library's reading of the peer's rule and not of the local context.
\<close>

subsection \<open>Rule natures\<close>

definition nature_identifier :: "coreconf_model \<Rightarrow> json \<Rightarrow> inspection_error + string" where
  "nature_identifier model v =
     (case v of
        JString s \<Rightarrow> Inr s
      | JNumber n \<Rightarrow>
          attempt (ok_or (UnexpectedResponse ''rule-nature SID is not an integer'') (as_i64 v)) (\<lambda>sid.
            ok_or (UnexpectedResponse ''unknown rule-nature SID'') (get_identifier model sid))
      | _ \<Rightarrow> Inl (UnexpectedResponse ''rule-nature is not an identity value''))"

definition decode_nature_value ::
  "'x management_ext_scheme \<Rightarrow> coreconf_model \<Rightarrow> json \<Rightarrow> inspection_error + string" where
  "decode_nature_value x model v =
     attempt (case v of
        JString s \<Rightarrow> Inr v
      | _ \<Rightarrow> map_err UnexpectedResponse (sid_to_identifier_at model v ''/ietf-schc:schc/rule/rule-nature''))
     (\<lambda>named. attempt (nature_identifier model named) (\<lambda>identifier.
       let suffix = last_segment CHR '':'' identifier;
           nature = (case strip_prefix ''nature-'' suffix of None \<Rightarrow> suffix | Some rest \<Rightarrow> rest) in
       if parse_nature x nature = None then
         Inl (UnexpectedResponse (''unknown rule nature '' @ quoted identifier))
       else Inr nature))"

subsection \<open>The rule list\<close>

text \<open>The identity and the nature of one element of the rule array.\<close>

definition summary_of ::
  "'x management_ext_scheme \<Rightarrow> coreconf_model \<Rightarrow> json \<Rightarrow> inspection_error + rule_selector \<times> string" where
  "summary_of x model v =
     attempt (ok_or (UnexpectedResponse ''rule-list response contained a non-object rule'') (as_object v)) (\<lambda>_.
     attempt (ok_or (UnexpectedResponse ''rule-list response rule-id-value is not numeric'') (get_u64 v ''rule-id-value'')) (\<lambda>n.
     attempt (ok_or (UnexpectedResponse ''rule-list response rule-id-length is not numeric'') (get_u64 v ''rule-id-length'')) (\<lambda>bits.
     attempt (selector_new n bits) (\<lambda>s.
     attempt (ok_or (UnexpectedResponse ''rule-list response is missing rule-nature'') (get_key v ''rule-nature'')) (\<lambda>raw.
     attempt (decode_nature_value x model raw) (\<lambda>named. Inr (s, named)))))))"

text \<open>The ordered map from RuleIDs to natures is the list of its entries in key order.\<close>

definition insert_summary ::
  "'x management_ext_scheme \<Rightarrow> coreconf_model \<Rightarrow> (rule_selector \<times> string) list \<Rightarrow> json
    \<Rightarrow> inspection_error + (rule_selector \<times> string) list" where
  "insert_summary x model summaries v =
     attempt (summary_of x model v) (\<lambda>(s, named).
       if s \<in> fst ` set summaries then
         Inl (UnexpectedResponse (''rule-list response duplicated RuleID '' @ show_selector s))
       else Inr (insort_key fst (s, named) summaries))"

definition root_rules ::
  "'x management_ext_scheme \<Rightarrow> bytes \<Rightarrow> coreconf_model \<Rightarrow> inspection_error + json list" where
  "root_rules x payload model =
     attempt (resolve_sids model) (\<lambda>sids.
     attempt (map_err UnexpectedResponse (decode_instances x model payload)) (\<lambda>instances.
     if length instances \<noteq> 1 then
       Inl (UnexpectedResponse (''rule-list response contained '' @ show_nat (length instances)
         @ '' instances, expected one root container''))
     else let i = hd instances in
     attempt (validate_root_instance_path (in_path i) (sid_root sids)) (\<lambda>_.
     attempt (ok_or (UnexpectedResponse ''rule-list response contained a deleted root'') (in_value i)) (\<lambda>raw.
     if raw = JNull then Inl (UnexpectedResponse ''rule-list response contained a null root'') else
     attempt (map_err UnexpectedResponse (sid_to_identifier_at model raw ''/ietf-schc:schc'')) (\<lambda>root.
     attempt (map_err UnexpectedResponse (validate_identifier model (JObject [(''ietf-schc:schc'', root)]))) (\<lambda>_.
       ok_or (UnexpectedResponse ''rule-list response root did not contain a rule array'')
         (Option.bind (get_key root ''rule'') as_array)))))))"

definition decode_rule_list_payload ::
  "'x management_ext_scheme \<Rightarrow> bytes \<Rightarrow> coreconf_model \<Rightarrow> inspection_error + rule_summary list" where
  "decode_rule_list_payload x payload model =
     attempt (root_rules x payload model) (\<lambda>rules.
     attempt (fold_err (insert_summary x model) [] rules) (\<lambda>summaries.
       Inr (map (\<lambda>(s, named). \<lparr>su_id = s, su_nature = named\<rparr>) summaries)))"

subsection \<open>One complete rule\<close>

fun validate_model_shape :: "coreconf_model \<Rightarrow> string \<Rightarrow> json \<Rightarrow> inspection_error + unit"
  and validate_fields :: "coreconf_model \<Rightarrow> string \<Rightarrow> (string \<times> json) list \<Rightarrow> inspection_error + unit"
  and validate_elements :: "coreconf_model \<Rightarrow> string \<Rightarrow> json list \<Rightarrow> inspection_error + unit" where
  "validate_model_shape model path (JObject es) = validate_fields model path es"
| "validate_model_shape model path (JArray vs) = validate_elements model path vs"
| "validate_model_shape model path _ = Inr ()"
| "validate_fields model path [] = Inr ()"
| "validate_fields model path ((key, child) # es) =
     (let child_path = path @ ''/'' @ key in
      if get_sid model child_path = None then
        Inl (UnexpectedResponse (''rule-get response contained unexpected field '' @ quoted child_path))
      else attempt (validate_model_shape model child_path child) (\<lambda>_. validate_fields model path es))"
| "validate_elements model path [] = Inr ()"
| "validate_elements model path (v # vs) =
     attempt (validate_model_shape model path v) (\<lambda>_. validate_elements model path vs)"

definition encode_remote_rule :: "'x management_ext_scheme \<Rightarrow> string \<Rightarrow> json \<Rightarrow> inspection_error + bytes" where
  "encode_remote_rule x sid_json v =
     map_err (\<lambda>e. UnexpectedResponse (show_context_error e))
       (canonical_sor_from_tree x sid_json
         (JObject [(''ietf-schc:schc'', JObject [(''rule'', JArray [v])])]))"

text \<open>The rule value of a response that carries exactly the requested rule.\<close>

definition remote_rule_value ::
  "'x management_ext_scheme \<Rightarrow> bytes \<Rightarrow> coreconf_model \<Rightarrow> rule_selector \<Rightarrow> inspection_error + json" where
  "remote_rule_value x payload model sel =
     attempt (resolve_sids model) (\<lambda>sids.
     attempt (map_err UnexpectedResponse (decode_instances x model payload)) (\<lambda>instances.
     if length instances \<noteq> 1 then
       Inl (UnexpectedResponse (''rule-get response contained '' @ show_nat (length instances)
         @ '' instances, expected one''))
     else let i = hd instances in
     attempt (validate_rule_instance_path (in_path i) (sid_root sids) (sid_rule sids) (sid_rule sids) (Some sel)) (\<lambda>_.
     attempt (ok_or (UnexpectedResponse ''rule-get response contained a deleted rule'') (in_value i)) (\<lambda>raw.
     attempt (map_err UnexpectedResponse (sid_to_identifier_at model raw ''/ietf-schc:schc/rule'')) (\<lambda>v.
     attempt (validate_model_shape model ''/ietf-schc:schc/rule'' v) (\<lambda>_. Inr v))))))"

definition remote_rule_selector :: "json \<Rightarrow> inspection_error + rule_selector" where
  "remote_rule_selector v =
     attempt (ok_or (UnexpectedResponse ''rule-get response did not contain a complete rule object'') (as_object v)) (\<lambda>_.
     case List.find (\<lambda>f. get_key v f = None) [''rule-id-value'', ''rule-id-length'', ''rule-nature''] of
       Some f \<Rightarrow> Inl (UnexpectedResponse (''rule-get response is missing required field '' @ quoted f))
     | None \<Rightarrow>
         attempt (ok_or (UnexpectedResponse ''rule-id-value is not numeric'') (get_u64 v ''rule-id-value'')) (\<lambda>n.
         attempt (ok_or (UnexpectedResponse ''rule-id-length is not numeric'') (get_u64 v ''rule-id-length'')) (\<lambda>bits.
           selector_new n bits)))"

text \<open>The rule is encoded as the only rule of a context, loaded, and looked at as a loaded rule.\<close>

definition reload_rule ::
  "'x management_ext_scheme \<Rightarrow> sid_registry \<Rightarrow> string \<Rightarrow> rule_selector \<Rightarrow> json \<Rightarrow> inspection_error + rule" where
  "reload_rule x registry sid_json sel v =
     attempt (encode_remote_rule x sid_json v) (\<lambda>sor.
     attempt (map_err UnexpectedResponse (context_from_cbor_slice x sor registry)) (\<lambda>ctx.
     if length (ctx_rules ctx) \<noteq> 1 then
       Inl (UnexpectedResponse (''rule-get response reconstructed '' @ show_nat (length (ctx_rules ctx))
         @ '' rules, expected one''))
     else if rule_id_of (hd (ctx_rules ctx)) \<noteq> selector_id sel then
       Inl (UnexpectedResponse ''rule-get response reconstructed the wrong RuleID'')
     else Inr (hd (ctx_rules ctx))))"

definition decode_rule_detail_payload ::
  "'x management_ext_scheme \<Rightarrow> bytes \<Rightarrow> coreconf_model \<Rightarrow> sid_registry \<Rightarrow> string \<Rightarrow> rule_selector
    \<Rightarrow> inspection_error + rule_detail" where
  "decode_rule_detail_payload x payload model registry sid_json sel =
     attempt (remote_rule_value x payload model sel) (\<lambda>v.
     attempt (remote_rule_selector v) (\<lambda>found.
     if found \<noteq> sel then
       Inl (UnexpectedResponse (''rule-get response selected RuleID '' @ show_selector found
         @ '' instead of '' @ show_selector sel))
     else
     attempt (reload_rule x registry sid_json sel v) (\<lambda>r.
       Inr (detail_from_rule (nature_as_str x) r))))"

subsection \<open>What the decoders accept\<close>

text \<open>The fold inserts the decoded elements one by one and rejects a repeated key.\<close>

lemma insert_summary_fold:
  "fold_err (insert_summary x model) acc vs = Inr ss \<longleftrightarrow>
     (\<exists>entries. try_all (summary_of x model) vs = Inr entries \<and> distinct (map fst entries)
        \<and> fst ` set entries \<inter> fst ` set acc = {}
        \<and> ss = foldl (\<lambda>l e. insort_key fst e l) acc entries)"
proof (induction vs arbitrary: acc)
  case (Cons v vs)
  show ?case
  proof (cases "summary_of x model v")
    case (Inr e)
    obtain s named where e: "e = (s, named)" by (cases e)
    show ?thesis
    proof (cases "s \<in> fst ` set acc")
      case True
      then show ?thesis using Inr by (auto simp: insert_summary_def e attempt_Inr_iff)
    next
      case False
      then have step: "insert_summary x model acc v = Inr (insort_key fst e acc)"
        using Inr by (simp add: insert_summary_def e)
      show ?thesis using Inr False
        by (simp add: step Cons.IH attempt_Inr_iff set_insort_key e) (auto simp: image_iff)
    qed
  qed (simp add: insert_summary_def)
qed auto

lemma foldl_insort_set: "set (foldl (\<lambda>l e. insort_key f e l) acc es) = set acc \<union> set es"
  by (induction es arbitrary: acc) (auto simp: set_insort_key)

lemma foldl_insort_sorted: "sorted (map f acc) \<Longrightarrow> sorted (map f (foldl (\<lambda>l e. insort_key f e l) acc es))"
  by (induction es arbitrary: acc) (auto simp: sorted_insort_key)

lemma foldl_insort_length: "length (foldl (\<lambda>l e. insort_key f e l) acc es) = length acc + length es"
  by (induction es arbitrary: acc) auto

text \<open>With distinct keys the order of insertion does not matter: the result is the sorted list.\<close>

lemma foldl_insort_sort_key:
  assumes "distinct (map f es)"
  shows "foldl (\<lambda>l e. insort_key f e l) [] es = sort_key f es"
proof (rule map_sorted_distinct_set_unique)
  let ?l = "foldl (\<lambda>l e. insort_key f e l) [] es"
  have set: "set ?l = set es" by (simp add: foldl_insort_set)
  have inj: "inj_on f (set es)" using assms by (simp add: distinct_map)
  show "inj_on f (set ?l \<union> set (sort_key f es))" using inj set by simp
  show "sorted (map f ?l)" by (rule foldl_insort_sorted) simp
  have "distinct es" using assms by (simp add: distinct_map)
  then have "card (set ?l) = length ?l"
    using set by (simp add: foldl_insort_length distinct_card)
  then show "distinct (map f ?l)" using inj set by (simp add: distinct_map card_distinct)
  show "distinct (map f (sort_key f es))" using assms by (simp add: distinct_map)
  show "set ?l = set (sort_key f es)" using set by simp
qed simp

text \<open>C36: The rule list shown for a device is exactly the rule array of the response: the payload holds
  the one complete root container, every element decodes to a RuleID and a known nature, no RuleID
  occurs twice, and the summaries are those elements in the order of their RuleIDs, none left out.\<close>

theorem decode_rule_list_exact:
  "decode_rule_list_payload x payload model = Inr summaries \<longleftrightarrow>
     (\<exists>rules entries. root_rules x payload model = Inr rules
        \<and> try_all (summary_of x model) rules = Inr entries \<and> distinct (map fst entries)
        \<and> summaries = map (\<lambda>(s, named). \<lparr>su_id = s, su_nature = named\<rparr>)
            (sort_key fst entries))"
  unfolding decode_rule_list_payload_def attempt_Inr_iff insert_summary_fold
  by (auto simp: foldl_insort_sort_key)

text \<open>The paths of all fields of a value, a list adding nothing to the path of its elements.\<close>

fun field_paths :: "string \<Rightarrow> json \<Rightarrow> string list"
  and member_paths :: "string \<Rightarrow> (string \<times> json) list \<Rightarrow> string list"
  and element_paths :: "string \<Rightarrow> json list \<Rightarrow> string list" where
  "field_paths path (JObject es) = member_paths path es"
| "field_paths path (JArray vs) = element_paths path vs"
| "field_paths path _ = []"
| "member_paths path [] = []"
| "member_paths path ((key, child) # es) =
     (path @ ''/'' @ key) # field_paths (path @ ''/'' @ key) child @ member_paths path es"
| "element_paths path [] = []"
| "element_paths path (v # vs) = field_paths path v @ element_paths path vs"

lemma validate_model_shape_paths:
  "validate_model_shape model path v = Inr () \<longleftrightarrow> list_all (\<lambda>p. get_sid model p \<noteq> None) (field_paths path v)"
  "validate_fields model path es = Inr () \<longleftrightarrow> list_all (\<lambda>p. get_sid model p \<noteq> None) (member_paths path es)"
  "validate_elements model path vs = Inr () \<longleftrightarrow> list_all (\<lambda>p. get_sid model p \<noteq> None) (element_paths path vs)"
  by (induction model path v and model path es and model path vs
      rule: validate_model_shape_validate_fields_validate_elements.induct)
    (auto simp: attempt_Inr_iff Let_def)

lemma remote_rule_selector_Inr:
  "remote_rule_selector v = Inr s \<longleftrightarrow> (\<exists>n bits es. v = JObject es \<and> get_u64 v ''rule-id-value'' = Some n
     \<and> get_u64 v ''rule-id-length'' = Some bits \<and> get_key v ''rule-nature'' \<noteq> None \<and> selector_new n bits = Inr s)"
  by (cases v) (auto simp: remote_rule_selector_def attempt_Inr_iff ok_or_Inr_iff bind_eq_Some_conv)

lemma selector_new_fields: "selector_new n bits = Inr s \<Longrightarrow> rs_value s = n \<and> rs_bits s = bits"
  by (auto simp: selector_new_def split: if_splits)

lemma rule_instance_path_Inr:
  assumes "validate_rule_instance_path path root r r (Some sel) = Inr ()"
  shows "path_sids 0 path = [root, r]" and "map as_u64 (path_keys path) = [Some (rs_value sel), Some (rs_bits sel)]"
proof -
  have len: "length (path_sids 0 path) = 2" "length (path_keys path) = 2"
    and sids: "take 1 (path_sids 0 path) = [root]" "take 1 (drop 1 (path_sids 0 path)) = [r]"
    and keys: "rule_key_values path = Inr [rs_value sel, rs_bits sel]"
    using assms by (auto simp: validate_rule_instance_path_def Let_def attempt_Inr_iff split: if_splits)
  from len obtain a b k l where "path_sids 0 path = [a, b]" "path_keys path = [k, l]"
    by (auto simp: length_Suc_conv numeral_2_eq_2)
  with sids keys show "path_sids 0 path = [root, r]" "map as_u64 (path_keys path) = [Some (rs_value sel), Some (rs_bits sel)]"
    by (auto simp: rule_key_values_def Let_def map_filter_simps split: if_splits option.splits)
qed

lemma remote_rule_value_Inr:
  assumes "remote_rule_value x payload model sel = Inr v"
  obtains sids path raw where "resolve_sids model = Inr sids"
    and "decode_instances x model payload = Inr [\<lparr>in_path = path, in_value = Some raw\<rparr>]"
    and "validate_rule_instance_path path (sid_root sids) (sid_rule sids) (sid_rule sids) (Some sel) = Inr ()"
    and "sid_to_identifier_at model raw ''/ietf-schc:schc/rule'' = Inr v"
    and "list_all (\<lambda>p. get_sid model p \<noteq> None) (field_paths ''/ietf-schc:schc/rule'' v)"
proof -
  obtain sids instances raw where s: "resolve_sids model = Inr sids" "decode_instances x model payload = Inr instances"
    and one: "length instances = 1"
    and p: "validate_rule_instance_path (in_path (hd instances)) (sid_root sids) (sid_rule sids) (sid_rule sids) (Some sel) = Inr ()"
    and v: "in_value (hd instances) = Some raw" "sid_to_identifier_at model raw ''/ietf-schc:schc/rule'' = Inr v"
      "validate_model_shape model ''/ietf-schc:schc/rule'' v = Inr ()"
    using assms by (auto simp: remote_rule_value_def result_simps Let_def split: if_splits)
  from one obtain i where "instances = [i]" by (auto simp: length_Suc_conv)
  moreover have "i = \<lparr>in_path = in_path i, in_value = in_value i\<rparr>" by simp
  ultimately have "decode_instances x model payload = Inr [\<lparr>in_path = in_path i, in_value = Some raw\<rparr>]"
    using s v(1) by simp
  with that [of sids "in_path i" raw] s p v(2,3) \<open>instances = [i]\<close> show thesis by (simp add: validate_model_shape_paths)
qed

lemma reload_rule_Inr:
  assumes "reload_rule x registry sid_json sel v = Inr r"
  obtains sor ctx where "canonical_sor_from_tree x sid_json
      (JObject [(''ietf-schc:schc'', JObject [(''rule'', JArray [v])])]) = Inr sor"
    and "context_from_cbor_slice x sor registry = Inr ctx" and "ctx_rules ctx = [r]" and "rule_id_of r = selector_id sel"
  using assms by (auto simp: reload_rule_def encode_remote_rule_def result_simps length_Suc_conv split: if_splits)

subsection \<open>A concrete response\<close>

definition remote_rule :: json where
  "remote_rule = JObject [(''rule-id-length'', json_nat 3), (''rule-id-value'', json_nat 5),
     (''rule-nature'', JString ''nature-compression'')]"

definition remote_tree :: json where
  "remote_tree = JObject [(''ietf-schc:schc'', JObject [(''rule'', JArray [remote_rule])])]"

definition remote_model :: coreconf_model where
  "remote_model = world_model
     \<lparr>get_sid := (\<lambda>p. if p = ''/ietf-schc:schc/rule/rule-nature'' then Some 22 else get_sid dup_model p),
      to_value := (\<lambda>_. Inr remote_tree)\<rparr>"

definition remote_path :: instance_path where
  "remote_path = [SidDelta 1, SidDelta 1, KeyValue (json_nat 5), KeyValue (json_nat 3)]"

definition remote_world :: flow_ext where
  "remote_world = world
     \<lparr>model_from_sid_str := (\<lambda>_. Inr remote_model),
      context_from_cbor_slice := (\<lambda>_ _. Inr (world_rules False)),
      decode_instances := (\<lambda>_ _. Inr [\<lparr>in_path = remote_path, in_value = Some remote_rule\<rparr>])\<rparr>"

lemma remote_model_simps [simp]:
  "sid_to_identifier_at remote_model v p = Inr v" "to_value remote_model bs = Inr remote_tree"
  "json_to_cbor remote_model t = Inr (CMap [(CInteger 1, CBool (t = world_tree True))])"
  by (simp_all add: remote_model_def)

lemma remote_world_simps [simp]:
  "strict_cbor_value remote_world bs = strict_cbor_value world bs"
  "into_writer remote_world v = into_writer world v" "model_from_sid_str remote_world s = Inr remote_model"
  "registry_from_json_str remote_world s = Inr 0" "context_from_cbor_slice remote_world bs reg = Inr (world_rules False)"
  "decode_instances remote_world m bs = Inr [\<lparr>in_path = remote_path, in_value = Some remote_rule\<rparr>]"
  "nature_as_str remote_world = nature_as_str world"
  using world_simps(6) [of s] by (simp_all add: remote_world_def strict_cbor_value_def)

lemma remote_resolve: "resolve_sids remote_model = Inr demo_sids"
proof -
  have "try_all (resolve_sid remote_model) sid_paths = try_all (resolve_sid dup_model) sid_paths"
    by (rule try_all_cong) (auto simp: sid_paths_def resolve_sid_def remote_model_def)
  then show ?thesis using dup_resolve by (simp add: resolve_sids_def)
qed

lemma remote_normal: "normalize_tree remote_tree = Inr remote_tree"
  by (simp add: normalize_tree_def remote_tree_def remote_rule_def normalize_array_def)

lemma remote_root [simp]: "get_sid remote_model ''/ietf-schc:schc'' = Some 1"
  by (simp add: remote_model_def)

lemma remote_tree_facts: "remote_tree \<noteq> world_tree True" "guard_period_from_tree remote_tree = Inr None"
  by (simp_all add: remote_tree_def world_tree_def guard_period_from_tree_def)

lemma remote_sor: "canonical_sor_from_tree remote_world s remote_tree = Inr (demo_bytes False)"
  by (simp add: canonical_sor_from_tree_def remote_normal encode_tree_def load_sor_def ensure_schc_root_def
      remote_tree_facts Let_def)

lemma remote_detail: "decode_rule_detail_payload remote_world [1] remote_model 0 ''m'' (selector 5 3)
  = Inr (detail_from_rule (nature_as_str world) (hd (ctx_rules (world_rules False))))"
proof -
  have s: "get_sid dup_model ''/ietf-schc:schc/rule/rule-id-length'' = Some 3"
    "get_sid dup_model ''/ietf-schc:schc/rule/rule-id-value'' = Some 4"
    by (simp_all add: dup_model_def sid_paths_def upt_rec)
  have sel: "remote_rule_selector remote_rule = Inr (selector 5 3)"
    by (simp add: remote_rule_selector_def remote_rule_def selector_new_def)
  have "validate_model_shape remote_model ''/ietf-schc:schc/rule'' remote_rule = Inr ()"
    by (simp add: remote_rule_def s remote_model_def)
  then have "remote_rule_value remote_world [1] remote_model (selector 5 3) = Inr remote_rule"
    by (simp add: remote_rule_value_def remote_resolve remote_path_def validate_rule_instance_path_def
        rule_key_values_def map_filter_simps Let_def)
  moreover have "reload_rule remote_world 0 ''m'' (selector 5 3) remote_rule = Inr (hd (ctx_rules (world_rules False)))"
    using remote_sor [of "''m''"]
    by (simp add: reload_rule_def encode_remote_rule_def remote_tree_def world_rules_def selector_id_def)
  ultimately show ?thesis using sel by (simp add: decode_rule_detail_payload_def)
qed

text \<open>The detail shown for a remote rule is the peer's: the payload holds one instance at the path of
  the requested RuleID, its value is an object all of whose fields the SID model knows and which
  names that RuleID itself, and the detail is the one of the only rule of the context obtained by
  encoding that value, which has that RuleID again.\<close>

theorem decode_rule_detail_sound:
  assumes "decode_rule_detail_payload x payload model registry sid_json sel = Inr d"
  shows "\<exists>sids path raw v sor ctx r. resolve_sids model = Inr sids
    \<and> decode_instances x model payload = Inr [\<lparr>in_path = path, in_value = Some raw\<rparr>]
    \<and> path_sids 0 path = [sid_root sids, sid_rule sids]
    \<and> map as_u64 (path_keys path) = [Some (rs_value sel), Some (rs_bits sel)]
    \<and> sid_to_identifier_at model raw ''/ietf-schc:schc/rule'' = Inr v
    \<and> list_all (\<lambda>p. get_sid model p \<noteq> None) (field_paths ''/ietf-schc:schc/rule'' v)
    \<and> get_u64 v ''rule-id-value'' = Some (rs_value sel) \<and> get_u64 v ''rule-id-length'' = Some (rs_bits sel)
    \<and> canonical_sor_from_tree x sid_json
        (JObject [(''ietf-schc:schc'', JObject [(''rule'', JArray [v])])]) = Inr sor
    \<and> context_from_cbor_slice x sor registry = Inr ctx \<and> ctx_rules ctx = [r]
    \<and> rule_id_of r = selector_id sel \<and> d = detail_from_rule (nature_as_str x) r \<and> rd_id d = sel"
proof -
  obtain v r where v: "remote_rule_value x payload model sel = Inr v" "remote_rule_selector v = Inr sel"
    and r: "reload_rule x registry sid_json sel v = Inr r" "d = detail_from_rule (nature_as_str x) r"
    using assms by (auto simp: decode_rule_detail_payload_def attempt_Inr_iff split: if_splits)
  obtain sids path raw where p: "resolve_sids model = Inr sids"
    "decode_instances x model payload = Inr [\<lparr>in_path = path, in_value = Some raw\<rparr>]"
    "validate_rule_instance_path path (sid_root sids) (sid_rule sids) (sid_rule sids) (Some sel) = Inr ()"
    "sid_to_identifier_at model raw ''/ietf-schc:schc/rule'' = Inr v"
    "list_all (\<lambda>p. get_sid model p \<noteq> None) (field_paths ''/ietf-schc:schc/rule'' v)"
    using v(1) by (rule remote_rule_value_Inr)
  obtain sor ctx where c: "canonical_sor_from_tree x sid_json
      (JObject [(''ietf-schc:schc'', JObject [(''rule'', JArray [v])])]) = Inr sor"
    "context_from_cbor_slice x sor registry = Inr ctx" "ctx_rules ctx = [r]" "rule_id_of r = selector_id sel"
    using r(1) by (rule reload_rule_Inr)
  have "get_u64 v ''rule-id-value'' = Some (rs_value sel)" "get_u64 v ''rule-id-length'' = Some (rs_bits sel)"
    using v(2) by (auto simp: remote_rule_selector_Inr dest: selector_new_fields)
  moreover have "rd_id d = sel"
    using c(4) r(2) by (simp add: detail_from_rule_def rule_id_selector_def selector_id_def)
  ultimately show ?thesis
    using p c r(2) rule_instance_path_Inr [OF p(3)] by - (intro exI conjI; assumption)
qed

lemma decode_rule_detail_witness:
  "\<exists>sor. canonical_sor_from_tree remote_world ''m'' remote_tree = Inr sor"
  using decode_rule_detail_sound [OF remote_detail] by (auto simp: remote_tree_def)

end
