(* ===== verification/Application.thy ===== *)
theory Application
  imports Updates Utf8
begin

text \<open>
  The generic application datastore service and its client (\<open>src/application.rs\<close>). The service
  answers discovery itself and hands every other request to the CORECONF request handler, which
  may change the datastore; the client turns paths and values into calls of the CORECONF client.
  File contents, the CORECONF libraries and the client's socket are the fields of \<open>app_ext\<close>.
\<close>

subsection \<open>Third-party code\<close>

text \<open>The state of the CORECONF client and of its socket is a handle.\<close>

type_synonym coap_client = nat

datatype application_error =
    AppIo string | AppModel string | AppCoap string | AppRemote string string | AppJson string

fun show_application_error :: "application_error \<Rightarrow> string" where
  "show_application_error (AppIo e) = ''application file operation failed: '' @ e"
| "show_application_error (AppModel e) = ''application model operation failed: '' @ e"
| "show_application_error (AppCoap e) = ''CoAP datagram operation failed: '' @ e"
| "show_application_error (AppRemote c m) = ''remote CORECONF response was '' @ c @ '': '' @ m"
| "show_application_error (AppJson e) = ''invalid JSON value: '' @ e"

record app_ext = management_ext +
  read_to_string :: "string \<Rightarrow> string + string"
  model_from_sids :: "string list \<Rightarrow> string + coreconf_model"
  model_sids_of :: "coreconf_model \<Rightarrow> (string \<times> int) list"
  datastore_from_json :: "coreconf_model \<Rightarrow> string \<Rightarrow> string + json"
  handle_data_request :: "coreconf_model \<Rightarrow> json \<Rightarrow> coreconf_request \<Rightarrow> json \<times> coreconf_response"
  set_link_format :: "lite_packet \<Rightarrow> lite_packet"
  validation_error :: "string \<Rightarrow> string"
  client_discover :: "coap_client \<Rightarrow> coap_client \<times> (string + string)"
  client_fetch :: "coap_client \<Rightarrow> string \<Rightarrow> coap_client \<times> (string + json option)"
  client_patch :: "coap_client \<Rightarrow> (string \<times> json option) list \<Rightarrow> coap_client \<times> (string + unit)"

subsection \<open>Paths\<close>

definition trim_slashes :: "string \<Rightarrow> string" where
  "trim_slashes s = (let slash = (\<lambda>c. c = CHR ''/'') in rev (dropWhile slash (rev (dropWhile slash s))))"

definition normalize_resource_path :: "string \<Rightarrow> string" where
  "normalize_resource_path path = (let p = trim_slashes path in if p = [] then ''c'' else p)"

definition canonical_path :: "string \<Rightarrow> string" where
  "canonical_path path =
     (let p = trim path in
      if p = [] \<or> p = ''/'' then ''/''
      else if take 1 p = ''/'' then p
      else ''/'' @ p)"

text \<open>The segments that are valid UTF-8, joined.\<close>

definition uri_path :: "lite_packet \<Rightarrow> string" where
  "uri_path p = ''/'' @ (case get_option p opt_uri_path of
     None \<Rightarrow> [] | Some segments \<Rightarrow> join ''/'' (List.map_filter from_utf8 segments))"

fun response_type_for :: "lite_type \<Rightarrow> lite_type" where
  "response_type_for Confirmable = Acknowledgement"
| "response_type_for NonConfirmable = NonConfirmable"
| "response_type_for _ = Confirmable"

subsection \<open>Schema\<close>

definition contains_text :: "string \<Rightarrow> string \<Rightarrow> bool" where
  "contains_text w s \<longleftrightarrow> (\<exists>k \<in> set [0..<length s + 1]. take (length w) (drop k s) = w)"

definition schema_entries :: "'x app_ext_scheme \<Rightarrow> coreconf_model \<Rightarrow> string option \<Rightarrow> (string \<times> int) list" where
  "schema_entries x model wanted =
     sort_key fst
       (filter (\<lambda>(i, _). case wanted of None \<Rightarrow> True | Some w \<Rightarrow> contains_text w i)
         (filter (\<lambda>(i, _). take 1 i = ''/'') (model_sids_of x model)))"

definition schema_lines :: "'x app_ext_scheme \<Rightarrow> coreconf_model \<Rightarrow> string option \<Rightarrow> string list" where
  "schema_lines x model wanted =
     map (\<lambda>(i, sid). i @ '' (sid '' @ show_int sid @ '')'') (schema_entries x model wanted)"

subsection \<open>The service\<close>

record data_service =
  ds_resource_path :: string
  ds_model :: coreconf_model
  ds_tree :: json

definition from_model_and_json ::
  "'x app_ext_scheme \<Rightarrow> coreconf_model \<Rightarrow> string \<Rightarrow> string \<Rightarrow> application_error + data_service" where
  "from_model_and_json x model data_json resource_path =
     attempt (map_err AppModel (datastore_from_json x model data_json)) (\<lambda>tree.
       Inr \<lparr>ds_resource_path = normalize_resource_path resource_path, ds_model = model, ds_tree = tree\<rparr>)"

definition from_sid_contents ::
  "'x app_ext_scheme \<Rightarrow> string list \<Rightarrow> string \<Rightarrow> string \<Rightarrow> application_error + data_service" where
  "from_sid_contents x sid_contents data_json resource_path =
     (if sid_contents = [] then
        Inl (AppModel (validation_error x ''at least one application SID document is required''))
      else attempt (map_err AppModel (model_from_sids x sid_contents)) (\<lambda>model.
        from_model_and_json x model data_json resource_path))"

definition from_files ::
  "'x app_ext_scheme \<Rightarrow> string list \<Rightarrow> string \<Rightarrow> string \<Rightarrow> application_error + data_service" where
  "from_files x sid_files data_path resource_path =
     (if sid_files = [] then
        Inl (AppModel (validation_error x ''at least one application SID file is required''))
      else
        attempt (map_err AppIo (try_all (read_to_string x) sid_files)) (\<lambda>contents.
        attempt (map_err AppModel (model_from_sids x contents)) (\<lambda>model.
        attempt (map_err AppIo (read_to_string x data_path)) (\<lambda>data_json.
          from_model_and_json x model data_json resource_path))))"

definition discovery_text :: "string \<Rightarrow> string" where
  "discovery_text resource_path =
     (let management = trim_slashes resource_path;
          streaming = (if management = ''c'' then ''s'' else management @ ''/s'') in
      ''</'' @ management @ ''>;rt='' @ [CHR 0x22] @ ''core.c.ds'' @ [CHR 0x22] @ '';ct=140;ds=1029,</''
        @ streaming @ ''>;rt='' @ [CHR 0x22] @ ''core.c.ev'' @ [CHR 0x22] @ '';ct=142;obs'')"

definition discovery_response :: "'x app_ext_scheme \<Rightarrow> data_service \<Rightarrow> lite_packet \<Rightarrow> lite_packet" where
  "discovery_response x service request =
     (let base = \<lparr>lp_code = LiteEmpty, lp_type = response_type_for (lp_type request),
            lp_message_id = lp_message_id request, lp_token = lp_token request, lp_options = [], lp_payload = []\<rparr> in
      if lp_code request = LiteRequest MGet then
        set_link_format x (base\<lparr>lp_code := LiteResponse 69,
          lp_payload := bytes_of_string (discovery_text (ds_resource_path service))\<rparr>)
      else base\<lparr>lp_code := LiteResponse 133\<rparr>)"

definition data_response :: "'x app_ext_scheme \<Rightarrow> data_service \<Rightarrow> lite_packet \<Rightarrow> data_service \<times> lite_packet" where
  "data_response x service request =
     (case packet_to_request x request (ds_resource_path service) of
        Inl response \<Rightarrow> (service, response_to_packet x request response)
      | Inr req \<Rightarrow>
          (let (tree, response) = handle_data_request x (ds_model service) (ds_tree service) req in
           (service\<lparr>ds_tree := tree\<rparr>, response_to_packet x request response)))"

definition handle_data_datagram ::
  "'x app_ext_scheme \<Rightarrow> data_service \<Rightarrow> bytes \<Rightarrow> data_service \<times> (application_error + bytes)" where
  "handle_data_datagram x service datagram =
     (case lite_from_bytes x datagram of
        Inl e \<Rightarrow> (service, Inl (AppCoap e))
      | Inr request \<Rightarrow>
          (let (service', response) =
             (if uri_path request = ''/.well-known/core'' then (service, discovery_response x service request)
              else data_response x service request) in
           (service', map_err AppCoap (lite_to_bytes x response))))"

subsection \<open>The client\<close>

record data_client =
  dc_client :: coap_client
  dc_model :: coreconf_model

definition client_schema :: "'x app_ext_scheme \<Rightarrow> data_client \<Rightarrow> string option \<Rightarrow> string list" where
  "client_schema x c wanted = schema_lines x (dc_model c) wanted"

text \<open>A call of the CORECONF client changes its state; its errors are model errors.\<close>

definition client_result ::
  "data_client \<Rightarrow> coap_client \<times> (string + 'r) \<Rightarrow> data_client \<times> (application_error + 'r)" where
  "client_result c r = (c\<lparr>dc_client := fst r\<rparr>, map_err AppModel (snd r))"

definition discover :: "'x app_ext_scheme \<Rightarrow> data_client \<Rightarrow> data_client \<times> (application_error + string)" where
  "discover x c = client_result c (client_discover x (dc_client c))"

definition fetch :: "'x app_ext_scheme \<Rightarrow> data_client \<Rightarrow> string \<Rightarrow> data_client \<times> (application_error + json option)" where
  "fetch x c path = client_result c (client_fetch x (dc_client c) (canonical_path path))"

definition set_value ::
  "'x app_ext_scheme \<Rightarrow> data_client \<Rightarrow> string \<Rightarrow> json \<Rightarrow> data_client \<times> (application_error + unit)" where
  "set_value x c path v =
     (let p = canonical_path path in
      case identifier_to_sid_at (dc_model c) v p of
        Inl e \<Rightarrow> (c, Inl (AppModel e))
      | Inr wire \<Rightarrow> client_result c (client_patch x (dc_client c) [(p, Some wire)]))"

definition delete :: "'x app_ext_scheme \<Rightarrow> data_client \<Rightarrow> string \<Rightarrow> data_client \<times> (application_error + unit)" where
  "delete x c path = client_result c (client_patch x (dc_client c) [(canonical_path path, None)])"

subsection \<open>Paths are canonical\<close>

lemma strip_ends:
  fixes P s
  defines "t \<equiv> rev (dropWhile P (rev (dropWhile P s)))"
  assumes "t \<noteq> []"
  shows "\<not> P (hd t) \<and> \<not> P (last t)"
proof
  let ?u = "dropWhile P s"
  have ne: "dropWhile P (rev ?u) \<noteq> []" using assms(2) by (simp only: t_def rev_is_Nil_conv simp_thms)
  then have u: "?u \<noteq> []" by (rule contrapos_nn) (simp only: rev.simps dropWhile.simps)
  have "rev ?u = takeWhile P (rev ?u) @ dropWhile P (rev ?u)" by simp
  then have "last (rev ?u) = last (dropWhile P (rev ?u))" using ne by (metis last_appendR)
  then have "hd t = hd ?u" using u by (simp add: t_def hd_rev last_rev)
  then show "\<not> P (hd t)" using u by (simp add: hd_dropWhile)
  show "\<not> P (last t)" using hd_dropWhile [OF ne] ne by (simp add: t_def last_rev)
qed

lemma strip_fixed:
  assumes "s = [] \<or> \<not> P (hd s) \<and> \<not> P (last s)"
  shows "rev (dropWhile P (rev (dropWhile P s))) = s"
proof (cases "s = []")
  case False
  with assms have "dropWhile P s = s" and "dropWhile P (rev s) = rev s"
    by (simp_all add: dropWhile_eq_self_iff hd_rev)
  then show ?thesis by simp
qed simp

lemma trim_slashes_ends: "trim_slashes s \<noteq> [] \<Longrightarrow> hd (trim_slashes s) \<noteq> CHR ''/'' \<and> last (trim_slashes s) \<noteq> CHR ''/''"
  unfolding trim_slashes_def Let_def by (rule strip_ends)

lemma trim_ends: "trim s \<noteq> [] \<Longrightarrow> \<not> is_space (hd (trim s)) \<and> \<not> is_space (last (trim s))"
  unfolding trim_def by (rule strip_ends)

lemma trim_fixed: "s = [] \<or> \<not> is_space (hd s) \<and> \<not> is_space (last s) \<Longrightarrow> trim s = s"
  unfolding trim_def by (rule strip_fixed)

lemma trim_trim [simp]: "trim (trim s) = trim s"
  using trim_ends [of s] by (intro trim_fixed) auto

definition resource_path_ok :: "string \<Rightarrow> bool" where
  "resource_path_ok p \<longleftrightarrow> p \<noteq> [] \<and> hd p \<noteq> CHR ''/'' \<and> last p \<noteq> CHR ''/''"

lemma resource_path_fixed: "resource_path_ok p \<Longrightarrow> trim_slashes p = p"
  unfolding resource_path_ok_def trim_slashes_def Let_def by (rule strip_fixed) simp

lemma normalize_resource_path_ok: "resource_path_ok (normalize_resource_path p)"
  using trim_slashes_ends [of p] by (simp add: normalize_resource_path_def resource_path_ok_def Let_def)

text \<open>A path given to the client is sent in one canonical form: it starts with a slash, has no blank
  at its end, normalising it again changes nothing, and blanks around the argument make no
  difference.\<close>

theorem canonical_path_normal_form:
  "take 1 (canonical_path p) = ''/'' \<and> \<not> is_space (last (canonical_path p))
   \<and> canonical_path (canonical_path p) = canonical_path p \<and> canonical_path (trim p) = canonical_path p"
proof (cases "trim p = [] \<or> trim p = ''/''")
  case True
  then have "canonical_path p = ''/''" by (auto simp: canonical_path_def Let_def)
  moreover have "trim ''/'' = ''/''" by (rule trim_fixed) (simp add: is_space_def)
  ultimately show ?thesis by (simp add: canonical_path_def is_space_def Let_def)
next
  case False
  then have ends: "\<not> is_space (hd (trim p))" "\<not> is_space (last (trim p))" and ne: "trim p \<noteq> []"
    using trim_ends [of p] by auto
  let ?c = "canonical_path p"
  have start: "take 1 ?c = ''/''" and ends': "\<not> is_space (hd ?c)" "\<not> is_space (last ?c)" and ne': "?c \<noteq> []" "?c \<noteq> ''/''"
    using False ends ne by (auto simp: canonical_path_def is_space_def Let_def)
  then have "trim ?c = ?c" by (intro trim_fixed) simp
  with start ne' have "canonical_path ?c = ?c" by (simp add: canonical_path_def [of ?c])
  with start ends' show ?thesis by (simp add: canonical_path_def)
qed

subsection \<open>The service\<close>

definition service_ok :: "data_service \<Rightarrow> bool" where
  "service_ok s \<longleftrightarrow> resource_path_ok (ds_resource_path s)"

lemma from_model_and_json_ok: "from_model_and_json x model data_json path = Inr s \<Longrightarrow> service_ok s"
  by (auto simp: from_model_and_json_def attempt_Inr_iff service_ok_def normalize_resource_path_ok)

lemma service_constructors_ok:
  "from_sid_contents x contents data_json path = Inr s \<Longrightarrow> service_ok s"
  "from_files x files data_path path = Inr s \<Longrightarrow> service_ok s"
  by (auto simp: from_sid_contents_def from_files_def attempt_Inr_iff dest: from_model_and_json_ok split: if_splits)

lemma handle_data_datagram_keeps:
  "ds_resource_path (fst (handle_data_datagram x s d)) = ds_resource_path s"
  "ds_model (fst (handle_data_datagram x s d)) = ds_model s"
  by (auto simp: handle_data_datagram_def data_response_def Let_def split: sum.splits prod.splits)

text \<open>A run of the service over the datagrams that arrive.\<close>

fun serve :: "'x app_ext_scheme \<Rightarrow> data_service \<Rightarrow> bytes list \<Rightarrow> data_service \<times> (application_error + bytes) list" where
  "serve x s [] = (s, [])"
| "serve x s (d # ds) =
     (let (s', answer) = handle_data_datagram x s d; (s'', answers) = serve x s' ds in (s'', answer # answers))"

lemma serve_keeps:
  "ds_resource_path (fst (serve x s ds)) = ds_resource_path s" "ds_model (fst (serve x s ds)) = ds_model s"
  by (induction ds arbitrary: s) (simp_all add: handle_data_datagram_keeps Let_def case_prod_beta)

lemma serve_ok: "service_ok s \<Longrightarrow> service_ok (fst (serve x s ds))"
  by (simp add: service_ok_def serve_keeps)

lemma discovery_text_exact:
  assumes "resource_path_ok p"
  shows "discovery_text p = ''</'' @ p @ ''>;rt='' @ [CHR 0x22] @ ''core.c.ds'' @ [CHR 0x22] @ '';ct=140;ds=1029,</''
    @ (if p = ''c'' then ''s'' else p @ ''/s'') @ ''>;rt='' @ [CHR 0x22] @ ''core.c.ev'' @ [CHR 0x22] @ '';ct=142;obs''"
  using resource_path_fixed [OF assms] by (simp add: discovery_text_def Let_def)

text \<open>Discovery does not depend on the history: whatever datagrams a service has handled since it was
  built, a GET of the well-known resource leaves its data unchanged and is answered with the
  request's message ID and token and a link to the normalised resource path it was built with.\<close>

theorem discovery_stable:
  assumes "from_model_and_json x model data_json path = Inr s"
    and "lite_from_bytes x d = Inr request" and "uri_path request = ''/.well-known/core''"
    and "lp_code request = LiteRequest MGet"
  shows "handle_data_datagram x (fst (serve x s ds)) d = (fst (serve x s ds),
    map_err AppCoap (lite_to_bytes x (set_link_format x
      \<lparr>lp_code = LiteResponse 69, lp_type = response_type_for (lp_type request),
       lp_message_id = lp_message_id request, lp_token = lp_token request, lp_options = [],
       lp_payload = bytes_of_string (discovery_text (normalize_resource_path path))\<rparr>)))"
proof -
  have "ds_resource_path s = normalize_resource_path path"
    using assms(1) by (auto simp: from_model_and_json_def attempt_Inr_iff)
  then have "ds_resource_path (fst (serve x s ds)) = normalize_resource_path path" by (simp add: serve_keeps)
  with assms(2-4) show ?thesis by (simp add: handle_data_datagram_def discovery_response_def Let_def)
qed

definition demo_discovery :: lite_packet where
  "demo_discovery = \<lparr>lp_code = LiteRequest MGet, lp_type = Confirmable, lp_message_id = 7, lp_token = [1],
     lp_options = [(11, [bytes_of_string ''.well-known'', bytes_of_string ''core''])], lp_payload = []\<rparr>"

definition demo_app :: app_ext where
  "demo_app = (management_ext.extend demo_mgmt (app_ext.fields (\<lambda>_. Inl []) (\<lambda>_. Inr demo_model) (\<lambda>_. [])
     (\<lambda>_ _. Inr (JObject [])) (\<lambda>_ t _. (t, ChangedResponse)) (add_option opt_content_format [40]) (\<lambda>e. e)
     (\<lambda>c. (c, Inl [])) (\<lambda>c _. (c, Inl [])) (\<lambda>c _. (c, Inl []))))
     \<lparr>lite_from_bytes := (\<lambda>_. Inr demo_discovery), lite_to_bytes := (\<lambda>p. Inr (lp_payload p))\<rparr>"

lemma demo_discovery_path: "uri_path demo_discovery = ''/.well-known/core''"
  by code_simp

lemma discovery_stable_witness:
  "snd (handle_data_datagram demo_app \<lparr>ds_resource_path = ''mgmt'', ds_model = demo_model, ds_tree = JObject []\<rparr> [])
   = Inr (bytes_of_string (discovery_text ''mgmt''))"
proof -
  have s: "from_model_and_json demo_app demo_model [] ''/mgmt/''
      = Inr \<lparr>ds_resource_path = ''mgmt'', ds_model = demo_model, ds_tree = JObject []\<rparr>"
    by (simp add: from_model_and_json_def normalize_resource_path_def trim_slashes_def demo_app_def
        management_ext.defs app_ext.defs)
  have r: "lite_from_bytes demo_app [] = Inr demo_discovery" by (simp add: demo_app_def)
  have g: "lp_code demo_discovery = LiteRequest MGet" by (simp add: demo_discovery_def)
  have w: "lite_to_bytes demo_app p = Inr (lp_payload p)" "set_link_format demo_app p = add_option opt_content_format [40] p"
    for p by (simp_all add: demo_app_def management_ext.defs app_ext.defs)
  have n: "normalize_resource_path ''/mgmt/'' = ''mgmt''"
    by (simp add: normalize_resource_path_def trim_slashes_def)
  show ?thesis
    using discovery_stable [OF s r demo_discovery_path g, of "[]"] by (simp add: w n add_option_def)
qed

text \<open>The schema listing holds the data identifiers that contain the wanted text, in order.\<close>

lemma schema_entries_exact:
  "set (schema_entries x model wanted) = {(i, sid) \<in> set (model_sids_of x model).
     take 1 i = ''/'' \<and> (case wanted of None \<Rightarrow> True | Some w \<Rightarrow> contains_text w i)}"
  "sorted (map fst (schema_entries x model wanted))"
  by (auto simp: schema_entries_def)

lemma contains_text_iff: "contains_text w s \<longleftrightarrow> (\<exists>a b. s = a @ w @ b)"
proof
  assume "contains_text w s"
  then obtain k where "take (length w) (drop k s) = w" by (auto simp: contains_text_def)
  then have "s = take k s @ w @ drop (length w) (drop k s)" by (metis append_take_drop_id)
  then show "\<exists>a b. s = a @ w @ b" by blast
next
  assume "\<exists>a b. s = a @ w @ b"
  then obtain a b where "s = a @ w @ b" by blast
  then have "take (length w) (drop (length a) s) = w" "length a \<in> set [0..<length s + 1]" by auto
  then show "contains_text w s" unfolding contains_text_def by blast
qed

text \<open>The schema listing is complete and ordered: it has one line for every data identifier of the
  model that contains the wanted text, no other line, and the identifiers are in order.\<close>

theorem schema_lines_exact:
  "\<exists>entries. schema_lines x model (Some w) = map (\<lambda>(i, sid). i @ '' (sid '' @ show_int sid @ '')'') entries
    \<and> sorted (map fst entries)
    \<and> mset entries = filter_mset (\<lambda>e. take 1 (fst e) = ''/'' \<and> (\<exists>a b. fst e = a @ w @ b)) (mset (model_sids_of x model))"
proof (intro exI conjI)
  show "schema_lines x model (Some w) = map (\<lambda>(i, sid). i @ '' (sid '' @ show_int sid @ '')'') (schema_entries x model (Some w))"
    by (simp add: schema_lines_def)
  show "sorted (map fst (schema_entries x model (Some w)))" by (rule schema_entries_exact(2))
  show "mset (schema_entries x model (Some w))
      = filter_mset (\<lambda>e. take 1 (fst e) = ''/'' \<and> (\<exists>a b. fst e = a @ w @ b)) (mset (model_sids_of x model))"
    by (simp add: schema_entries_def contains_text_iff filter_filter_mset case_prod_beta conj_commute)
qed

end
