(* ===== verification/Arguments.thy ===== *)
theory Arguments
  imports Prelude
begin

text \<open>
  The command lines of the programs: the options of the core and device processes
  (\<open>src/bin/common/mod.rs\<close>) and of the data server and the data client
  (\<open>src/bin/schc-data-server.rs\<close>, \<open>src/bin/schc-data-client.rs\<close>). The arguments are a list; every
  parser is a loop whose step sees one argument and the one after it, and says whether it has used
  the latter. An address is kept as its text in canonical form; \<open>addr\<close> stands for its parser.
\<close>

subsection \<open>The loop over the arguments\<close>

type_synonym socket_addr = string

type_synonym addr_parser = "string \<Rightarrow> string + socket_addr"

type_synonym 's arg_step = "string \<Rightarrow> string option \<Rightarrow> 's \<Rightarrow> string + 's \<times> bool"

fun first_of :: "'a list \<Rightarrow> 'a option" where
  "first_of [] = None"
| "first_of (a # _) = Some a"

function arg_loop :: "'s arg_step \<Rightarrow> string list \<Rightarrow> 's \<Rightarrow> string + 's" where
  "arg_loop step [] s = Inr s"
| "arg_loop step (a # rest) s =
     attempt (step a (first_of rest) s) (\<lambda>(s, used). arg_loop step (if used then tl rest else rest) s)"
  by pat_completeness auto
termination by (relation "measure (\<lambda>(step, as, s). length as)") auto

definition flag_set :: "'s \<Rightarrow> string + 's \<times> bool" where
  "flag_set s = Inr (s, False)"

text \<open>The option takes the next argument, which \<open>f\<close> puts into the state.\<close>

definition taking :: "string + string \<Rightarrow> (string \<Rightarrow> string + 's) \<Rightarrow> string + 's \<times> bool" where
  "taking r f = attempt r (\<lambda>v. attempt (f v) (\<lambda>s. Inr (s, True)))"

definition next_value :: "string option \<Rightarrow> string \<Rightarrow> string + string" where
  "next_value v flag = ok_or (''missing value for '' @ flag) v"

definition unknown_argument :: "string \<Rightarrow> string + 'a" where
  "unknown_argument a = Inl (''unknown argument '' @ a @ ''; use --help'')"

definition parse_addr :: "addr_parser \<Rightarrow> string \<Rightarrow> string \<Rightarrow> string + socket_addr" where
  "parse_addr addr v flag =
     map_err (\<lambda>e. ''invalid '' @ flag @ '' address '' @ v @ '': '' @ e) (addr v)"

text \<open>\<open>str::parse\<close> of a \<open>u16\<close>: a sign is allowed, and the first error from the left is reported.\<close>

fun u16_digits :: "nat \<Rightarrow> string \<Rightarrow> string + nat" where
  "u16_digits n [] = Inr n"
| "u16_digits n (c # cs) =
     (if \<not> is_digit c then Inl ''invalid digit found in string''
      else if 65536 \<le> 10 * n + (of_char c - 48) then Inl ''number too large to fit in target type''
      else u16_digits (10 * n + (of_char c - 48)) cs)"

definition parse_u16 :: "string \<Rightarrow> string + nat" where
  "parse_u16 s =
     (case s of
        [] \<Rightarrow> Inl ''cannot parse integer from empty string''
      | [c] \<Rightarrow> u16_digits 0 s
      | c # cs \<Rightarrow> u16_digits 0 (if c = CHR ''+'' then cs else s))"

subsection \<open>The core and device processes\<close>

record core_args =
  ca_link_bind :: socket_addr
  ca_link_peer :: socket_addr
  ca_debug :: bool
  ca_once :: bool
  ca_tun_name :: string
  ca_tun_mtu :: nat
  ca_sid :: "string option"
  ca_sor :: "string option"
  ca_device_id :: string

text \<open>The local variables of the parser.\<close>

record core_options =
  op_sid :: "string option"
  op_sor :: "string option"
  op_device_id :: string
  op_link_bind :: "socket_addr option"
  op_link_peer :: "socket_addr option"
  op_tun_name :: "string option"
  op_tun_mtu :: nat
  op_debug :: bool
  op_once :: bool
  op_help :: bool

definition no_core_options :: core_options where
  "no_core_options = \<lparr>op_sid = None, op_sor = None, op_device_id = ''demo-device'', op_link_bind = None,
     op_link_peer = None, op_tun_name = None, op_tun_mtu = 1280, op_debug = False, op_once = False, op_help = False\<rparr>"

definition core_option :: "addr_parser \<Rightarrow> core_options arg_step" where
  "core_option addr a v s =
     (if a = ''--sid'' then taking (next_value v a) (\<lambda>p. Inr (s\<lparr>op_sid := Some p\<rparr>))
      else if a = ''--sor'' then taking (next_value v a) (\<lambda>p. Inr (s\<lparr>op_sor := Some p\<rparr>))
      else if a = ''--tun-name'' then taking (next_value v a) (\<lambda>t. Inr (s\<lparr>op_tun_name := Some t\<rparr>))
      else if a = ''--tun-mtu'' then
        taking (next_value v a) (\<lambda>t.
          attempt (map_err (\<lambda>e. ''invalid --tun-mtu value: '' @ e) (parse_u16 t)) (\<lambda>n. Inr (s\<lparr>op_tun_mtu := n\<rparr>)))
      else if a = ''--device-id'' then taking (next_value v a) (\<lambda>t. Inr (s\<lparr>op_device_id := t\<rparr>))
      else if a = ''--link-bind'' then
        taking (next_value v a) (\<lambda>t. attempt (parse_addr addr t a) (\<lambda>b. Inr (s\<lparr>op_link_bind := Some b\<rparr>)))
      else if a = ''--link-peer'' then
        taking (next_value v a) (\<lambda>t. attempt (parse_addr addr t a) (\<lambda>b. Inr (s\<lparr>op_link_peer := Some b\<rparr>)))
      else if a = ''--debug'' then flag_set (s\<lparr>op_debug := True\<rparr>)
      else if a = ''--once'' then flag_set (s\<lparr>op_once := True\<rparr>)
      else if a = ''-h'' \<or> a = ''--help'' then flag_set (s\<lparr>op_help := True\<rparr>)
      else unknown_argument a)"

text \<open>No arguments mean that the help was asked for.\<close>

definition core_args_of :: "core_options \<Rightarrow> string + core_args option" where
  "core_args_of s =
     (if op_help s then Inr None
      else
      attempt (ok_or ''missing required --tun-name'' (op_tun_name s)) (\<lambda>tun_name.
      if tun_name = [] then Inl ''--tun-name must not be empty''
      else if op_tun_mtu s < 1280 then Inl ''--tun-mtu must be at least 1280''
      else
      attempt (ok_or ''missing required --link-bind'' (op_link_bind s)) (\<lambda>link_bind.
      attempt (ok_or ''missing required --link-peer'' (op_link_peer s)) (\<lambda>link_peer.
        Inr (Some \<lparr>ca_link_bind = link_bind, ca_link_peer = link_peer, ca_debug = op_debug s, ca_once = op_once s,
          ca_tun_name = tun_name, ca_tun_mtu = op_tun_mtu s, ca_sid = op_sid s, ca_sor = op_sor s,
          ca_device_id = op_device_id s\<rparr>)))))"

definition parse_core_args :: "addr_parser \<Rightarrow> string list \<Rightarrow> string + core_args option" where
  "parse_core_args addr as = attempt (arg_loop (core_option addr) as no_core_options) core_args_of"

definition core_usage :: "string \<Rightarrow> bool \<Rightarrow> string list" where
  "core_usage process_name is_core =
     [''Usage: '' @ process_name @ '' --link-bind ADDR --link-peer ADDR --tun-name NAME [--tun-mtu MTU] [--debug] [--once] [--sid PATH] [--sor PATH] [--device-id ID]'',
      ''Options:'',
      ''  --debug  Include structured packet and SCHC accounting in traffic reports'',
      ''  --once   Exit after the first completed operation'']
     @ (if is_core then
          [''Core commands:'', ''  context status'', ''  context check'', ''  rule list <core|device>'',
           ''  rule get <core|device> <value>/<bits>'',
           ''  rule duplicate <source>/<bits> <destination>/<bits> [entry=<index> tv=<value> mo=<identity> cda=<identity> ...]'',
           ''  rule update <value>/<bits> entry=<index> tv=<value> [--if-match]'',
           ''  rule update <value>/<bits> fid=<field> [fp=<position>] [di=<direction>] tv=<value> [--if-match]'',
           ''  help'', ''  quit'']
        else [''Device mode: waits for SCHC frames from its configured peer''])"

subsection \<open>The data server\<close>

record server_options =
  so_sid_paths :: "string list"
  so_data_path :: string
  so_bind :: socket_addr
  so_resource_path :: string
  so_help :: bool

record server_state =
  sv_sid_paths :: "string list"
  sv_data_path :: "string option"
  sv_bind :: "socket_addr option"
  sv_resource_path :: "string option"
  sv_help :: bool

definition no_server_options :: server_state where
  "no_server_options = \<lparr>sv_sid_paths = [], sv_data_path = None, sv_bind = None, sv_resource_path = None, sv_help = False\<rparr>"

text \<open>The server's options do not take a value that looks like an option.\<close>

definition server_value :: "string option \<Rightarrow> string \<Rightarrow> string + string" where
  "server_value v flag =
     (case v of
        Some t \<Rightarrow> if take 1 t = ''-'' then Inl (''missing value for '' @ flag) else Inr t
      | None \<Rightarrow> Inl (''missing value for '' @ flag))"

definition server_option :: "addr_parser \<Rightarrow> server_state arg_step" where
  "server_option addr a v s =
     (if a = ''--sid'' then taking (server_value v a) (\<lambda>p. Inr (s\<lparr>sv_sid_paths := sv_sid_paths s @ [p]\<rparr>))
      else if a = ''--data'' then
        (if sv_data_path s \<noteq> None then Inl ''duplicate --data option''
         else taking (server_value v a) (\<lambda>p. Inr (s\<lparr>sv_data_path := Some p\<rparr>)))
      else if a = ''--bind'' then
        (if sv_bind s \<noteq> None then Inl ''duplicate --bind option''
         else taking (server_value v a) (\<lambda>t. attempt (parse_addr addr t a) (\<lambda>b. Inr (s\<lparr>sv_bind := Some b\<rparr>))))
      else if a = ''--path'' then
        (if sv_resource_path s \<noteq> None then Inl ''duplicate --path option''
         else taking (server_value v a) (\<lambda>p. Inr (s\<lparr>sv_resource_path := Some p\<rparr>)))
      else if a = ''-h'' \<or> a = ''--help'' then flag_set (s\<lparr>sv_help := True\<rparr>)
      else unknown_argument a)"

definition server_options_of :: "server_state \<Rightarrow> string + server_options" where
  "server_options_of s =
     (let path = (case sv_resource_path s of None \<Rightarrow> ''c'' | Some p \<Rightarrow> p) in
      if sv_help s then
        Inr \<lparr>so_sid_paths = sv_sid_paths s, so_data_path = [], so_bind = ''127.0.0.1:0'', so_resource_path = path,
             so_help = True\<rparr>
      else
      attempt (ok_or ''missing required --data PATH'' (sv_data_path s)) (\<lambda>data.
      attempt (ok_or ''missing required --bind ADDR'' (sv_bind s)) (\<lambda>bind.
      if sv_sid_paths s = [] then Inl ''missing required --sid PATH''
      else Inr \<lparr>so_sid_paths = sv_sid_paths s, so_data_path = data, so_bind = bind, so_resource_path = path,
                so_help = False\<rparr>)))"

definition parse_server_arguments :: "addr_parser \<Rightarrow> string list \<Rightarrow> string + server_options" where
  "parse_server_arguments addr as = attempt (arg_loop (server_option addr) as no_server_options) server_options_of"

definition server_usage :: "string list" where
  "server_usage =
     [''Usage: schc-data-server --sid PATH [--sid PATH ...] --data PATH --bind ADDR [--path PATH]'', ''Options:'',
      ''  --sid PATH    Application SID file (repeatable)'', ''  --data PATH   JSON application datastore'',
      ''  --bind ADDR   UDP bind address'', ''  --path PATH   CORECONF resource path (default: c)'']"

subsection \<open>The data client\<close>

record client_options =
  cl_sid_paths :: "string list"
  cl_server :: socket_addr
  cl_bind :: "socket_addr option"
  cl_resource_path :: string
  cl_help :: bool

record client_state =
  cs_sid_paths :: "string list"
  cs_server :: "socket_addr option"
  cs_bind :: "socket_addr option"
  cs_resource_path :: string
  cs_help :: bool

definition no_client_options :: client_state where
  "no_client_options = \<lparr>cs_sid_paths = [], cs_server = None, cs_bind = None, cs_resource_path = ''c'', cs_help = False\<rparr>"

definition client_option :: "addr_parser \<Rightarrow> client_state arg_step" where
  "client_option addr a v s =
     (if a = ''--sid'' then taking (next_value v a) (\<lambda>p. Inr (s\<lparr>cs_sid_paths := cs_sid_paths s @ [p]\<rparr>))
      else if a = ''--server'' \<or> a = ''--endpoint'' then
        taking (next_value v a) (\<lambda>t. attempt (parse_addr addr t a) (\<lambda>b. Inr (s\<lparr>cs_server := Some b\<rparr>)))
      else if a = ''--bind'' then
        taking (next_value v a) (\<lambda>t. attempt (parse_addr addr t a) (\<lambda>b. Inr (s\<lparr>cs_bind := Some b\<rparr>)))
      else if a = ''--path'' then taking (next_value v a) (\<lambda>p. Inr (s\<lparr>cs_resource_path := p\<rparr>))
      else if a = ''-h'' \<or> a = ''--help'' then flag_set (s\<lparr>cs_help := True\<rparr>)
      else unknown_argument a)"

definition client_options_of :: "client_state \<Rightarrow> string + client_options" where
  "client_options_of s =
     (if cs_help s then
        Inr \<lparr>cl_sid_paths = cs_sid_paths s, cl_server = ''127.0.0.1:0'', cl_bind = cs_bind s,
             cl_resource_path = cs_resource_path s, cl_help = True\<rparr>
      else if cs_sid_paths s = [] then Inl ''missing required --sid PATH''
      else
      attempt (ok_or ''missing required --server ADDR'' (cs_server s)) (\<lambda>server.
        Inr \<lparr>cl_sid_paths = cs_sid_paths s, cl_server = server, cl_bind = cs_bind s,
             cl_resource_path = cs_resource_path s, cl_help = False\<rparr>))"

definition parse_client_arguments :: "addr_parser \<Rightarrow> string list \<Rightarrow> string + client_options" where
  "parse_client_arguments addr as = attempt (arg_loop (client_option addr) as no_client_options) client_options_of"

definition client_command_help :: "string list" where
  "client_command_help =
     [''Data client commands:'', ''  discover'', ''  schema [filter]'', ''  fetch <path>'', ''  set <path> <json-value>'',
      ''  delete <path>'', ''  help'', ''  quit'']"

definition client_usage :: "string list" where
  "client_usage =
     ''Usage: schc-data-client --sid PATH [--sid PATH ...] --server ADDR [--bind ADDR] [--path PATH]'' # client_command_help"

subsection \<open>The loop\<close>

lemma arg_loop_value:
  "step a (Some v) s = Inr (t, True) \<Longrightarrow> arg_loop step (a # v # rest) s = arg_loop step rest t"
  by simp

lemma arg_loop_flag: "step a (first_of rest) s = Inr (t, False) \<Longrightarrow> arg_loop step (a # rest) s = arg_loop step rest t"
  by simp

lemma arg_loop_invariant:
  assumes "arg_loop step as s = Inr t" and "P s" and "\<And>a v s q. step a v s = Inr q \<Longrightarrow> P s \<Longrightarrow> P (fst q)"
  shows "P t"
  using assms
proof (induction step as s rule: arg_loop.induct)
  case (2 step a rest s)
  then obtain q where q: "step a (first_of rest) s = Inr q"
    and t: "arg_loop step (if snd q then tl rest else rest) (fst q) = Inr t"
    by (auto simp: attempt_Inr_iff)
  show ?case
    using "2.IH" [OF q prod.collapse t] 2 q by blast
qed simp

lemma taking_Inr_iff: "taking r f = Inr q \<longleftrightarrow> (\<exists>v s. r = Inr v \<and> f v = Inr s \<and> q = (s, True))"
  by (auto simp: taking_def attempt_Inr_iff)

lemma flag_set_Inr_iff: "flag_set s = Inr q \<longleftrightarrow> q = (s, False)"
  by (auto simp: flag_set_def)

lemma next_value_Inr_iff: "next_value v flag = Inr t \<longleftrightarrow> v = Some t"
  by (cases v) (auto simp: next_value_def)

lemma unknown_argument_Inr [simp]: "unknown_argument a \<noteq> Inr q"
  by (simp add: unknown_argument_def)

lemma parse_addr_Inr_iff: "parse_addr addr v flag = Inr b \<longleftrightarrow> addr v = Inr b"
  by (simp add: parse_addr_def map_err_Inr_iff)

lemmas argument_simps =
  taking_Inr_iff flag_set_Inr_iff next_value_Inr_iff parse_addr_Inr_iff map_err_Inr_iff attempt_Inr_iff ok_or_Inr_iff

subsection \<open>Numbers\<close>

lemma decimal_cons_mono: "(n :: nat) \<le> foldl (\<lambda>n c. 10 * n + (of_char c - 48)) n cs"
proof (induction cs arbitrary: n)
  case (Cons c cs)
  have "n \<le> 10 * n + (of_char c - 48)" by simp
  also have "\<dots> \<le> foldl (\<lambda>n c. 10 * n + (of_char c - 48)) (10 * n + (of_char c - 48)) cs" by (rule Cons.IH)
  finally show ?case by simp
qed simp

lemma u16_digits_iff:
  "n < 65536 \<Longrightarrow> u16_digits n cs = Inr m \<longleftrightarrow>
     list_all is_digit cs \<and> foldl (\<lambda>n c. 10 * n + (of_char c - 48)) n cs < 65536
     \<and> m = foldl (\<lambda>n c. 10 * n + (of_char c - 48)) n cs"
proof (induction cs arbitrary: n)
  case (Cons c cs)
  let ?n = "10 * n + (of_char c - 48) :: nat"
  show ?case
  proof (cases "?n < 65536")
    case True
    from Cons.IH [OF this] True show ?thesis by auto
  next
    case False
    then have "\<not> foldl (\<lambda>n c. 10 * n + (of_char c - 48)) ?n cs < 65536" using decimal_cons_mono [of ?n cs] by linarith
    with False show ?thesis by simp
  qed
qed auto

text \<open>The digits of a number, without the sign that a number of two and more characters may have.\<close>

definition unsigned_digits :: "string \<Rightarrow> string" where
  "unsigned_digits s = (if take 1 s = ''+'' \<and> 2 \<le> length s then tl s else s)"

text \<open>A number option is read exactly. The parser accepts the decimal digits, with an optional plus
  sign before them, of the numbers that fit in 16 bits, and nothing else; it returns that number.\<close>

theorem parse_u16_exact:
  "parse_u16 s = Inr n \<longleftrightarrow> unsigned_digits s \<noteq> [] \<and> list_all is_digit (unsigned_digits s)
    \<and> n = decimal (unsigned_digits s) \<and> n < 65536"
proof -
  have d: "u16_digits 0 cs = Inr n \<longleftrightarrow> list_all is_digit cs \<and> n = decimal cs \<and> n < 65536" for cs
    using u16_digits_iff [of 0 cs n] by (auto simp: decimal_def)
  show ?thesis
  proof (cases s)
    case (Cons c cs)
    then show ?thesis by (cases cs) (auto simp: parse_u16_def unsigned_digits_def d simp del: u16_digits.simps)
  qed (simp add: parse_u16_def unsigned_digits_def)
qed

lemma parse_u16_bound: "parse_u16 s = Inr n \<Longrightarrow> n < 65536"
  using u16_digits_iff [of 0 _ n] by (auto simp: parse_u16_def split: list.splits if_splits simp del: u16_digits.simps)

lemma parse_u16_show_nat: "n < 65536 \<Longrightarrow> parse_u16 (show_nat n) = Inr n"
proof -
  assume n: "n < 65536"
  have "show_nat n = c # cs \<Longrightarrow> c \<noteq> CHR ''+''" for c cs
    using show_nat_digits [of n] by (auto simp: is_digit_def)
  moreover have "u16_digits 0 (show_nat n) = Inr n"
    using u16_digits_iff [of 0 "show_nat n" n] n show_nat_digits [of n] decimal_show_nat [of n]
    by (simp add: decimal_def del: decimal_show_nat)
  ultimately show ?thesis
    using show_nat_nonempty [of n] by (auto simp: parse_u16_def split: list.split simp del: u16_digits.simps)
qed

subsection \<open>The core and device processes\<close>

definition core_options_ok :: "addr_parser \<Rightarrow> core_options \<Rightarrow> bool" where
  "core_options_ok addr s \<longleftrightarrow> op_tun_mtu s < 65536
    \<and> (case op_link_bind s of None \<Rightarrow> True | Some b \<Rightarrow> \<exists>t. addr t = Inr b)
    \<and> (case op_link_peer s of None \<Rightarrow> True | Some b \<Rightarrow> \<exists>t. addr t = Inr b)"

lemma core_option_ok:
  "core_option addr a v s = Inr q \<Longrightarrow> core_options_ok addr s \<Longrightarrow> core_options_ok addr (fst q)"
  by (auto simp: core_option_def core_options_ok_def argument_simps parse_u16_bound split: if_splits)

text \<open>C39: The core and device processes only start with arguments they can work with: a TUN device
  with a name, an MTU that IPv6 allows and that fits in 16 bits, and two link addresses that the
  address parser has accepted.\<close>

theorem core_args_well_formed:
  assumes "parse_core_args addr as = Inr (Some a)"
  shows "ca_tun_name a \<noteq> [] \<and> 1280 \<le> ca_tun_mtu a \<and> ca_tun_mtu a < 65536
    \<and> (\<exists>t. addr t = Inr (ca_link_bind a)) \<and> (\<exists>t. addr t = Inr (ca_link_peer a))"
proof -
  obtain s where s: "arg_loop (core_option addr) as no_core_options = Inr s" and a: "core_args_of s = Inr (Some a)"
    using assms by (auto simp: parse_core_args_def attempt_Inr_iff)
  have "core_options_ok addr s"
    using s by (rule arg_loop_invariant) (auto simp: core_options_ok_def no_core_options_def dest: core_option_ok)
  with a show ?thesis
    by (auto simp: core_args_of_def core_options_ok_def argument_simps split: if_splits)
qed

text \<open>The command line of given arguments.\<close>

definition core_line :: "core_args \<Rightarrow> string list" where
  "core_line a =
     [''--link-bind'', ca_link_bind a, ''--link-peer'', ca_link_peer a, ''--tun-name'', ca_tun_name a,
      ''--tun-mtu'', show_nat (ca_tun_mtu a), ''--device-id'', ca_device_id a]
     @ (case ca_sid a of None \<Rightarrow> [] | Some p \<Rightarrow> [''--sid'', p])
     @ (case ca_sor a of None \<Rightarrow> [] | Some p \<Rightarrow> [''--sor'', p])
     @ (if ca_debug a then [''--debug''] else []) @ (if ca_once a then [''--once''] else [])"

text \<open>Every well-formed set of arguments can be written as a command line, and the parser reads it
  back from there. The addresses are in the form that the address parser accepts unchanged.\<close>

theorem core_args_roundtrip:
  assumes "addr (ca_link_bind a) = Inr (ca_link_bind a)" and "addr (ca_link_peer a) = Inr (ca_link_peer a)"
    and "ca_tun_name a \<noteq> []" and "1280 \<le> ca_tun_mtu a" and "ca_tun_mtu a < 65536"
  shows "parse_core_args addr (core_line a) = Inr (Some a)"
  using assms
  by (simp add: parse_core_args_def core_line_def core_args_of_def no_core_options_def core_option_def taking_def
      next_value_def parse_addr_def parse_u16_show_nat flag_set_def split: option.split)

text \<open>The arguments of a process on the loopback addresses.\<close>

definition loopback_args :: core_args where
  "loopback_args = \<lparr>ca_link_bind = ''[::1]:5683'', ca_link_peer = ''[::1]:5684'', ca_debug = True, ca_once = False,
     ca_tun_name = ''schc0'', ca_tun_mtu = 1280, ca_sid = None, ca_sor = Some ''a.sor'', ca_device_id = ''demo-device''\<rparr>"

lemma core_args_roundtrip_witness: "parse_core_args Inr (core_line loopback_args) = Inr (Some loopback_args)"
  by (rule core_args_roundtrip) (simp_all add: loopback_args_def)

lemma core_args_well_formed_witness:
  "\<exists>a. parse_core_args Inr [''--tun-name'', ''schc0'', ''--link-bind'', ''[::1]:5683'', ''--link-peer'', ''[::1]:5684'']
      = Inr (Some a) \<and> 1280 \<le> ca_tun_mtu a \<and> ca_tun_mtu a < 65536"
proof -
  obtain a where a: "parse_core_args Inr [''--tun-name'', ''schc0'', ''--link-bind'', ''[::1]:5683'', ''--link-peer'',
      ''[::1]:5684''] = Inr (Some a)"
    by (simp add: parse_core_args_def core_args_of_def no_core_options_def core_option_def taking_def
        next_value_def parse_addr_def)
  from core_args_well_formed [OF a] a show ?thesis by blast
qed

end
