(* ===== verification/DataPrograms.thy ===== *)
theory DataPrograms
  imports Application Arguments
begin

text \<open>
  The application programs: the data server (\<open>src/bin/schc-data-server.rs\<close>), which answers one
  datagram after the other over a \<open>GenericDataService\<close>, and the data client
  (\<open>src/bin/schc-data-client.rs\<close>), which runs the commands of its input over a \<open>DataClient\<close>. A
  machine counts the calls to the environment, whose answer depends on that count, and keeps what
  was printed on the two output streams, which are assumed to be open, and the responses that the
  socket has sent whole.
\<close>

subsection \<open>Environment and machine\<close>

datatype recv_error = Interrupted | RecvError string

text \<open>A receive gives the length and the peer of a datagram with the buffer that holds it.\<close>

record data_env =
  dn_recv :: "nat \<Rightarrow> (recv_error + nat \<times> string) \<times> bytes"
  dn_send :: "nat \<Rightarrow> string + nat"
  dn_flush :: "nat \<Rightarrow> string + unit"

record data_machine =
  dm_calls :: nat
  dm_out :: "string list"
  dm_err :: "string list"
  dm_sent :: "(string \<times> bytes) list"

definition data_machine_new :: data_machine where
  "data_machine_new = \<lparr>dm_calls = 0, dm_out = [], dm_err = [], dm_sent = []\<rparr>"

definition called :: "data_machine \<Rightarrow> data_machine" where
  "called m = m\<lparr>dm_calls := dm_calls m + 1\<rparr>"

definition put :: "string \<Rightarrow> data_machine \<Rightarrow> data_machine" where
  "put t m = m\<lparr>dm_out := dm_out m @ [t]\<rparr>"

definition put_line :: "string \<Rightarrow> data_machine \<Rightarrow> data_machine" where
  "put_line t m = put (t @ [CHR 0x0A]) m"

definition put_lines :: "string list \<Rightarrow> data_machine \<Rightarrow> data_machine" where
  "put_lines ts m = fold put_line ts m"

definition put_error :: "string \<Rightarrow> data_machine \<Rightarrow> data_machine" where
  "put_error t m = m\<lparr>dm_err := dm_err m @ [t @ [CHR 0x0A]]\<rparr>"

definition flush_as :: "data_env \<Rightarrow> string \<Rightarrow> data_machine \<Rightarrow> data_machine \<times> (string + unit)" where
  "flush_as env what m = (called m, map_err (\<lambda>e. ''flush '' @ what @ '': '' @ e) (dn_flush env (dm_calls m)))"

subsection \<open>The server\<close>

text \<open>An interrupted receive is tried again, for ever if need be.\<close>

partial_function (option) receive_datagram ::
  "data_env \<Rightarrow> data_machine \<Rightarrow> (data_machine \<times> (string + bytes \<times> string)) option" where
  "receive_datagram env m =
     (case dn_recv env (dm_calls m) of
        (Inr (len, peer), buffer) \<Rightarrow> Some (called m, Inr (take len buffer, peer))
      | (Inl Interrupted, buffer) \<Rightarrow> receive_datagram env (called m)
      | (Inl (RecvError e), buffer) \<Rightarrow> Some (called m, Inl (''receive application datagram: '' @ e)))"

definition send_response :: "data_env \<Rightarrow> bytes \<Rightarrow> string \<Rightarrow> data_machine \<Rightarrow> data_machine \<times> (string + unit)" where
  "send_response env response peer m =
     (let m' = called m in
      case dn_send env (dm_calls m) of
        Inr sent \<Rightarrow>
          if sent = length response then
            flush_as env ''transmit report'' (put_line (''TX APP   '' @ show_nat sent @ '' B'')
              (m'\<lparr>dm_sent := dm_sent m @ [(peer, response)]\<rparr>))
          else
            (put_error (''schc-data-server: ERROR short UDP send to '' @ peer @ '': '' @ show_nat sent @ ''/''
               @ show_nat (length response) @ '' bytes'') m', Inr ())
      | Inl e \<Rightarrow> (put_error (''schc-data-server: ERROR send response to '' @ peer @ '': '' @ e) m', Inr ()))"

definition answer_datagram ::
  "'x app_ext_scheme \<Rightarrow> data_env \<Rightarrow> bytes \<Rightarrow> string \<Rightarrow> data_service \<times> data_machine
    \<Rightarrow> (data_service \<times> data_machine) \<times> (string + unit)" where
  "answer_datagram x env datagram peer s =
     (let (service, answer) = handle_data_datagram x (fst s) datagram in
      case answer of
        Inr response \<Rightarrow> (let (m, r) = send_response env response peer (snd s) in ((service, m), r))
      | Inl e \<Rightarrow>
          ((service, put_error (''schc-data-server: ERROR handle datagram from '' @ peer @ '': ''
             @ show_application_error e) (snd s)), Inr ()))"

definition serve_once ::
  "'x app_ext_scheme \<Rightarrow> data_env \<Rightarrow> data_service \<times> data_machine
    \<Rightarrow> ((data_service \<times> data_machine) \<times> (string + unit)) option" where
  "serve_once x env s =
     (case receive_datagram env (snd s) of
        None \<Rightarrow> None
      | Some (m, Inl e) \<Rightarrow> Some ((fst s, m), Inl e)
      | Some (m, Inr (datagram, peer)) \<Rightarrow>
          Some (case flush_as env ''receive report'' (put_line (''RX APP   '' @ show_nat (length datagram) @ '' B'') m) of
             (m, Inl e) \<Rightarrow> ((fst s, m), Inl e)
           | (m, Inr _) \<Rightarrow> answer_datagram x env datagram peer (fst s, m)))"

text \<open>The first \<open>n\<close> turns of the loop; an error ends it.\<close>

fun serve_turns ::
  "'x app_ext_scheme \<Rightarrow> data_env \<Rightarrow> nat \<Rightarrow> data_service \<times> data_machine
    \<Rightarrow> ((data_service \<times> data_machine) \<times> (string + unit)) option" where
  "serve_turns x env 0 s = Some (s, Inr ())"
| "serve_turns x env (Suc n) s =
     (case serve_once x env s of
        Some (s, Inr _) \<Rightarrow> serve_turns x env n s
      | r \<Rightarrow> r)"

text \<open>
  Start-up: the options, the service, and the socket. \<open>bind_socket\<close> is the bind of the socket, and the
  answer of the bound socket to the query for its local address.
\<close>

definition server_start ::
  "'x app_ext_scheme \<Rightarrow> addr_parser \<Rightarrow> (socket_addr \<Rightarrow> string + (string + socket_addr)) \<Rightarrow> data_env \<Rightarrow> string list
    \<Rightarrow> data_machine \<times> (string + data_service option)" where
  "server_start x addr bind_socket env as =
     (let m = data_machine_new in
      case parse_server_arguments addr as of
        Inl e \<Rightarrow> (m, Inl e)
      | Inr options \<Rightarrow>
          if so_help options then (put_lines server_usage m, Inr None)
          else
            and_then (m, attempt (map_err (\<lambda>e. ''load application service: '' @ show_application_error e)
                (from_files x (so_sid_paths options) (so_data_path options) (so_resource_path options))) (\<lambda>service.
              attempt (map_err (\<lambda>e. ''bind application socket '' @ so_bind options @ '': '' @ e)
                (bind_socket (so_bind options))) (\<lambda>socket.
              attempt (map_err (\<lambda>e. ''query application socket: '' @ e) socket) (\<lambda>local. Inr (service, local)))))
            (\<lambda>m (service, local).
              and_then (flush_as env ''readiness'' (put_line (''READY server  bind='' @ local @ ''  path=''
                  @ so_resource_path options) m)) (\<lambda>m _. (m, Inr (Some service)))))"

subsection \<open>The client\<close>

text \<open>\<open>serde_json\<close> and the reading of a file.\<close>

record client_ext = app_ext +
  json_from_str :: "string \<Rightarrow> string + json"
  json_to_string_pretty :: "json \<Rightarrow> string + string"

text \<open>\<open>splitn(2, char::is_whitespace)\<close>: what is before the first blank, and what is after it.\<close>

definition split_blank :: "string \<Rightarrow> string \<times> string option" where
  "split_blank s =
     (takeWhile (\<lambda>c. \<not> is_space c) s,
      case dropWhile (\<lambda>c. \<not> is_space c) s of [] \<Rightarrow> None | _ # rest \<Rightarrow> Some rest)"

definition required_argument :: "string \<Rightarrow> string \<Rightarrow> string + string" where
  "required_argument v usage = (if v = [] then Inl (''usage: '' @ usage) else Inr v)"

definition result_line :: "application_error + string \<Rightarrow> string" where
  "result_line r = (case r of Inr t \<Rightarrow> t | Inl e \<Rightarrow> ''ERROR '' @ show_application_error e)"

definition mutation_line :: "string \<Rightarrow> application_error + unit \<Rightarrow> string" where
  "mutation_line action r = (case r of Inr _ \<Rightarrow> ''OK '' @ action | Inl e \<Rightarrow> ''ERROR '' @ show_application_error e)"

definition delete_line :: "application_error + unit \<Rightarrow> string" where
  "delete_line r =
     (case r of
        Inr _ \<Rightarrow> ''OK delete''
      | Inl (AppRemote code message) \<Rightarrow>
          if code = ''4.04'' then ''OK delete  not-found''
          else ''ERROR '' @ show_application_error (AppRemote code message)
      | Inl e \<Rightarrow> ''ERROR '' @ show_application_error e)"

definition json_line :: "'x client_ext_scheme \<Rightarrow> json \<Rightarrow> string" where
  "json_line x v = (case json_to_string_pretty x v of Inr t \<Rightarrow> t | Inl e \<Rightarrow> ''ERROR render JSON value: '' @ e)"

definition json_result_line :: "'x client_ext_scheme \<Rightarrow> application_error + json option \<Rightarrow> string" where
  "json_result_line x r =
     (case r of
        Inr (Some v) \<Rightarrow> json_line x v
      | Inr None \<Rightarrow> ''not found''
      | Inl e \<Rightarrow> ''ERROR '' @ show_application_error e)"

text \<open>The path and the value of a set command.\<close>

definition set_arguments :: "'x client_ext_scheme \<Rightarrow> string \<Rightarrow> string + string \<times> json" where
  "set_arguments x rest =
     (let (w, after) = split_blank rest in
      attempt (required_argument w ''set <path> <json-value>'') (\<lambda>path.
      attempt (required_argument (case after of None \<Rightarrow> [] | Some t \<Rightarrow> trim t) ''set <path> <json-value>'') (\<lambda>json_text.
      attempt (map_err (\<lambda>e. ''invalid JSON value: '' @ e) (json_from_str x json_text)) (\<lambda>v.
        Inr (path, v)))))"

text \<open>One line of input: the client afterwards, the lines printed, and whether to quit.\<close>

definition client_prints :: "data_client \<times> string \<Rightarrow> data_client \<times> string list \<times> (string + bool)" where
  "client_prints r = (fst r, [snd r], Inr False)"

definition execute_command ::
  "'x client_ext_scheme \<Rightarrow> data_client \<Rightarrow> string \<Rightarrow> data_client \<times> string list \<times> (string + bool)" where
  "execute_command x c input =
     (let (command, after) = split_blank input;
          rest = (case after of None \<Rightarrow> [] | Some t \<Rightarrow> trim t) in
      if command = ''discover'' then
        (if rest = [] then client_prints (map_prod id result_line (discover x c))
         else (c, [''ERROR usage: discover''], Inr False))
      else if command = ''schema'' then
        (c, client_schema x c (if rest = [] then None else Some rest), Inr False)
      else if command = ''fetch'' then
        (case required_argument rest ''fetch <path>'' of
           Inl e \<Rightarrow> (c, [], Inl e)
         | Inr path \<Rightarrow> client_prints (map_prod id (json_result_line x) (fetch x c path)))
      else if command = ''set'' then
        (case set_arguments x rest of
           Inl e \<Rightarrow> (c, [], Inl e)
         | Inr (path, v) \<Rightarrow> client_prints (map_prod id (mutation_line ''set'') (set_value x c path v)))
      else if command = ''delete'' then
        (case required_argument rest ''delete <path>'' of
           Inl e \<Rightarrow> (c, [], Inl e)
         | Inr path \<Rightarrow> client_prints (map_prod id delete_line (delete x c path)))
      else if command = ''help'' then (c, client_command_help, Inr False)
      else if command = ''quit'' then (c, [], Inr True)
      else (c, [''ERROR unknown command '' @ quoted command @ ''; use help''], Inr False))"

definition data_prompt :: "data_env \<Rightarrow> data_machine \<Rightarrow> data_machine \<times> (string + unit)" where
  "data_prompt env m = flush_as env ''data prompt'' (put ''data> '' m)"

text \<open>One line of the session; the value tells whether it goes on.\<close>

definition client_turn ::
  "'x client_ext_scheme \<Rightarrow> data_env \<Rightarrow> bool \<Rightarrow> string + string \<Rightarrow> data_client \<times> data_machine
    \<Rightarrow> (data_client \<times> data_machine) \<times> (string + bool)" where
  "client_turn x env interactive input s =
     (case input of
        Inl e \<Rightarrow> (s, Inl (''read command: '' @ e))
      | Inr text_line \<Rightarrow>
          if trim text_line = [] then
            (if interactive then
               (let (m, r) = data_prompt env (snd s) in ((fst s, m), attempt r (\<lambda>_. Inr True)))
             else (s, Inr True))
          else
            (let (c, out, r) = execute_command x (fst s) text_line;
                 m = put_lines (out @ (case r of Inl e \<Rightarrow> [''ERROR '' @ e] | Inr _ \<Rightarrow> [])) (snd s) in
             if r = Inr True then ((c, m), Inr False)
             else
               (let (m, f) = (if interactive then data_prompt env m else flush_as env ''command output'' m) in
                ((c, m), attempt f (\<lambda>_. Inr True)))))"

fun client_session ::
  "'x client_ext_scheme \<Rightarrow> data_env \<Rightarrow> bool \<Rightarrow> (string + string) list \<Rightarrow> data_client \<times> data_machine
    \<Rightarrow> (data_client \<times> data_machine) \<times> (string + unit)" where
  "client_session x env interactive [] s = (s, Inr ())"
| "client_session x env interactive (i # is) s =
     (case client_turn x env interactive i s of
        (s, Inr True) \<Rightarrow> client_session x env interactive is s
      | (s, Inr False) \<Rightarrow> (s, Inr ())
      | (s, Inl e) \<Rightarrow> (s, Inl e))"

text \<open>The \<open>Debug\<close> form of an ASCII string.\<close>

fun hex_number :: "nat \<Rightarrow> string" where
  "hex_number n = (if n < 16 then [hex_digit n] else hex_number (n div 16) @ [hex_digit (n mod 16)])"

definition debug_char :: "char \<Rightarrow> string" where
  "debug_char c =
     (let n = of_char c :: nat; backslash = CHR 0x5C in
      if n = 0 then [backslash, CHR ''0'']
      else if n = 9 then [backslash, CHR ''t'']
      else if n = 10 then [backslash, CHR ''n'']
      else if n = 13 then [backslash, CHR ''r'']
      else if n = 34 \<or> n = 92 then [backslash, c]
      else if 32 \<le> n \<and> n < 127 then [c]
      else [backslash, CHR ''u'', CHR 0x7B] @ hex_number n @ [CHR 0x7D])"

definition debug_string :: "string \<Rightarrow> string" where
  "debug_string s = [CHR 0x22] @ concat (map debug_char s) @ [CHR 0x22]"

text \<open>
  Start-up: \<open>connect_client\<close> is the connection of the CORECONF client, from the optional local
  address, the server and the normalised resource path, with the endpoint it reports.
\<close>

definition client_connect ::
  "(coreconf_model \<Rightarrow> socket_addr option \<Rightarrow> socket_addr \<Rightarrow> string \<Rightarrow> string + coap_client \<times> string) \<Rightarrow> addr_parser
    \<Rightarrow> coreconf_model \<Rightarrow> socket_addr option \<Rightarrow> socket_addr \<Rightarrow> string \<Rightarrow> application_error + data_client \<times> socket_addr" where
  "client_connect connect_client addr model bind server resource_path =
     attempt (map_err AppModel (connect_client model bind server (normalize_resource_path resource_path))) (\<lambda>(h, endpoint).
     attempt (map_err (\<lambda>e. AppCoap (''connected endpoint '' @ debug_string endpoint
         @ '' is not a socket address: '' @ e)) (addr endpoint)) (\<lambda>peer.
       Inr (\<lparr>dc_client = h, dc_model = model\<rparr>, peer)))"

definition client_start ::
  "'x client_ext_scheme \<Rightarrow> addr_parser
    \<Rightarrow> (coreconf_model \<Rightarrow> socket_addr option \<Rightarrow> socket_addr \<Rightarrow> string \<Rightarrow> string + coap_client \<times> string)
    \<Rightarrow> data_env \<Rightarrow> bool \<Rightarrow> string list \<Rightarrow> data_machine \<times> (string + data_client option)" where
  "client_start x addr connect_client env interactive as =
     (let m = data_machine_new in
      case parse_client_arguments addr as of
        Inl e \<Rightarrow> (m, Inl e)
      | Inr options \<Rightarrow>
          if cl_help options then (put_lines client_usage m, Inr None)
          else
            and_then (m,
              attempt (try_all (\<lambda>p. map_err (\<lambda>e. ''read SID '' @ p @ '': '' @ e) (read_to_string x p)) (cl_sid_paths options))
                (\<lambda>contents.
              attempt (map_err (\<lambda>e. ''load application SID model: '' @ e) (model_from_sids x contents)) (\<lambda>model.
                map_err (\<lambda>e. ''connect application endpoint: '' @ show_application_error e)
                  (client_connect connect_client addr model (cl_bind options) (cl_server options)
                    (cl_resource_path options)))))
            (\<lambda>m (c, peer).
              let m = put_line (''READY client  server='' @ peer
                @ (case cl_bind options of None \<Rightarrow> [] | Some b \<Rightarrow> ''  bind='' @ b)) m in
              and_then
                (if interactive then data_prompt env (put_lines client_command_help m) else flush_as env ''readiness'' m)
                (\<lambda>m _. (m, Inr (Some c)))))"

subsection \<open>The server's turns\<close>

lemma called_simps [simp]:
  "dm_calls (called m) = dm_calls m + 1" "dm_out (called m) = dm_out m" "dm_err (called m) = dm_err m"
  "dm_sent (called m) = dm_sent m"
  by (simp_all add: called_def)

lemma put_simps [simp]:
  "dm_sent (put t m) = dm_sent m" "dm_sent (put_line t m) = dm_sent m" "dm_sent (put_error t m) = dm_sent m"
  "dm_calls (put t m) = dm_calls m" "dm_calls (put_line t m) = dm_calls m" "dm_calls (put_error t m) = dm_calls m"
  by (simp_all add: put_def put_line_def put_error_def)

lemma flush_as_fst [simp]: "fst (flush_as env what m) = called m"
  by (simp add: flush_as_def)

text \<open>A receive passes over interrupted calls and ends with the first other one.\<close>

definition received :: "data_env \<Rightarrow> data_machine \<Rightarrow> nat \<Rightarrow> data_machine \<times> (string + bytes \<times> string) \<Rightarrow> bool" where
  "received env m n y \<longleftrightarrow>
     (\<forall>i < n. fst (dn_recv env (dm_calls m + i)) = Inl Interrupted) \<and>
     dm_calls (fst y) = dm_calls m + n + 1 \<and> dm_sent (fst y) = dm_sent m \<and>
     (case dn_recv env (dm_calls m + n) of
        (Inr (len, peer), buffer) \<Rightarrow> snd y = Inr (take len buffer, peer)
      | (Inl e, _) \<Rightarrow> e \<noteq> Interrupted \<and> (\<exists>t. snd y = Inl t))"

lemma received_again:
  assumes "dn_recv env (dm_calls m) = (Inl Interrupted, buffer)" and "received env (called m) n y"
  shows "received env m (Suc n) y"
  using assms by (auto simp: received_def less_Suc_eq_0_disj)

lemma receive_datagram_result:
  assumes "receive_datagram env m = Some (m', r)"
  shows "\<exists>n. received env m n (m', r)"
proof (rule receive_datagram.raw_induct [where P = "\<lambda>env m y. \<exists>n. received env m n y", OF _ assms])
  fix recv :: "data_env \<Rightarrow> data_machine \<Rightarrow> (data_machine \<times> (string + bytes \<times> string)) option"
  fix env m y
  assume IH: "\<And>env m y. recv env m = Some y \<Longrightarrow> \<exists>n. received env m n y"
    and y: "(case dn_recv env (dm_calls m) of
        (Inr (len, peer), buffer) \<Rightarrow> Some (called m, Inr (take len buffer, peer))
      | (Inl Interrupted, buffer) \<Rightarrow> recv env (called m)
      | (Inl (RecvError e), buffer) \<Rightarrow> Some (called m, Inl (''receive application datagram: '' @ e))) = Some y"
  obtain q buffer where q: "dn_recv env (dm_calls m) = (q, buffer)" by (cases "dn_recv env (dm_calls m)")
  show "\<exists>n. received env m n y"
  proof (cases "q = Inl Interrupted")
    case True
    with y q have "recv env (called m) = Some y" by simp
    with IH obtain n where "received env (called m) n y" by blast
    with True q show ?thesis using received_again by blast
  next
    case False
    have "received env m 0 y"
    proof (cases q)
      case (Inl e)
      with y q False show ?thesis by (cases e) (auto simp: received_def)
    next
      case (Inr p)
      with y q show ?thesis by (cases p) (auto simp: received_def)
    qed
    then show ?thesis by blast
  qed
qed

lemma receive_datagram_returns:
  assumes "fst (dn_recv env k) \<noteq> Inl Interrupted" and "dm_calls m \<le> k"
  shows "\<exists>m' r. receive_datagram env m = Some (m', r)"
  using assms(2)
proof (induction "k - dm_calls m" arbitrary: m rule: less_induct)
  case less
  obtain q buffer where recv: "dn_recv env (dm_calls m) = (q, buffer)" by (cases "dn_recv env (dm_calls m)")
  show ?case
  proof (cases "q = Inl Interrupted")
    case True
    have "dm_calls m \<noteq> k" using True recv assms(1) by auto
    then have "\<exists>m' r. receive_datagram env (called m) = Some (m', r)" using less.prems by (intro less.hyps) simp_all
    with True recv show ?thesis by (subst receive_datagram.simps) simp
  next
    case False
    with recv show ?thesis
      by (subst receive_datagram.simps) (auto split: sum.split recv_error.split)
  qed
qed

text \<open>What the answer to one datagram does.\<close>

definition responds :: "data_env \<Rightarrow> nat \<Rightarrow> string \<Rightarrow> application_error + bytes \<Rightarrow> data_machine \<Rightarrow> data_machine \<Rightarrow> string + unit \<Rightarrow> bool" where
  "responds env k peer answer m m' r \<longleftrightarrow>
     (case answer of
        Inl _ \<Rightarrow> dm_sent m' = dm_sent m \<and> r = Inr ()
      | Inr response \<Rightarrow>
          if dn_send env k = Inr (length response) then
            dm_sent m' = dm_sent m @ [(peer, response)] \<and> (r = Inr () \<longleftrightarrow> dn_flush env (k + 1) = Inr ())
          else dm_sent m' = dm_sent m \<and> r = Inr ())"

lemma answer_datagram_result:
  assumes "answer_datagram x env datagram peer s = (t, r)"
  shows "fst t = fst (handle_data_datagram x (fst s) datagram)"
    and "responds env (dm_calls (snd s)) peer (snd (handle_data_datagram x (fst s) datagram)) (snd s) (snd t) r"
    and "dm_calls (snd s) \<le> dm_calls (snd t)"
proof -
  obtain service answer where h: "handle_data_datagram x (fst s) datagram = (service, answer)"
    by (cases "handle_data_datagram x (fst s) datagram")
  show "fst t = fst (handle_data_datagram x (fst s) datagram)"
    and "responds env (dm_calls (snd s)) peer (snd (handle_data_datagram x (fst s) datagram)) (snd s) (snd t) r"
    and "dm_calls (snd s) \<le> dm_calls (snd t)"
    using assms h
    by (auto simp: answer_datagram_def responds_def send_response_def flush_as_def map_err_Inr_iff Let_def
        split: sum.splits prod.splits if_splits)
qed

subsection \<open>Properties\<close>

text \<open>C40: The data server answers every datagram once, and only its sender. A turn that returns has
  passed over the interrupted receives and ended with the first other one, which the next turn does not
  see again. When that receive failed, or the report of it could not be flushed, the turn fails, and the
  datastore and what was sent are as before. Otherwise the datastore is the one that the service has
  after exactly the received datagram. A response goes to the peer of this datagram, once, and counts as
  sent when the socket has taken all of it; nothing is sent when the service has refused the datagram.
  Then the turn succeeds, unless the report of the sent response could not be flushed, and a refused,
  failed or short send does not stop the server.\<close>

theorem server_answers_once:
  assumes "serve_once x env s = Some (t, r)"
  shows "\<exists>n. let k = dm_calls (snd s) + n in
    (\<forall>i < n. fst (dn_recv env (dm_calls (snd s) + i)) = Inl Interrupted) \<and> k < dm_calls (snd t) \<and>
    (case dn_recv env k of
       (Inl e, _) \<Rightarrow> e \<noteq> Interrupted \<and> fst t = fst s \<and> dm_sent (snd t) = dm_sent (snd s) \<and> r \<noteq> Inr ()
     | (Inr (len, peer), buffer) \<Rightarrow>
         if dn_flush env (k + 1) \<noteq> Inr () then fst t = fst s \<and> dm_sent (snd t) = dm_sent (snd s) \<and> r \<noteq> Inr ()
         else
           fst t = fst (handle_data_datagram x (fst s) (take len buffer)) \<and>
           (case snd (handle_data_datagram x (fst s) (take len buffer)) of
              Inl _ \<Rightarrow> dm_sent (snd t) = dm_sent (snd s) \<and> r = Inr ()
            | Inr response \<Rightarrow>
                if dn_send env (k + 2) = Inr (length response) then
                  dm_sent (snd t) = dm_sent (snd s) @ [(peer, response)] \<and> (r = Inr () \<longleftrightarrow> dn_flush env (k + 3) = Inr ())
                else dm_sent (snd t) = dm_sent (snd s) \<and> r = Inr ()))"
proof -
  obtain m q where recv: "receive_datagram env (snd s) = Some (m, q)"
    using assms by (cases "receive_datagram env (snd s)") (auto simp: serve_once_def)
  then obtain n where n: "received env (snd s) n (m, q)" using receive_datagram_result by blast
  let ?k = "dm_calls (snd s) + n"
  have m: "dm_calls m = ?k + 1" "dm_sent m = dm_sent (snd s)" using n by (simp_all add: received_def)
  obtain got buffer where got: "dn_recv env ?k = (got, buffer)" by (cases "dn_recv env ?k")
  show ?thesis
  proof (cases got)
    case (Inl e)
    then obtain msg where "q = Inl msg" "e \<noteq> Interrupted" using n got by (auto simp: received_def)
    then show ?thesis using assms recv n got Inl m by (intro exI [of _ n]) (auto simp: serve_once_def received_def)
  next
    case (Inr p)
    obtain len peer where p: "p = (len, peer)" by (cases p)
    let ?f = "flush_as env ''receive report'' (put_line (''RX APP   '' @ show_nat (length (take len buffer)) @ '' B'') m)"
    have q: "q = Inr (take len buffer, peer)" using n got Inr p by (simp add: received_def)
    have f: "snd ?f = Inr () \<longleftrightarrow> dn_flush env (?k + 1) = Inr ()" "dm_calls (fst ?f) = ?k + 2" "dm_sent (fst ?f) = dm_sent (snd s)"
      using m by (simp_all add: flush_as_def map_err_Inr_iff)
    show ?thesis
    proof (cases "dn_flush env (?k + 1) = Inr ()")
      case False
      then obtain e where e: "snd ?f = Inl e" using f(1) by (cases "snd ?f") auto
      then have "t = (fst s, fst ?f)" "r = Inl e" using assms recv q by (cases ?f; simp add: serve_once_def)+
      then show ?thesis using n got Inr p False f by (intro exI [of _ n]) (simp add: received_def Let_def)
    next
      case True
      then have "answer_datagram x env (take len buffer) peer (fst s, fst ?f) = (t, r)"
        using assms recv q f(1) by (cases ?f) (simp add: serve_once_def)
      note answered = answer_datagram_result [OF this, unfolded fst_conv snd_conv f(2)]
      let ?answer = "snd (handle_data_datagram x (fst s) (take len buffer))"
      have "responds env (?k + 2) peer ?answer (snd s) (snd t) r"
        using answered(2) unfolding responds_def f(3) .
      moreover have "?k + 2 + 1 = ?k + 3" by simp
      ultimately have "case ?answer of Inl _ \<Rightarrow> dm_sent (snd t) = dm_sent (snd s) \<and> r = Inr ()
          | Inr response \<Rightarrow> if dn_send env (?k + 2) = Inr (length response) then
              dm_sent (snd t) = dm_sent (snd s) @ [(peer, response)] \<and> (r = Inr () \<longleftrightarrow> dn_flush env (?k + 3) = Inr ())
            else dm_sent (snd t) = dm_sent (snd s) \<and> r = Inr ()"
        unfolding responds_def by metis
      then show ?thesis using n got Inr p True answered(1,3) by (intro exI [of _ n]) (simp add: received_def Let_def)
    qed
  qed
qed

text \<open>The data client never says that a deleted resource was not found: that line is printed for an
  error value that no operation of the client returns.\<close>

theorem delete_never_not_found: "delete_line (snd (delete x c path)) \<noteq> ''OK delete  not-found''"
  by (auto simp: delete_def client_result_def delete_line_def map_err_Inl_iff split: sum.split)

text \<open>A set command reaches the client as it was meant. The line of a path without blanks and of a
  JSON text calls the client with that path and the parsed value, and prints its result.\<close>

theorem set_command_exact:
  assumes "word_ok path" and "trim t = t" and "t \<noteq> []" and "json_from_str x t = Inr v"
  shows "execute_command x c (''set '' @ path @ '' '' @ t)
    = (fst (set_value x c path v), [mutation_line ''set'' (snd (set_value x c path v))], Inr False)"
proof -
  have path: "takeWhile (\<lambda>c. \<not> is_space c) (path @ '' '' @ t) = path"
    "dropWhile (\<lambda>c. \<not> is_space c) (path @ '' '' @ t) = '' '' @ t"
    using assms(1) by (auto simp: word_ok_def takeWhile_append dropWhile_append)
  have c: "\<not> is_space CHR ''s''" "\<not> is_space CHR ''e''" "\<not> is_space CHR ''t''" by (simp_all add: is_space_def)
  have "trim (path @ '' '' @ t) = path @ '' '' @ t"
    using trim_ends [of t] assms by (intro trim_fixed) (cases path; auto simp: word_ok_def)
  then have "set_arguments x (trim (path @ '' '' @ t)) = Inr (path, v)"
    using path assms by (auto simp: set_arguments_def split_blank_def required_argument_def word_ok_def)
  then show ?thesis
    by (simp add: execute_command_def split_blank_def c client_prints_def map_prod_def case_prod_beta)
qed

text \<open>A blank before a command hides it. Although a line of blanks is skipped, a line that starts with
  one is not trimmed: its command is the empty word, and the answer is that this is unknown.\<close>

theorem leading_blank_hides_command:
  assumes "is_space b"
  shows "execute_command x c (b # command) = (c, [''ERROR unknown command '' @ quoted [] @ ''; use help''], Inr False)"
  using assms by (simp add: execute_command_def split_blank_def)

text \<open>A turn of the data server ends. When the receive is not interrupted for ever, the server gets a
  datagram or an error, and the turn returns.\<close>

theorem server_turn_returns:
  assumes "fst (dn_recv env k) \<noteq> Inl Interrupted" and "dm_calls (snd s) \<le> k"
  shows "\<exists>t r. serve_once x env s = Some (t, r)"
proof -
  obtain m q where "receive_datagram env (snd s) = Some (m, q)"
    using receive_datagram_returns [OF assms] by blast
  then have "serve_once x env s \<noteq> None" by (cases q) (auto simp: serve_once_def simp del: not_None_eq)
  then show ?thesis by (cases "the (serve_once x env s)") auto
qed

subsection \<open>Concrete programs\<close>

text \<open>An environment whose first two receives are interrupted.\<close>

definition demo_data_env :: data_env where
  "demo_data_env = \<lparr>dn_recv = (\<lambda>k. if k < 2 then (Inl Interrupted, []) else (Inr (2, ''[::1]:9''), [1, 2, 3])),
     dn_send = (\<lambda>_. Inr (length (bytes_of_string (discovery_text ''mgmt'')))), dn_flush = (\<lambda>_. Inr ())\<rparr>"

definition demo_service :: data_service where
  "demo_service = \<lparr>ds_resource_path = ''mgmt'', ds_model = demo_model, ds_tree = JObject []\<rparr>"

definition demo_client_ext :: client_ext where
  "demo_client_ext = app_ext.extend demo_app (client_ext.fields (\<lambda>_. Inr (JBool True)) (\<lambda>_. Inr ''true''))"

lemma server_turn_returns_witness:
  "\<exists>t r. serve_once demo_app demo_data_env (demo_service, data_machine_new) = Some (t, r)"
  by (rule server_turn_returns [where k = 2]) (simp_all add: demo_data_env_def data_machine_new_def)

lemma server_answers_once_witness:
  "\<exists>t peer response. serve_once demo_app demo_data_env (demo_service, data_machine_new) = Some (t, Inr ())
     \<and> dm_sent (snd t) = [(peer, response)]"
proof -
  have recv: "receive_datagram demo_data_env data_machine_new = Some (called (called (called data_machine_new)), Inr ([1, 2], ''[::1]:9''))"
    by (subst receive_datagram.simps, subst receive_datagram.simps, subst receive_datagram.simps)
      (simp add: demo_data_env_def data_machine_new_def)
  have h: "handle_data_datagram demo_app demo_service [1, 2] = (demo_service, Inr (bytes_of_string (discovery_text ''mgmt'')))"
    by (simp add: handle_data_datagram_def demo_app_def demo_discovery_path discovery_response_def demo_service_def
        add_option_def Let_def) (simp add: demo_discovery_def app_ext.defs management_ext.defs add_option_def)
  have env: "dn_flush demo_data_env k = Inr ()" "dn_send demo_data_env k = Inr (length (bytes_of_string (discovery_text ''mgmt'')))" for k
    by (simp_all add: demo_data_env_def)
  have "\<exists>t. serve_once demo_app demo_data_env (demo_service, data_machine_new) = Some (t, Inr ())"
    by (simp add: serve_once_def recv flush_as_def answer_datagram_def h send_response_def Let_def case_prod_beta
        env split: sum.split)
  then obtain t where t: "serve_once demo_app demo_data_env (demo_service, data_machine_new) = Some (t, Inr ())" by blast
  have calls: "dm_calls (snd (demo_service, data_machine_new)) = 0" "dm_sent (snd (demo_service, data_machine_new)) = []"
    by (simp_all add: data_machine_new_def)
  from server_answers_once [OF t] obtain n where n: "\<forall>i < n. fst (dn_recv demo_data_env i) = Inl Interrupted"
    and turn: "case dn_recv demo_data_env n of
       (Inl e, _) \<Rightarrow> e \<noteq> Interrupted
     | (Inr (len, peer), buffer) \<Rightarrow>
         (case snd (handle_data_datagram demo_app demo_service (take len buffer)) of
            Inl _ \<Rightarrow> True
          | Inr response \<Rightarrow>
              if length response = length (bytes_of_string (discovery_text ''mgmt'')) then dm_sent (snd t) = [(peer, response)]
              else True)"
    unfolding calls Let_def by (auto simp: env split: sum.splits prod.splits if_splits)
  have "\<not> n < 2" using turn by (auto simp: demo_data_env_def)
  moreover have "\<not> 2 < n" using n by (auto simp: demo_data_env_def dest!: spec [of _ 2])
  ultimately have "n = 2" by simp
  with turn h t show ?thesis by (auto simp: demo_data_env_def)
qed

lemma set_command_exact_witness:
  "fst (snd (execute_command demo_client_ext \<lparr>dc_client = 0, dc_model = demo_model\<rparr> (''set '' @ ''/a'' @ '' '' @ ''true'')))
   = [mutation_line ''set'' (snd (set_value demo_client_ext \<lparr>dc_client = 0, dc_model = demo_model\<rparr> ''/a'' (JBool True)))]"
proof -
  have "word_ok ''/a''" "trim ''true'' = ''true''" "json_from_str demo_client_ext ''true'' = Inr (JBool True)"
    by (simp_all add: word_ok_def trim_def is_space_def demo_client_ext_def client_ext.defs app_ext.defs)
  from set_command_exact [OF this(1,2) _ this(3), of "\<lparr>dc_client = 0, dc_model = demo_model\<rparr>"] show ?thesis by simp
qed

lemma leading_blank_hides_command_witness:
  "execute_command demo_client_ext \<lparr>dc_client = 0, dc_model = demo_model\<rparr> (CHR '' '' # ''quit'')
   = (\<lparr>dc_client = 0, dc_model = demo_model\<rparr>, [''ERROR unknown command '' @ quoted [] @ ''; use help''], Inr False)"
  by (rule leading_blank_hides_command) (simp add: is_space_def)

end
