(* ===== verification/Process.thy ===== *)
theory Process
  imports Report
begin

text \<open>
  What the core and device programs share (\<open>src/bin\<close>, \<open>src/bin/common/mod.rs\<close>): the machine
  they run on, traffic reports, the three kinds of packet failure, and the path of an application
  packet from the TUN device to the link. A machine counts the calls it makes to its environment;
  the environment answers the n-th call, and the machine records the frames that the socket has sent, the
  packets that the TUN device has written, and what was printed. Standard output is assumed to be open:
  a failed \<open>println!\<close> is a panic that the model does not have; a failed flush is a result.
\<close>

subsection \<open>Environment and machine\<close>

text \<open>
  \<open>io_not_ready\<close> tells the two error kinds of a receive timeout; \<open>clock\<close> is in milliseconds. A
  received datagram is its length and source with the buffer holding it, as for \<open>recv\<close>.
\<close>

record process_env =
  tun_read :: "nat \<Rightarrow> device_error + bytes"
  tun_write :: "nat \<Rightarrow> device_error + nat"
  link_recv :: "nat \<Rightarrow> (string + nat \<times> string) \<times> bytes"
  link_send :: "nat \<Rightarrow> string + nat"
  link_peer :: string
  io_not_ready :: "string \<Rightarrow> bool"
  device_error_text :: "device_error \<Rightarrow> string"
  flush_stdout :: "nat \<Rightarrow> string + unit"
  clock :: "nat \<Rightarrow> nat"

record machine =
  ma_calls :: nat
  ma_sent :: "schc_frame list"
  ma_written :: "bytes list"
  ma_printed :: "string list"

definition machine_new :: machine where
  "machine_new = \<lparr>ma_calls = 0, ma_sent = [], ma_written = [], ma_printed = []\<rparr>"

definition tick :: "machine \<Rightarrow> machine" where
  "tick m = m\<lparr>ma_calls := ma_calls m + 1\<rparr>"

definition print :: "string \<Rightarrow> machine \<Rightarrow> machine" where
  "print s m = m\<lparr>ma_printed := ma_printed m @ [s]\<rparr>"

definition println :: "string \<Rightarrow> machine \<Rightarrow> machine" where
  "println s m = print (s @ [CHR 0x0A]) m"

text \<open>An output counts when the call has taken all of it; an empty frame is not given to the socket.\<close>

definition taken :: "'e + unit \<Rightarrow> 'a \<Rightarrow> 'a list" where
  "taken answer v = (case answer of Inl _ \<Rightarrow> [] | Inr _ \<Rightarrow> [v])"

definition do_send :: "process_env \<Rightarrow> schc_frame \<Rightarrow> machine \<Rightarrow> machine \<times> (link_error + unit)" where
  "do_send env frame m =
     (let answer = send_frame (link_send env (ma_calls m)) frame in
      ((tick m)\<lparr>ma_sent := ma_sent m @ taken answer frame\<rparr>, answer))"

definition do_write :: "process_env \<Rightarrow> bytes \<Rightarrow> machine \<Rightarrow> machine \<times> (packet_loop_error + unit)" where
  "do_write env packet m =
     (let answer = write_packet (tun_write env (ma_calls m)) packet in
      ((tick m)\<lparr>ma_written := ma_written m @ taken answer packet\<rparr>, answer))"

definition do_poll :: "process_env \<Rightarrow> machine \<Rightarrow> machine \<times> (packet_loop_error + packet_poll)" where
  "do_poll env m = (tick m, poll (tun_read env (ma_calls m)))"

definition do_recv :: "process_env \<Rightarrow> machine \<Rightarrow> machine \<times> (link_error + bytes)" where
  "do_recv env m =
     (let (answer, buffer) = link_recv env (ma_calls m) in (tick m, recv_bytes answer buffer (link_peer env)))"

definition do_flush :: "process_env \<Rightarrow> machine \<Rightarrow> machine \<times> (string + unit)" where
  "do_flush env m = (tick m, flush_stdout env (ma_calls m))"

definition now :: "process_env \<Rightarrow> machine \<Rightarrow> machine \<times> nat" where
  "now env m = (tick m, clock env (ma_calls m))"

text \<open>A receive that found nothing is not an error.\<close>

definition recv_idle :: "process_env \<Rightarrow> link_error \<Rightarrow> bool" where
  "recv_idle env e = (case e of LinkIo t \<Rightarrow> io_not_ready env t | _ \<Rightarrow> False)"

fun show_packet_loop_error :: "process_env \<Rightarrow> packet_loop_error \<Rightarrow> string" where
  "show_packet_loop_error env (LoopDevice e) = ''TUN packet-device operation failed: '' @ device_error_text env e"
| "show_packet_loop_error env (ShortWrite expected actual) =
     ''short TUN packet write: expected '' @ show_nat expected @ '' bytes, wrote '' @ show_nat actual"

subsection \<open>Reports\<close>

definition print_report ::
  "'x report_ext_scheme \<Rightarrow> report_direction \<Rightarrow> link_report \<Rightarrow> bool \<Rightarrow> machine \<Rightarrow> machine \<times> (string + unit)" where
  "print_report x d r debug m =
     (case format_report x d r debug of
        Inl e \<Rightarrow> (m, Inl (show_report_error e))
      | Inr t \<Rightarrow> (print t m, Inr ()))"

subsection \<open>Failures of one packet\<close>

text \<open>The last one stands for the panic of the generation counter, which ends the process.\<close>

datatype process_error = Drop string | ExpectedNonUdp string | Fatal string | Aborted

definition classify_tun_packet_error :: "'x report_ext_scheme \<Rightarrow> packet_error \<Rightarrow> process_error" where
  "classify_tun_packet_error x e =
     (case e of
        UnsupportedNextHeader n \<Rightarrow> ExpectedNonUdp (''ignore non-UDP TUN packet: IPv6 next header '' @ show_nat n)
      | _ \<Rightarrow> Drop (''drop malformed TUN packet: '' @ packet_error_text x e))"

definition oriented :: "bytes \<Rightarrow> bytes \<Rightarrow> nat \<Rightarrow> 'z udp_packet_scheme \<Rightarrow> bool" where
  "oriented source destination port p \<longleftrightarrow> ud_source p = source \<and> ud_destination p = destination
     \<and> ud_source_port p = port \<and> ud_destination_port p = port"

text \<open>The two programs forward an application packet in the same steps, with different words.\<close>

definition forward_tun_packet ::
  "'x report_ext_scheme \<Rightarrow> process_env \<Rightarrow> active_context \<Rightarrow> node_role \<Rightarrow> string \<Rightarrow> bytes \<Rightarrow> bool \<Rightarrow> machine
    \<Rightarrow> machine \<times> (process_error + unit)" where
  "forward_tun_packet x env a role what bs debug m =
     (case parse_coap_packet x bs of
        Inl e \<Rightarrow> (m, Inl (classify_tun_packet_error x e))
      | Inr packet \<Rightarrow>
          if \<not> (case role of
                RoleCore \<Rightarrow> oriented core_logical_address device_logical_address application_port packet
              | RoleDevice \<Rightarrow> oriented device_logical_address core_logical_address application_port packet)
          then (m, Inl (Drop (''drop unsupported TUN '' @ what @ '' orientation'')))
          else
            (case encode_packet x a (link_new a role) OriginApplication packet of
               Inl e \<Rightarrow> (m, Inl (Drop (''encode TUN application '' @
                 (case role of RoleCore \<Rightarrow> ''packet'' | RoleDevice \<Rightarrow> ''response'') @ '': '' @ show_link_error e)))
             | Inr encoded \<Rightarrow>
                 and_then (fail_as Fatal (print_report x Tx (le_report encoded) debug m)) (\<lambda>m _.
                   fail_as (\<lambda>e. Fatal (''send application SCHC frame: '' @ show_link_error e))
                     (do_send env (le_frame encoded) m))))"

text \<open>How a loop reports the failure of one packet: it goes on, or the process ends with an error.\<close>

definition report_failure :: "bool \<Rightarrow> process_error \<Rightarrow> machine \<Rightarrow> machine \<times> (string option + unit)" where
  "report_failure debug e m =
     (case e of
        Drop t \<Rightarrow> (println (''ERROR '' @ t) m, Inr ())
      | ExpectedNonUdp t \<Rightarrow> (if debug then println (''DEBUG '' @ t) m else m, Inr ())
      | Fatal t \<Rightarrow> (m, Inl (Some t))
      | Aborted \<Rightarrow> (m, Inl None))"

subsection \<open>Facts\<close>

lemma taken_simps [simp]: "taken (Inr u) v = [v]" "taken (Inl e) v = []"
  by (simp_all add: taken_def)

lemma do_send_logs [simp]:
  "ma_written (fst (do_send env frame m)) = ma_written m"
  "ma_sent (fst (do_send env frame m)) = ma_sent m @ taken (snd (do_send env frame m)) frame"
  by (simp_all add: do_send_def tick_def Let_def)

lemma do_write_logs [simp]:
  "ma_written (fst (do_write env packet m)) = ma_written m @ taken (snd (do_write env packet m)) packet"
  "ma_sent (fst (do_write env packet m)) = ma_sent m"
  by (simp_all add: do_write_def tick_def Let_def)

lemma machine_logs [simp]:
  "ma_sent (tick m) = ma_sent m" "ma_written (tick m) = ma_written m" "ma_printed (tick m) = ma_printed m"
  "ma_sent (print s m) = ma_sent m" "ma_written (print s m) = ma_written m"
  "ma_sent (println s m) = ma_sent m" "ma_written (println s m) = ma_written m"
  "ma_calls (print s m) = ma_calls m" "ma_calls (println s m) = ma_calls m" "ma_calls (tick m) = ma_calls m + 1"
  by (simp_all add: tick_def print_def println_def)

lemma print_report_logs [simp]:
  "ma_sent (fst (print_report x d r debug m)) = ma_sent m"
  "ma_written (fst (print_report x d r debug m)) = ma_written m"
  "ma_calls (fst (print_report x d r debug m)) = ma_calls m"
  by (simp_all add: print_report_def split: sum.splits)

text \<open>The machine only grows: calls are counted and frames are sent after those sent before.\<close>

definition grows :: "machine \<Rightarrow> machine \<Rightarrow> bool" where
  "grows m n \<longleftrightarrow> ma_calls m \<le> ma_calls n \<and> (\<exists>frames. ma_sent n = ma_sent m @ frames)"

lemma grows_refl [simp]: "grows m m"
  by (simp add: grows_def)

lemma grows_trans [trans]: "grows m n \<Longrightarrow> grows n k \<Longrightarrow> grows m k"
  by (auto simp: grows_def)

lemma grows_simps [simp]:
  "grows m (tick m)" "grows m (print t n) \<longleftrightarrow> grows m n" "grows m (println t n) \<longleftrightarrow> grows m n"
  "grows m (fst (print_report x d r debug n)) \<longleftrightarrow> grows m n"
  by (simp_all add: grows_def)

lemma grows_calls [simp]: "grows m (fst (do_send env frame m))" "grows m (fst (do_write env packet m))"
    "grows m (fst (do_poll env m))" "grows m (fst (do_recv env m))" "grows m (fst (now env m))"
  by (simp_all add: grows_def do_send_def do_write_def do_poll_def do_recv_def now_def tick_def Let_def case_prod_beta)

lemma grows_and_then:
  assumes "grows m (fst r)" and "\<And>n v. grows n (fst (f n v))"
  shows "grows m (fst (and_then r f))"
  by (rule and_then_keeps) (use assms grows_trans in blast)+

lemma forward_grows [simp]: "grows m (fst (forward_tun_packet x env a role what bs debug m))"
proof -
  have "grows m (fst (and_then (fail_as Fatal (print_report x Tx r debug m)) (\<lambda>m _. fail_as f (do_send env frame m))))"
    for r f frame
    by (rule grows_and_then) simp_all
  then show ?thesis by (simp add: forward_tun_packet_def split: sum.split)
qed

lemma report_failure_grows [simp]: "grows m (fst (report_failure debug e n)) \<longleftrightarrow> grows m n"
  by (simp add: report_failure_def split: process_error.split)

text \<open>A report of the link prints in concise mode.\<close>

lemma print_report_concise:
  "snd (print_report x d (report_of op g i c packet frame bits mr sid) False m) = Inr ()"
  by (auto simp: print_report_def format_report_def)

end
