(* ===== verification/Endpoint.thy ===== *)
theory Endpoint
  imports Process
begin

text \<open>
  The device program (\<open>src/bin/schc-coreconf-device.rs\<close>): application packets between the TUN device
  and the link, management requests answered by the inspection service, and the endless loop that
  alternates one poll of the TUN device with one receive of the link.
\<close>

subsection \<open>Packets\<close>

record device_state =
  de_active :: active_context
  de_machine :: machine

definition on_machine :: "(machine \<Rightarrow> machine \<times> 'r) \<Rightarrow> device_state \<Rightarrow> device_state \<times> 'r" where
  "on_machine f s = (let (m, r) = f (de_machine s) in (s\<lparr>de_machine := m\<rparr>, r))"

definition send_device_tun_response ::
  "'x report_ext_scheme \<Rightarrow> process_env \<Rightarrow> bytes \<Rightarrow> bool \<Rightarrow> device_state \<Rightarrow> device_state \<times> (process_error + unit)" where
  "send_device_tun_response x env bs debug s =
     on_machine (forward_tun_packet x env (de_active s) RoleDevice ''response'' bs debug) s"

text \<open>A one-way duplicate request: the outcome is printed, whatever it is.\<close>

definition device_duplicate ::
  "'x report_ext_scheme \<Rightarrow> coreconf_model \<Rightarrow> bytes \<Rightarrow> device_state \<Rightarrow> device_state \<times> (process_error + unit)" where
  "device_duplicate x model datagram s =
     (let before = active_generation (de_active s);
          (a, answer) = handle_datagram_no_response x model (de_active s) datagram;
          say = (\<lambda>t. (s\<lparr>de_active := a, de_machine := println t (de_machine s)\<rparr>, Inr ())) in
      case answer of
        CounterPanic \<Rightarrow> (s\<lparr>de_active := a\<rparr>, Inl Aborted)
      | Answered (Inr None) \<Rightarrow>
          say (''OK duplicate  local='' @ (if active_generation a = before + 1 then ''installed'' else ''idempotent'')
            @ ''  response=none'')
      | Answered (Inr (Some _)) \<Rightarrow> say ''ERROR duplicate  local=failed  response=unexpected''
      | Answered (Inl e) \<Rightarrow> say (''ERROR duplicate  local=failed  response=none  cause='' @ show_inspection_error e))"

text \<open>Any other management request: its response is sent back as one frame.\<close>

definition device_respond ::
  "'x report_ext_scheme \<Rightarrow> process_env \<Rightarrow> bytes \<Rightarrow> bool \<Rightarrow> device_state \<Rightarrow> device_state \<times> (process_error + unit)" where
  "device_respond x env response_datagram debug s =
     (case coap_packet_new x device_logical_address core_logical_address management_port management_port response_datagram of
        Inl e \<Rightarrow> (s, Inl (Drop (''construct management response: '' @ e)))
      | Inr response \<Rightarrow>
          (case encode_packet x (de_active s) (link_new (de_active s) RoleDevice) OriginManagement response of
             Inl e \<Rightarrow> (s, Inl (Drop (''encode management response: '' @ show_link_error e)))
           | Inr encoded \<Rightarrow>
               on_machine (\<lambda>m.
                 and_then (fail_as Fatal (print_report x Tx (le_report encoded) debug m)) (\<lambda>m _.
                   fail_as (\<lambda>e. Fatal (''send management response: '' @ show_link_error e))
                     (do_send env (le_frame encoded) m))) s))"

definition device_request ::
  "'x report_ext_scheme \<Rightarrow> coreconf_model \<Rightarrow> process_env \<Rightarrow> bytes \<Rightarrow> bool \<Rightarrow> device_state
    \<Rightarrow> device_state \<times> (process_error + unit)" where
  "device_request x model env datagram debug s =
     (case handle_datagram x model (de_active s) datagram of
        (a, CounterPanic) \<Rightarrow> (s\<lparr>de_active := a\<rparr>, Inl Aborted)
      | (a, Answered (Inl e)) \<Rightarrow>
          (s\<lparr>de_active := a\<rparr>, Inl (Drop (''handle management request: '' @ show_inspection_error e)))
      | (a, Answered (Inr response)) \<Rightarrow> device_respond x env response debug (s\<lparr>de_active := a\<rparr>))"

definition device_route ::
  "'x report_ext_scheme \<Rightarrow> coreconf_model \<Rightarrow> process_env \<Rightarrow> link_decoded \<Rightarrow> bool \<Rightarrow> device_state
    \<Rightarrow> device_state \<times> (process_error + unit)" where
  "device_route x model env d debug s =
     (let request = lk_packet d in
      case lk_route d of
        RouteProtectedManagement \<Rightarrow>
          if \<not> oriented core_logical_address device_logical_address management_port request then
            (s, Inl (Drop ''drop unsupported management orientation''))
          else if is_duplicate_rule_datagram x (ud_payload request) then
            device_duplicate x model (ud_payload request) s
          else device_request x model env (ud_payload request) debug s
      | RouteApplication \<Rightarrow>
          if \<not> oriented core_logical_address device_logical_address application_port request then
            (s, Inl (Drop ''drop unsupported application orientation''))
          else
            on_machine (\<lambda>m. fail_as (\<lambda>e. Fatal (''write application packet to TUN: '' @ show_packet_loop_error env e))
              (do_write env (ud_bytes request) m)) s)"

definition receive_device_frame ::
  "'x report_ext_scheme \<Rightarrow> coreconf_model \<Rightarrow> process_env \<Rightarrow> bytes \<Rightarrow> bool \<Rightarrow> device_state
    \<Rightarrow> device_state \<times> (process_error + unit)" where
  "receive_device_frame x model env frame debug s =
     (case decode_frame x (de_active s) (link_new (de_active s) RoleDevice) frame of
        Inl e \<Rightarrow> (s, Inl (Drop (''drop malformed SCHC frame: '' @ show_link_error e)))
      | Inr d \<Rightarrow>
          and_then (on_machine (\<lambda>m. fail_as Fatal (print_report x Rx (lk_report d) debug m)) s) (\<lambda>s _.
            device_route x model env d debug s))"

subsection \<open>The loop\<close>

text \<open>
  One turn of a phase says whether the loop goes on, whether \<open>--once\<close> ended it, or the error that
  ended the process (\<open>None\<close> for the panic).
\<close>

datatype turn = Going | Finished | Failed "string option"

definition settle :: "bool \<Rightarrow> bool \<Rightarrow> device_state \<times> (process_error + unit) \<Rightarrow> device_state \<times> turn" where
  "settle once debug r =
     (case r of
        (s, Inr _) \<Rightarrow> (s, if once then Finished else Going)
      | (s, Inl e) \<Rightarrow>
          (case on_machine (report_failure debug e) s of
             (s, Inr _) \<Rightarrow> (s, Going)
           | (s, Inl t) \<Rightarrow> (s, Failed t)))"

definition device_tun_phase ::
  "'x report_ext_scheme \<Rightarrow> process_env \<Rightarrow> bool \<Rightarrow> bool \<Rightarrow> device_state \<Rightarrow> device_state \<times> turn" where
  "device_tun_phase x env once debug s =
     (case on_machine (do_poll env) s of
        (s, Inl e) \<Rightarrow> (s, Failed (Some (show_packet_loop_error env e)))
      | (s, Inr Idle) \<Rightarrow> (s, Going)
      | (s, Inr (PollPacket packet)) \<Rightarrow> settle once debug (send_device_tun_response x env packet debug s))"

definition device_link_phase ::
  "'x report_ext_scheme \<Rightarrow> coreconf_model \<Rightarrow> process_env \<Rightarrow> bool \<Rightarrow> bool \<Rightarrow> device_state \<Rightarrow> device_state \<times> turn" where
  "device_link_phase x model env once debug s =
     (case on_machine (do_recv env) s of
        (s, Inl e) \<Rightarrow>
          (if recv_idle env e then s
           else s\<lparr>de_machine := println (''ERROR receive request SCHC frame: '' @ show_link_error e) (de_machine s)\<rparr>, Going)
      | (s, Inr frame) \<Rightarrow>
          (case settle once debug (receive_device_frame x model env frame debug s) of
             (s, Going) \<Rightarrow>
               (case on_machine (do_flush env) s of
                  (s, Inl e) \<Rightarrow> (s, Failed (Some (''flush operation output: '' @ e)))
                | (s, Inr _) \<Rightarrow> (s, Going))
           | r \<Rightarrow> r))"

definition device_turn ::
  "'x report_ext_scheme \<Rightarrow> coreconf_model \<Rightarrow> process_env \<Rightarrow> bool \<Rightarrow> bool \<Rightarrow> device_state \<Rightarrow> device_state \<times> turn" where
  "device_turn x model env once debug s =
     (case device_tun_phase x env once debug s of
        (s, Going) \<Rightarrow> device_link_phase x model env once debug s
      | r \<Rightarrow> r)"

text \<open>The loop has no end of its own: its state after at most \<open>n\<close> turns.\<close>

fun device_loop ::
  "'x report_ext_scheme \<Rightarrow> coreconf_model \<Rightarrow> process_env \<Rightarrow> bool \<Rightarrow> bool \<Rightarrow> nat \<Rightarrow> device_state \<Rightarrow> device_state \<times> turn" where
  "device_loop x model env once debug 0 s = (s, Going)"
| "device_loop x model env once debug (Suc n) s =
     (case device_turn x model env once debug s of
        (s, Going) \<Rightarrow> device_loop x model env once debug n s
      | r \<Rightarrow> r)"

subsection \<open>The context of the process\<close>

lemma on_machine_active [simp]: "de_active (fst (on_machine f s)) = de_active s"
  by (simp add: on_machine_def case_prod_beta)

lemma on_machine_machine [simp]: "de_machine (fst (on_machine f s)) = fst (f (de_machine s))"
  by (simp add: on_machine_def case_prod_beta)

lemma on_machine_result [simp]: "snd (on_machine f s) = snd (f (de_machine s))"
  by (simp add: on_machine_def case_prod_beta)

lemma on_machine_eq: "on_machine f s = (s', r) \<Longrightarrow>
    de_active s' = de_active s \<and> de_machine s' = fst (f (de_machine s)) \<and> r = snd (f (de_machine s))"
  by (auto simp: on_machine_def case_prod_beta)

lemma and_then_active:
  assumes "de_active (fst r) = a" and "\<And>v. snd r = Inr v \<Longrightarrow> R a (de_active (fst (f (fst r) v)))" and "R a a"
  shows "R a (de_active (fst (and_then r f)))"
  using assms by (cases r; cases "snd r") auto

lemma device_respond_active [simp]: "de_active (fst (device_respond x env response debug s)) = de_active s"
  by (simp add: device_respond_def split: sum.splits)

lemma device_duplicate_active:
  "kept_or_published x (de_active s) (de_active (fst (device_duplicate x model datagram s)))"
proof (cases "handle_datagram_no_response x model (de_active s) datagram")
  case (Pair a r)
  then have "de_active (fst (device_duplicate x model datagram s)) = a"
    by (auto simp: device_duplicate_def Let_def split: outcome.splits sum.splits option.splits)
  with no_response_step [OF Pair] show ?thesis by (simp add: kept_or_published_def)
qed

lemma device_request_active:
  "kept_or_published x (de_active s) (de_active (fst (device_request x model env datagram debug s)))"
proof (cases "handle_datagram x model (de_active s) datagram")
  case (Pair a r)
  then have "de_active (fst (device_request x model env datagram debug s)) = a"
    by (auto simp: device_request_def split: outcome.splits sum.splits)
  with handle_datagram_step [OF Pair] show ?thesis by (simp add: kept_or_published_def)
qed

lemma device_route_active:
  "kept_or_published x (de_active s) (de_active (fst (device_route x model env d debug s)))"
  using device_duplicate_active [of x s model "ud_payload (lk_packet d)"]
    device_request_active [of x s model env "ud_payload (lk_packet d)" debug]
  by (simp add: device_route_def Let_def kept_or_published_def split: traffic_route.splits)

lemma receive_device_frame_active:
  "kept_or_published x (de_active s) (de_active (fst (receive_device_frame x model env frame debug s)))"
proof (cases "decode_frame x (de_active s) (link_new (de_active s) RoleDevice) frame")
  case (Inl e)
  then show ?thesis by (simp add: receive_device_frame_def kept_or_published_def)
next
  case (Inr d)
  let ?r = "on_machine (\<lambda>m. fail_as Fatal (print_report x Rx (lk_report d) debug m)) s"
  have "kept_or_published x (de_active s) (de_active (fst (and_then ?r (\<lambda>s _. device_route x model env d debug s))))"
    by (rule and_then_active) (use device_route_active [of x "fst ?r"] in \<open>simp_all add: kept_or_published_def\<close>)
  with Inr show ?thesis by (simp add: receive_device_frame_def)
qed

lemma settle_active [simp]: "de_active (fst (settle once debug r)) = de_active (fst r)"
  by (auto simp: settle_def split: prod.splits sum.splits dest!: on_machine_eq)

lemma device_tun_phase_active [simp]: "de_active (fst (device_tun_phase x env once debug s)) = de_active s"
  by (auto simp: device_tun_phase_def send_device_tun_response_def split: prod.splits sum.splits packet_poll.splits
      dest!: on_machine_eq)

lemma device_link_phase_active:
  "kept_or_published x (de_active s) (de_active (fst (device_link_phase x model env once debug s)))"
proof (cases "on_machine (do_recv env) s")
  case (Pair t r)
  then have t: "de_active t = de_active s" by (auto dest!: on_machine_eq)
  show ?thesis
  proof (cases r)
    case (Inl e)
    with Pair t show ?thesis by (simp add: device_link_phase_def kept_or_published_def)
  next
    case (Inr frame)
    have "de_active (fst (device_link_phase x model env once debug s))
        = de_active (fst (settle once debug (receive_device_frame x model env frame debug t)))"
      using Pair Inr
      by (auto simp: device_link_phase_def simp del: settle_active
          split: prod.splits turn.splits sum.splits dest!: on_machine_eq)
    with receive_device_frame_active [of x t model env frame debug] t show ?thesis by simp
  qed
qed

lemma device_turn_active:
  "kept_or_published x (de_active s) (de_active (fst (device_turn x model env once debug s)))"
proof (cases "device_tun_phase x env once debug s")
  case (Pair t r)
  then have t: "de_active t = de_active s" using device_tun_phase_active [of x env once debug s] by simp
  show ?thesis
    using Pair t device_link_phase_active [of x t model env once debug]
    by (cases r) (simp_all add: device_turn_def kept_or_published_def)
qed

lemma device_loop_run: "(publication x)\<^sup>*\<^sup>* (de_active s) (de_active (fst (device_loop x model env once debug n s)))"
proof (induction n arbitrary: s)
  case (Suc n)
  obtain t r where t: "device_turn x model env once debug s = (t, r)"
    by (cases "device_turn x model env once debug s")
  have "(publication x)\<^sup>*\<^sup>* (de_active s) (de_active t)"
    using device_turn_active [of x s model env once debug] t by (auto simp: kept_or_published_def)
  moreover have "(publication x)\<^sup>*\<^sup>* (de_active t) (de_active (fst (device_loop x model env once debug (Suc n) s)))"
    using t Suc.IH [of t] by (cases r) simp_all
  ultimately show ?case by (rule rtranclp_trans)
qed simp

text \<open>The device program keeps its policy: however long it runs, whatever its TUN device and its link
  deliver and whether reporting is on, its context stays coherent, its protected rules and
  construction parameters are those it started with, and the generation never goes back.\<close>

theorem device_program_keeps_policy:
  assumes "active_ok x (de_active s)" and "t = fst (device_loop x model env once debug n s)"
  shows "active_ok x (de_active t) \<and> cd_protected (active_data (de_active t)) = cd_protected (active_data (de_active s))
    \<and> ac_recipe (de_active t) = ac_recipe (de_active s)
    \<and> active_generation (de_active s) \<le> active_generation (de_active t)"
  using writer.run_ok [OF device_loop_run assms(1)] writer.run_generation [OF device_loop_run] assms(2) by blast

subsection \<open>Two planes\<close>

lemma device_respond_written [simp]:
  "ma_written (de_machine (fst (device_respond x env response debug s))) = ma_written (de_machine s)"
proof -
  have "ma_written (fst (and_then (fail_as Fatal (print_report x Tx r debug m)) (\<lambda>m _. fail_as f (do_send env frame m))))
      = ma_written m" for r m f frame
    by (rule and_then_keeps) simp_all
  then show ?thesis by (simp add: device_respond_def split: sum.split)
qed

lemma device_duplicate_logs [simp]:
  "ma_written (de_machine (fst (device_duplicate x model datagram s))) = ma_written (de_machine s)"
  by (simp add: device_duplicate_def Let_def case_prod_beta split: outcome.splits sum.splits option.splits)

lemma device_request_written [simp]:
  "ma_written (de_machine (fst (device_request x model env datagram debug s))) = ma_written (de_machine s)"
  by (simp add: device_request_def split: prod.split outcome.split sum.split)

lemma device_route_management:
  "lk_route d = RouteProtectedManagement \<Longrightarrow>
     ma_written (de_machine (fst (device_route x model env d debug s))) = ma_written (de_machine s)"
  by (simp add: device_route_def Let_def)

lemma device_route_application:
  assumes "lk_route d = RouteApplication"
  shows "de_active (fst (device_route x model env d debug s)) = de_active s"
    and "ma_sent (de_machine (fst (device_route x model env d debug s))) = ma_sent (de_machine s)"
    and "ma_written (de_machine (fst (device_route x model env d debug s)))
      \<in> {ma_written (de_machine s), ma_written (de_machine s) @ [ud_bytes (lk_packet d)]}"
  using assms by (simp_all add: device_route_def Let_def taken_def split: sum.split)

text \<open>C12: The planes are isolated on the device. A frame of the application route changes neither the
  context nor what is sent, and what it writes to the TUN device is at most its own packet, byte for
  byte; a frame of the management route writes nothing to the TUN device; any other frame changes
  nothing at all.\<close>

theorem device_isolates_planes:
  "case decode_frame x (de_active s) (link_new (de_active s) RoleDevice) frame of
     Inl e \<Rightarrow> fst (receive_device_frame x model env frame debug s) = s
   | Inr d \<Rightarrow>
       (let t = fst (receive_device_frame x model env frame debug s);
            before = ma_written (de_machine s); after = ma_written (de_machine t) in
        case lk_route d of
          RouteApplication \<Rightarrow> de_active t = de_active s \<and> ma_sent (de_machine t) = ma_sent (de_machine s)
            \<and> (after = before \<or> after = before @ [ud_bytes (lk_packet d)])
        | RouteProtectedManagement \<Rightarrow> after = before)"
proof (cases "decode_frame x (de_active s) (link_new (de_active s) RoleDevice) frame")
  case (Inl e)
  then show ?thesis by (simp add: receive_device_frame_def)
next
  case (Inr d)
  define r where "r = on_machine (\<lambda>m. fail_as Fatal (print_report x Rx (lk_report d) debug m)) s"
  have r: "de_active (fst r) = de_active s" "ma_sent (de_machine (fst r)) = ma_sent (de_machine s)"
    "ma_written (de_machine (fst r)) = ma_written (de_machine s)" by (simp_all add: r_def)
  have "receive_device_frame x model env frame debug s = and_then r (\<lambda>s _. device_route x model env d debug s)"
    using Inr by (simp add: receive_device_frame_def r_def)
  moreover obtain q w where q: "r = (q, w)" by (cases r)
  ultimately show ?thesis
    using Inr r device_route_application [of d x model env debug q] device_route_management [of d x model env debug q]
    by (cases w; cases "lk_route d") (auto simp: Let_def)
qed

subsection \<open>Why the process stops\<close>

definition starts_with :: "string \<Rightarrow> string \<Rightarrow> bool" where
  "starts_with p t \<longleftrightarrow> take (length p) t = p"

text \<open>The failures of the socket, the TUN device and the terminal. An empty frame is refused before the
  socket is called and is reported as a failure to send.\<close>

definition environment_failure :: "string \<Rightarrow> bool" where
  "environment_failure t \<longleftrightarrow> list_ex (\<lambda>p. starts_with p t)
     [''send application SCHC frame: '', ''send management response: '', ''write application packet to TUN: '',
      ''TUN packet-device operation failed: '', ''flush operation output: '']"

definition benign :: "process_error + unit \<Rightarrow> bool" where
  "benign r \<longleftrightarrow> (case r of Inl (Fatal t) \<Rightarrow> environment_failure t | _ \<Rightarrow> True)"

lemma benign_simps [simp]:
  "benign (Inr v)" "benign (Inl (Drop t))" "benign (Inl (ExpectedNonUdp t))" "benign (Inl Aborted)"
  "benign (Inl (Fatal t)) \<longleftrightarrow> environment_failure t"
  by (simp_all add: benign_def)

lemmas environment_simps = environment_failure_def starts_with_def

lemma benign_fail_as: "(\<And>e. environment_failure (f e)) \<Longrightarrow> benign (snd (fail_as (\<lambda>e. Fatal (f e)) r))"
  by (cases "snd r") (simp_all add: fail_as_def)

lemma encoded_report_prints:
  "encode_packet x a lk origin p = Inr e \<Longrightarrow> snd (print_report x d (le_report e) False m) = Inr ()"
  by (auto simp: encode_packet_def encode_validated_def attempt_Inr_iff Let_def print_report_concise)

lemma decoded_report_prints:
  "decode_frame x a lk frame = Inr e \<Longrightarrow> snd (print_report x d (lk_report e) False m) = Inr ()"
  by (auto simp: decode_frame_def decode_link_packet_def attempt_Inr_iff Let_def print_report_concise split: if_splits)

lemma and_then_ok: "snd r = Inr v \<Longrightarrow> and_then r f = f (fst r) v"
  by (cases r) simp

lemma fail_as_ok: "snd r = Inr v \<Longrightarrow> snd (fail_as f r) = Inr v"
  by (simp add: fail_as_def)

lemma forward_benign: "benign (snd (forward_tun_packet x env a role what bs False m))"
proof (cases "parse_coap_packet x bs")
  case (Inl e)
  then show ?thesis
    by (cases e) (simp_all add: forward_tun_packet_def classify_tun_packet_error_def)
next
  case packet: (Inr packet)
  show ?thesis
  proof (cases "encode_packet x a (link_new a role) OriginApplication packet")
    case (Inl e)
    with packet show ?thesis by (simp add: forward_tun_packet_def)
  next
    case (Inr encoded)
    with packet show ?thesis
      by (simp add: forward_tun_packet_def and_then_ok [OF fail_as_ok [OF encoded_report_prints [OF Inr]]] benign_fail_as environment_simps)
  qed
qed

lemma device_respond_benign: "benign (snd (device_respond x env response False s))"
proof (cases "coap_packet_new x device_logical_address core_logical_address management_port management_port response")
  case (Inl e)
  then show ?thesis by (simp add: device_respond_def)
next
  case packet: (Inr packet)
  show ?thesis
  proof (cases "encode_packet x (de_active s) (link_new (de_active s) RoleDevice) OriginManagement packet")
    case (Inl e)
    with packet show ?thesis by (simp add: device_respond_def)
  next
    case (Inr encoded)
    with packet show ?thesis
      by (simp add: device_respond_def and_then_ok [OF fail_as_ok [OF encoded_report_prints [OF Inr]]] benign_fail_as environment_simps)
  qed
qed

lemma device_duplicate_benign: "benign (snd (device_duplicate x model datagram s))"
  by (simp add: device_duplicate_def Let_def case_prod_beta split: outcome.split sum.split option.split)

lemma device_request_benign: "benign (snd (device_request x model env datagram False s))"
  by (simp add: device_request_def device_respond_benign split: prod.split outcome.split sum.split)

lemma device_route_benign: "benign (snd (device_route x model env d False s))"
  by (simp add: device_route_def Let_def device_duplicate_benign device_request_benign benign_fail_as environment_simps
      split: traffic_route.split)

lemma receive_device_frame_benign: "benign (snd (receive_device_frame x model env frame False s))"
proof (cases "decode_frame x (de_active s) (link_new (de_active s) RoleDevice) frame")
  case (Inl e)
  then show ?thesis by (simp add: receive_device_frame_def)
next
  case (Inr d)
  have "snd (on_machine (\<lambda>m. fail_as Fatal (print_report x Rx (lk_report d) False m)) s) = Inr ()"
    using fail_as_ok [OF decoded_report_prints [OF Inr]] by simp
  with Inr show ?thesis using device_route_benign by (simp add: receive_device_frame_def and_then_ok)
qed

definition turn_ok :: "turn \<Rightarrow> bool" where
  "turn_ok q \<longleftrightarrow> (case q of Going \<Rightarrow> True | Finished \<Rightarrow> False | Failed None \<Rightarrow> True | Failed (Some t) \<Rightarrow> environment_failure t)"

lemma turn_ok_simps [simp]:
  "turn_ok Going" "\<not> turn_ok Finished" "turn_ok (Failed None)" "turn_ok (Failed (Some t)) \<longleftrightarrow> environment_failure t"
  by (simp_all add: turn_ok_def)

lemma settle_ok: "benign (snd r) \<Longrightarrow> turn_ok (snd (settle False debug r))"
proof (cases r)
  case (Pair s q)
  assume "benign (snd r)"
  then show ?thesis
  proof (cases q)
    case (Inl e)
    with Pair \<open>benign (snd r)\<close> show ?thesis
      by (cases e) (simp_all add: settle_def report_failure_def on_machine_def)
  qed (simp add: settle_def Pair)
qed

lemma device_tun_phase_ok: "turn_ok (snd (device_tun_phase x env False False s))"
proof (cases "on_machine (do_poll env) s")
  case (Pair t q)
  show ?thesis
  proof (cases q)
    case (Inl e)
    with Pair have "poll (tun_read env (ma_calls (de_machine s))) = Inl e"
      by (auto simp: do_poll_def dest!: on_machine_eq)
    then obtain e' where "e = LoopDevice e'" by (cases rule: poll.cases [of "tun_read env (ma_calls (de_machine s))"]) auto
    with Pair Inl show ?thesis by (simp add: device_tun_phase_def environment_simps)
  next
    case (Inr p)
    have "benign (snd (send_device_tun_response x env packet False t))" for packet
      by (simp add: send_device_tun_response_def forward_benign)
    with Pair Inr show ?thesis
      by (cases p) (simp_all add: device_tun_phase_def settle_ok)
  qed
qed

lemma device_link_phase_ok: "turn_ok (snd (device_link_phase x model env False False s))"
proof (cases "on_machine (do_recv env) s")
  case (Pair t q)
  show ?thesis
  proof (cases q)
    case (Inl e)
    with Pair show ?thesis by (simp add: device_link_phase_def)
  next
    case (Inr frame)
    have "turn_ok (snd (settle False False (receive_device_frame x model env frame False t)))"
      by (rule settle_ok) (rule receive_device_frame_benign)
    moreover obtain u w where u: "settle False False (receive_device_frame x model env frame False t) = (u, w)"
      by (cases "settle False False (receive_device_frame x model env frame False t)")
    moreover obtain v z where "on_machine (do_flush env) u = (v, z)" by (cases "on_machine (do_flush env) u")
    ultimately show ?thesis using Pair Inr
      by (cases w; cases z) (simp_all add: device_link_phase_def environment_simps)
  qed
qed

lemma device_turn_ok: "turn_ok (snd (device_turn x model env False False s))"
proof (cases "device_tun_phase x env False False s")
  case (Pair t q)
  with device_tun_phase_ok [of x env s] device_link_phase_ok [of x model env t] show ?thesis
    by (cases q) (simp_all add: device_turn_def)
qed

text \<open>C37: Without reporting details and without the once option the device never stops by itself and no
  received frame or packet stops it: after any number of turns it is still going, unless a call to
  the socket, the TUN device or the terminal failed, which the error says (for the socket, also that
  the frame to be sent was empty), or the generation counter overflowed.\<close>

theorem device_stops_only_for_environment:
  "case snd (device_loop x model env False False n s) of
     Going \<Rightarrow> True | Finished \<Rightarrow> False | Failed None \<Rightarrow> True | Failed (Some t) \<Rightarrow> environment_failure t"
proof -
  have "turn_ok (snd (device_loop x model env False False n s))"
  proof (induction n arbitrary: s)
    case (Suc n)
    obtain t q where t: "device_turn x model env False False s = (t, q)" by (cases "device_turn x model env False False s")
    with Suc device_turn_ok [of x model env s] show ?case by (cases q) simp_all
  qed simp
  then show ?thesis by (simp add: turn_ok_def)
qed

text \<open>C38: With reporting details on, a frame whose report cannot be inspected (a malformed duplicate-rule
  request, say) stops the device: the failure of the report is fatal, while without them the same
  frame is processed.\<close>

theorem debug_report_is_fatal:
  assumes "decode_frame x (de_active s) (link_new (de_active s) RoleDevice) frame = Inr d"
    and "inspect_report x (lk_report d) = Inl e"
  shows "receive_device_frame x model env frame True s = (s, Inl (Fatal (show_report_error e)))
    \<and> receive_device_frame x model env frame False s =
        device_route x model env d False (s\<lparr>de_machine :=
          print (text_lines [concise_line Rx (lk_report d)]) (de_machine s)\<rparr>)"
proof -
  let ?d = "decode_frame x (de_active s) (link_new (de_active s) RoleDevice) frame"
  have v: "validate_line_report (lk_report d) = Inr ()"
    using assms(1) by (auto simp: decode_frame_def decode_link_packet_def attempt_Inr_iff Let_def split: if_splits)
  have "print_report x Rx (lk_report d) True m = (m, Inl (show_report_error e))"
    and "print_report x Rx (lk_report d) False m = (print (text_lines [concise_line Rx (lk_report d)]) m, Inr ())" for m
    using v assms(2) by (simp_all add: print_report_def format_report_def)
  then have "on_machine (\<lambda>m. fail_as Fatal (print_report x Rx (lk_report d) True m)) s = (s, Inl (Fatal (show_report_error e)))"
    and "on_machine (\<lambda>m. fail_as Fatal (print_report x Rx (lk_report d) False m)) s =
      (s\<lparr>de_machine := print (text_lines [concise_line Rx (lk_report d)]) (de_machine s)\<rparr>, Inr ())"
    by (simp_all add: on_machine_def fail_as_def)
  with assms(1) show ?thesis by (simp add: receive_device_frame_def)
qed

subsection \<open>A concrete device program\<close>

definition endpoint_world :: report_ext where
  "endpoint_world = (flow_ext.extend world (report_ext.fields
      (\<lambda>_. Inl (PacketRejected [])) (\<lambda>_. []) 40 8 6 17))
     \<lparr>coap_from_udp := (\<lambda>u. Inr (udp_packet.extend u (coap_packet.fields demo_message)))\<rparr>"

definition quiet_env :: process_env where
  "quiet_env = \<lparr>tun_read = (\<lambda>_. Inl WouldBlock), tun_write = (\<lambda>_. Inr 0), link_recv = (\<lambda>_. (Inl ''timeout'', [])),
     link_send = (\<lambda>_. Inr 0), link_peer = [], io_not_ready = (\<lambda>_. True), device_error_text = (\<lambda>_. []),
     flush_stdout = (\<lambda>_. Inr ()), clock = (\<lambda>n. n)\<rparr>"

definition endpoint_state :: device_state where
  "endpoint_state = \<lparr>de_active = world_active, de_machine = machine_new\<rparr>"

lemma endpoint_world_simps [simp]:
  "strict_cbor_value endpoint_world bs = strict_cbor_value world bs"
  "into_writer endpoint_world v = into_writer world v" "json_to_vec endpoint_world t = json_to_vec world t"
  "sha256 endpoint_world = sha256 world" "model_from_sid_str endpoint_world sid = model_from_sid_str world sid"
  "registry_from_json_str endpoint_world sid = registry_from_json_str world sid"
  "context_from_cbor_slice endpoint_world bs reg = context_from_cbor_slice world bs reg"
  "runtime_new endpoint_world device ctx prof = runtime_new world device ctx prof"
  "parse_udp_packet endpoint_world bs = parse_udp_packet world bs"
  "coap_from_udp endpoint_world u = Inr (udp_packet.extend u (coap_packet.fields demo_message))"
  "ipv6_header_len endpoint_world = 40"
  by (simp_all add: endpoint_world_def strict_cbor_value_def flow_ext.defs report_ext.defs del: world_simps)

lemma endpoint_active_ok: "active_ok endpoint_world world_active"
proof (rule active_new_ok)
  show "prepared_for endpoint_world (world_prepared False) (world_loaded False)"
    by (simp add: prepared_for_def coherent_def from_loaded_def check_namespace_def application_runtime_def
        digest_context_def encode_tree_def world_prepared_def world_loaded_def protected_ids_def Let_def)
qed

lemma device_program_keeps_policy_witness:
  "active_ok endpoint_world (de_active (fst (device_loop endpoint_world world_model quiet_env False False 3 endpoint_state)))"
  by (rule device_program_keeps_policy [THEN conjunct1, OF _ refl]) (simp add: endpoint_state_def endpoint_active_ok)

lemma endpoint_decode:
  "\<exists>d. decode_frame endpoint_world world_active (link_new world_active RoleDevice) [160, 1] = Inr d
    \<and> lk_report d = report_of OpDecode 1 (RuleId 5 3) Ordinary [1] [160, 1] 11 None None"
proof -
  have p: "parse_udp_packet world bs = Inr (demo_packet bs)" for bs
    by (simp add: world_def demo_flow_def demo_mgmt_def packet_ext.defs management_ext.defs flow_ext.defs)
  have "decode_link_packet endpoint_world world_active (link_new world_active RoleDevice) [160, 1] = Inr
     \<lparr>dp_packet = demo_packet [1], dp_rule_id = RuleId 5 3, dp_traffic_class = Ordinary, dp_route = RouteApplication,
      dp_report = report_of OpDecode 1 (RuleId 5 3) Ordinary [1] [160, 1] 11 None None\<rparr>"
    by (simp add: decode_link_packet_def decode_runtimes_def Let_def world_prepared_def world_rules_def demo_runtime_def
        classify_def contains_rule_id_def active_new_def from_prepared_def protected_contains_def link_new_def p
        canonical_runtime_def demo_packet_def management_rule_of_def management_rpc_sid_of_def)
  then show ?thesis by (simp add: decode_frame_def)
qed

lemma debug_report_is_fatal_witness:
  "\<exists>e. receive_device_frame endpoint_world world_model quiet_env [160, 1] True endpoint_state
    = (endpoint_state, Inl (Fatal e))"
proof -
  obtain d where d: "decode_frame endpoint_world (de_active endpoint_state) (link_new (de_active endpoint_state) RoleDevice) [160, 1] = Inr d"
    and r: "lk_report d = report_of OpDecode 1 (RuleId 5 3) Ordinary [1] [160, 1] 11 None None"
    using endpoint_decode by (auto simp: endpoint_state_def)
  have "\<exists>e. inspect_report endpoint_world (lk_report d) = Inl e"
    by (simp add: inspect_report_def inspect_layers_def Let_def r)
  then obtain e where "inspect_report endpoint_world (lk_report d) = Inl e" by blast
  from debug_report_is_fatal [OF d this, of world_model quiet_env] show ?thesis by blast
qed

end
