(* ===== verification/Console.thy ===== *)
theory Console
  imports Process Planner Remote
begin

text \<open>
  The core program (\<open>src/bin/schc-coreconf-core.rs\<close>): the management message IDs, the packets between
  the TUN device and the link, the wait for a management response, the console commands and the
  loop. The error of a command is its text; \<open>None\<close> stands for the panic of the generation counter.
  A wait that never ends has no result.
\<close>

subsection \<open>Message IDs\<close>

definition management_mid_modulus :: nat where "management_mid_modulus = 128"

text \<open>The ID and the next value of the counter.\<close>

definition next_management_message_id :: "nat \<Rightarrow> nat \<times> nat" where
  "next_management_message_id counter =
     (let i = (if management_mid_modulus \<le> counter then 0 else counter) in (i, (i + 1) mod management_mid_modulus))"

fun message_ids :: "nat \<Rightarrow> nat \<Rightarrow> nat list" where
  "message_ids 0 counter = []"
| "message_ids (Suc n) counter =
     (let (i, counter') = next_management_message_id counter in i # message_ids n counter')"

subsection \<open>Packets\<close>

definition process_core_tun_packet ::
  "'x report_ext_scheme \<Rightarrow> process_env \<Rightarrow> active_context \<Rightarrow> bytes \<Rightarrow> bool \<Rightarrow> machine \<Rightarrow> machine \<times> (process_error + unit)" where
  "process_core_tun_packet x env a bs debug m = forward_tun_packet x env a RoleCore ''application'' bs debug m"

datatype core_frame_result = CoreApplication | CoreManagement nat management_exchange

definition core_route ::
  "'x report_ext_scheme \<Rightarrow> process_env \<Rightarrow> prepared_request option \<Rightarrow> link_decoded \<Rightarrow> machine
    \<Rightarrow> machine \<times> (process_error + core_frame_result)" where
  "core_route x env prepared d m =
     (case (prepared, lk_route d) of
        (Some request, RouteProtectedManagement) \<Rightarrow>
          (m, (case validate_management_response x request d of
             Inl e \<Rightarrow> Inl (Drop (''ignore unrelated management response: '' @ show_inspection_error e))
           | Inr (code, exchange) \<Rightarrow> Inr (CoreManagement code exchange)))
      | (_, RouteProtectedManagement) \<Rightarrow> (m, Inl (Drop ''drop unrelated protected SCHC frame''))
      | (_, RouteApplication) \<Rightarrow>
          if \<not> oriented device_logical_address core_logical_address application_port (lk_packet d) then
            (m, Inl (Drop ''drop unsupported SCHC application orientation''))
          else
            and_then (fail_as (\<lambda>e. Fatal (''write application packet to TUN: '' @ show_packet_loop_error env e))
              (do_write env (ud_bytes (lk_packet d)) m)) (\<lambda>m _. (m, Inr CoreApplication)))"

definition process_core_raw_frame ::
  "'x report_ext_scheme \<Rightarrow> process_env \<Rightarrow> active_context \<Rightarrow> bytes \<Rightarrow> bool \<Rightarrow> prepared_request option \<Rightarrow> machine
    \<Rightarrow> machine \<times> (process_error + core_frame_result)" where
  "process_core_raw_frame x env a frame debug prepared m =
     (case decode_frame x a (link_new a RoleCore) frame of
        Inl e \<Rightarrow> (m, Inl (Drop (''drop malformed SCHC frame: '' @ show_link_error e)))
      | Inr d \<Rightarrow>
          and_then (fail_as Fatal (print_report x Rx (lk_report d) debug m)) (\<lambda>m _. core_route x env prepared d m))"

subsection \<open>Waiting for a response\<close>

type_synonym failure = "string option"

datatype wait_turn = Waiting | Over "failure + nat \<times> management_exchange"

definition operation_timeout :: nat where "operation_timeout = 30000"

definition wait_timeout :: "nat \<Rightarrow> wait_turn" where
  "wait_timeout timeout = Over (Inl (Some (''management response timeout after '' @ show_nat timeout @ '' ms'')))"

text \<open>A packet failure is reported and the wait goes on, unless it is fatal.\<close>

definition wait_after :: "bool \<Rightarrow> machine \<times> (process_error + 'a) \<Rightarrow> ('a \<Rightarrow> wait_turn) \<Rightarrow> machine \<times> wait_turn" where
  "wait_after debug r f =
     (case r of
        (m, Inr v) \<Rightarrow> (m, f v)
      | (m, Inl e) \<Rightarrow>
          (case report_failure debug e m of (m, Inr _) \<Rightarrow> (m, Waiting) | (m, Inl t) \<Rightarrow> (m, Over (Inl t))))"

text \<open>The three parts of one turn: the TUN device, the link, and the second look at the clock.\<close>

definition wait_tun ::
  "'x report_ext_scheme \<Rightarrow> process_env \<Rightarrow> active_context \<Rightarrow> bool \<Rightarrow> machine \<Rightarrow> machine \<times> wait_turn" where
  "wait_tun x env a debug m =
     (case do_poll env m of
        (m, Inl e) \<Rightarrow> (m, Over (Inl (Some (show_packet_loop_error env e))))
      | (m, Inr Idle) \<Rightarrow> (m, Waiting)
      | (m, Inr (PollPacket packet)) \<Rightarrow>
          wait_after debug (process_core_tun_packet x env a packet debug m) (\<lambda>_. Waiting))"

definition wait_link ::
  "'x report_ext_scheme \<Rightarrow> process_env \<Rightarrow> active_context \<Rightarrow> prepared_request \<Rightarrow> bool \<Rightarrow> machine \<Rightarrow> machine \<times> wait_turn" where
  "wait_link x env a prepared debug m =
     (case do_recv env m of
        (m, Inl e) \<Rightarrow>
          (if recv_idle env e then (m, Waiting)
           else (m, Over (Inl (Some (''receive management SCHC frame: '' @ show_link_error e)))))
      | (m, Inr frame) \<Rightarrow>
          wait_after debug (process_core_raw_frame x env a frame debug (Some prepared) m) (\<lambda>r. case r of
              CoreManagement code exchange \<Rightarrow> Over (Inr (code, exchange))
            | CoreApplication \<Rightarrow> Waiting))"

definition wait_clock :: "process_env \<Rightarrow> nat \<Rightarrow> nat \<Rightarrow> machine \<Rightarrow> machine \<times> wait_turn" where
  "wait_clock env timeout deadline m =
     (let (m, t) = now env m in (m, if deadline \<le> t then wait_timeout timeout else Waiting))"

fun wait_seq :: "machine \<times> wait_turn \<Rightarrow> (machine \<Rightarrow> machine \<times> wait_turn) \<Rightarrow> machine \<times> wait_turn" where
  "wait_seq (m, Waiting) f = f m"
| "wait_seq (m, Over r) f = (m, Over r)"

definition wait_step ::
  "'x report_ext_scheme \<Rightarrow> process_env \<Rightarrow> active_context \<Rightarrow> prepared_request \<Rightarrow> bool \<Rightarrow> nat \<Rightarrow> nat \<Rightarrow> machine
    \<Rightarrow> machine \<times> wait_turn" where
  "wait_step x env a prepared debug timeout deadline m =
     wait_seq (wait_seq (wait_seq (wait_clock env timeout deadline m)
       (wait_tun x env a debug)) (wait_link x env a prepared debug)) (wait_clock env timeout deadline)"

partial_function (option) wait_loop ::
  "(machine \<Rightarrow> machine \<times> wait_turn) \<Rightarrow> machine \<Rightarrow> (machine \<times> (failure + nat \<times> management_exchange)) option" where
  "wait_loop step m =
     (case step m of (m', Waiting) \<Rightarrow> wait_loop step m' | (m', Over r) \<Rightarrow> Some (m', r))"

definition wait_management_response ::
  "'x report_ext_scheme \<Rightarrow> process_env \<Rightarrow> active_context \<Rightarrow> prepared_request \<Rightarrow> bool \<Rightarrow> nat \<Rightarrow> machine
    \<Rightarrow> (machine \<times> (failure + nat \<times> management_exchange)) option" where
  "wait_management_response x env a prepared debug timeout m =
     (case do_send env (pr_frame prepared) m of
        (m, Inl e) \<Rightarrow> Some (m, Inl (Some (''send management SCHC frame: '' @ show_link_error e)))
      | (m, Inr _) \<Rightarrow>
          (let (m, t) = now env m in
           wait_loop (wait_step x env a prepared debug timeout (t + timeout)) m))"

definition exchange_management_routed ::
  "'x report_ext_scheme \<Rightarrow> process_env \<Rightarrow> active_context \<Rightarrow> bytes \<Rightarrow> bool \<Rightarrow> machine
    \<Rightarrow> (machine \<times> (failure + nat \<times> management_exchange)) option" where
  "exchange_management_routed x env a datagram debug m =
     (case fst (prepare_management_request x a (link_new a RoleCore) datagram EmptyToken 0) of
        Inl e \<Rightarrow> Some (m, Inl (Some (show_inspection_error e)))
      | Inr prepared \<Rightarrow>
          (case print_report x Tx (pr_report prepared) debug m of
             (m, Inl e) \<Rightarrow> Some (m, Inl (Some e))
           | (m, Inr _) \<Rightarrow> wait_management_response x env a prepared debug operation_timeout m))"

subsection \<open>Commands\<close>

datatype command_result = CommandContinue | CommandSuccessful | CommandUnavailable | CommandQuit

text \<open>What the commands use and do not change; \<open>cfg_code_text\<close> is the library's \<open>Debug\<close> of a code.\<close>

record core_config =
  cfg_model :: coreconf_model
  cfg_registry :: sid_registry
  cfg_env :: process_env
  cfg_debug :: bool
  cfg_code_text :: "lite_code \<Rightarrow> string"

record core_state =
  co_active :: active_context
  co_next_id :: nat
  co_machine :: machine

definition say :: "string \<Rightarrow> core_state \<Rightarrow> core_state" where
  "say t s = s\<lparr>co_machine := println t (co_machine s)\<rparr>"

definition say_all :: "string list \<Rightarrow> core_state \<Rightarrow> core_state" where
  "say_all ts s = fold say ts s"

definition fresh_id :: "core_state \<Rightarrow> core_state \<times> nat" where
  "fresh_id s = (let (i, n) = next_management_message_id (co_next_id s) in (s\<lparr>co_next_id := n\<rparr>, i))"

type_synonym 'a command = "core_state \<times> (failure + 'a)"

abbreviation failed :: "string \<Rightarrow> failure + 'a" where
  "failed t \<equiv> Inl (Some t)"

text \<open>A fallible computation inside a command, with the text its error becomes.\<close>

definition try_or :: "core_state \<Rightarrow> ('e \<Rightarrow> string) \<Rightarrow> 'e + 'a \<Rightarrow> ('a \<Rightarrow> 'b command option) \<Rightarrow> 'b command option" where
  "try_or s msg r f = (case r of Inl e \<Rightarrow> Some (s, failed (msg e)) | Inr v \<Rightarrow> f v)"

definition guard_period_text :: "guard_period option \<Rightarrow> string" where
  "guard_period_text g =
     (case g of None \<Rightarrow> ''none'' | Some p \<Rightarrow> show_nat (ticks_duration p) @ ''x'' @ show_nat (ticks_numbers p))"

definition format_coap_code :: "nat \<Rightarrow> string" where
  "format_coap_code code =
     show_nat (code div 32) @ ''.'' @ (if code mod 32 < 10 then ''0'' else []) @ show_nat (code mod 32)"

definition core_console_help :: "string list" where
  "core_console_help =
     [''Core commands:'', ''  context status'', ''  context check'', ''  rule list <core|device>'',
      ''  rule get <core|device> <value>/<bits>'',
      ''  rule duplicate <source>/<bits> <destination>/<bits> [entry=<index> tv=<value> mo=<identity> cda=<identity> ...]'',
      ''  rule update <value>/<bits> entry=<index> tv=<value> [--if-match]'',
      ''  rule update <value>/<bits> fid=<field> [fp=<position>] [di=<direction>] tv=<value> [--if-match]'',
      ''  help'', ''  quit'']"

subsection \<open>Rule duplicate\<close>

text \<open>The command sends first and applies locally second; the local service must stay silent.\<close>

definition duplicate_selector_text :: "duplicate_request \<Rightarrow> string" where
  "duplicate_selector_text r = show_selector (dr_source r) @ '' -> '' @ show_selector (dr_destination r)"

definition finish_duplicate :: "core_config \<Rightarrow> string \<Rightarrow> nat \<Rightarrow> core_state \<Rightarrow> core_state" where
  "finish_duplicate cfg sel before s =
     (let after = active_generation (co_active s); tag = cd_tag (active_data (co_active s));
          kind = (if after = before + 1 then ''installed'' else ''idempotent'');
          s = say (''OK duplicate '' @ sel @ ''  local='' @ kind @ ''  remote=unacknowledged'') s in
      if cfg_debug cfg then say (''  generation='' @ show_nat after @ ''  tag='' @ to_hex tag) s else s)"

definition apply_duplicate_locally ::
  "'x report_ext_scheme \<Rightarrow> core_config \<Rightarrow> string \<Rightarrow> bytes \<Rightarrow> core_state \<Rightarrow> command_result command" where
  "apply_duplicate_locally x cfg sel datagram s =
     (let before = active_generation (co_active s);
          (a, answer) = handle_datagram_no_response x (cfg_model cfg) (co_active s) datagram;
          s = s\<lparr>co_active := a\<rparr> in
      case answer of
        CounterPanic \<Rightarrow> (s, Inl None)
      | Answered (Inl e) \<Rightarrow> (s, failed (''duplicate '' @ sel @ ''  remote=unacknowledged  local=failed: ''
          @ show_inspection_error e @ ''; possible divergence - run context check''))
      | Answered (Inr (Some _)) \<Rightarrow> (s, failed (''duplicate '' @ sel @ ''  remote=unacknowledged  local=failed: ''
          @ ''local handler unexpectedly produced a response; possible divergence - run context check''))
      | Answered (Inr None) \<Rightarrow> (finish_duplicate cfg sel before s, Inr CommandSuccessful))"

definition execute_rule_duplicate ::
  "'x report_ext_scheme \<Rightarrow> core_config \<Rightarrow> string \<Rightarrow> (bytes \<Rightarrow> core_state \<Rightarrow> core_state \<times> (string + unit)) \<Rightarrow> core_state
    \<Rightarrow> command_result command option" where
  "execute_rule_duplicate x cfg command send_device s =
     try_or s (\<lambda>e. ''duplicate rejected: '' @ show_inspection_error e @ ''; device=not-sent; local=unchanged'')
       (parse_rule_duplicate_command command) (\<lambda>request.
     let sel = duplicate_selector_text request; (s, message_id) = fresh_id s in
     try_or s (\<lambda>e. ''duplicate '' @ sel @ '' rejected: '' @ show_inspection_error e @ ''; device=not-sent; local=unchanged'')
       (duplicate_rule_datagram x (cfg_model cfg) (co_active s) request message_id) (\<lambda>datagram.
     let (s, sent) = send_device datagram s in
     try_or s (\<lambda>e. ''duplicate '' @ sel @ ''  remote=not-sent  local=unchanged: '' @ e) sent (\<lambda>_.
       Some (apply_duplicate_locally x cfg sel datagram s))))"

text \<open>The sender of the program: one protected frame, not acknowledged.\<close>

definition send_duplicate ::
  "'x report_ext_scheme \<Rightarrow> core_config \<Rightarrow> bytes \<Rightarrow> core_state \<Rightarrow> core_state \<times> (string + unit)" where
  "send_duplicate x cfg datagram s =
     (case coap_packet_new x core_logical_address device_logical_address management_port management_port datagram of
        Inl e \<Rightarrow> (s, Inl e)
      | Inr request \<Rightarrow>
          (case encode_packet x (co_active s) (link_new (co_active s) RoleCore) OriginManagement request of
             Inl e \<Rightarrow> (s, Inl (show_link_error e))
           | Inr encoded \<Rightarrow>
               (let (m, r) = and_then (print_report x Tx (le_report encoded) (cfg_debug cfg) (co_machine s)) (\<lambda>m _.
                  fail_as show_link_error (do_send (cfg_env cfg) (le_frame encoded) m)) in
                (s\<lparr>co_machine := m\<rparr>, r))))"

subsection \<open>Rule update\<close>

definition validate_changed_response ::
  "'x packet_ext_scheme \<Rightarrow> (lite_code \<Rightarrow> string) \<Rightarrow> bytes \<Rightarrow> bytes \<Rightarrow> string + unit" where
  "validate_changed_response x code_text request_datagram response_datagram =
     attempt (map_err (\<lambda>e. ''malformed local request correlation: '' @ e) (lite_from_bytes x request_datagram)) (\<lambda>request.
     attempt (map_err (\<lambda>e. ''malformed local CoAP response: '' @ e) (lite_from_bytes x response_datagram)) (\<lambda>response.
     if lp_code response \<noteq> LiteResponse 68 then
       Inl (''expected local CoAP 2.04 Changed, got '' @ code_text (lp_code response))
     else if lp_message_id response \<noteq> lp_message_id request \<or> lp_token response \<noteq> lp_token request then
       Inl ''local CoAP response did not correlate''
     else Inr ()))"

text \<open>The checks before anything is sent: the update and its datagram.\<close>

definition plan_update ::
  "'x report_ext_scheme \<Rightarrow> core_config \<Rightarrow> context_snapshot \<Rightarrow> rule_update_request \<Rightarrow> string + resolved_update" where
  "plan_update x cfg snapshot request =
     (let rule = ''rule update '' @ show_selector (ru_rule request);
          rejected = (\<lambda>e. rule @ '' rejected: '' @ show_inspection_error e @ ''; device=not-sent; local=unchanged'') in
      if protected_contains (cd_protected (sn_data snapshot)) (selector_id (ru_rule request)) then
        Inl (rule @ '' rejected: protected RuleID; device=not-sent; local=unchanged'')
      else
      attempt (map_err rejected (detail_from_snapshot (nature_as_str x) snapshot (ru_rule request))) (\<lambda>detail.
        map_err rejected (resolve_target_value x request detail (cd_tree (sn_data snapshot)) (cfg_model cfg))))"

text \<open>After the device has answered 2.04: the same datagram is applied locally and checked.\<close>

definition apply_update_locally ::
  "'x report_ext_scheme \<Rightarrow> core_config \<Rightarrow> string \<Rightarrow> nat \<Rightarrow> bytes \<Rightarrow> core_state \<Rightarrow> command_result command" where
  "apply_update_locally x cfg what generation datagram s =
     (let (a, answer) = handle_datagram x (cfg_model cfg) (co_active s) datagram; s = s\<lparr>co_active := a\<rparr> in
      case answer of
        CounterPanic \<Rightarrow> (s, Inl None)
      | Answered (Inl e) \<Rightarrow> (s, failed (what @ '' device=2.04; local application failed: '' @ show_inspection_error e
          @ ''; possible divergence - run context check''))
      | Answered (Inr response) \<Rightarrow>
          (case validate_changed_response x (cfg_code_text cfg) datagram response of
             Inl e \<Rightarrow> (s, failed (what @ '' device=2.04; local response failed: '' @ e
               @ ''; possible divergence - run context check''))
           | Inr _ \<Rightarrow>
               if u64_bound \<le> generation + 1 then
                 (s, failed (what @ '' device=2.04; local generation overflow; possible divergence - run context check''))
               else if active_generation a \<noteq> generation + 1 then
                 (s, failed (what @ '' device=2.04; local acknowledgement did not publish exactly once (generation=''
                   @ show_nat (active_generation a) @ ''); possible divergence - run context check''))
               else
                 (let s = say (''OK update '' @ drop (length ''rule update '') what @ ''  device=changed  local=changed'') s in
                  (if cfg_debug cfg then say (''  response=2.04  generation='' @ show_nat (active_generation a)
                     @ ''  tag='' @ to_hex (cd_tag (active_data a))) s else s, Inr CommandSuccessful))))"

definition finish_update ::
  "'x report_ext_scheme \<Rightarrow> core_config \<Rightarrow> string \<Rightarrow> nat \<Rightarrow> bytes \<Rightarrow> nat command \<Rightarrow> command_result command" where
  "finish_update x cfg what generation datagram answer =
     (case answer of
        (s, Inl e) \<Rightarrow> (s, Inl (map_option (\<lambda>t. what @ '' device exchange failed: '' @ t @ ''; local=unchanged'') e))
      | (s, Inr code) \<Rightarrow>
          if code \<noteq> 68 then
            (s, failed (what @ '' device='' @ format_coap_code code @ '' rejected; local=not-attempted; local=unchanged''))
          else apply_update_locally x cfg what generation datagram s)"

definition execute_rule_update ::
  "'x report_ext_scheme \<Rightarrow> core_config \<Rightarrow> string \<Rightarrow> (bytes \<Rightarrow> core_state \<Rightarrow> nat command option) \<Rightarrow> core_state
    \<Rightarrow> command_result command option" where
  "execute_rule_update x cfg command send_device s =
     try_or s (\<lambda>e. ''rule update rejected: '' @ show_inspection_error e @ ''; device=not-sent; local=unchanged'')
       (parse_rule_update_command command) (\<lambda>request.
     let snapshot = ac_snapshot (co_active s) in
     try_or s (\<lambda>t. t) (plan_update x cfg snapshot request) (\<lambda>update.
     let base_tag = (if ru_if_match request then Some (cd_tag (sn_data snapshot)) else None);
         (s, message_id) = fresh_id s;
         what = ''rule update '' @ show_selector (ru_rule request) @ '' entry='' @ show_nat (up_entry_index update) in
     try_or s (\<lambda>e. what @ '' rejected: '' @ show_inspection_error e @ ''; device=not-sent; local=unchanged'')
       (ipatch_datagram x update message_id base_tag) (\<lambda>datagram.
     map_option (finish_update x cfg what (sn_generation snapshot) datagram) (send_device datagram s))))"

text \<open>The sender of the program: a routed exchange, of which only the code is used.\<close>

definition routed ::
  "'x report_ext_scheme \<Rightarrow> core_config \<Rightarrow> bytes \<Rightarrow> core_state \<Rightarrow> (nat \<times> management_exchange) command option" where
  "routed x cfg datagram s =
     map_option (\<lambda>(m, r). (s\<lparr>co_machine := m\<rparr>, r))
       (exchange_management_routed x (cfg_env cfg) (co_active s) datagram (cfg_debug cfg) (co_machine s))"

definition send_update ::
  "'x report_ext_scheme \<Rightarrow> core_config \<Rightarrow> bytes \<Rightarrow> core_state \<Rightarrow> nat command option" where
  "send_update x cfg datagram s =
     map_option (\<lambda>(s, r). (s, attempt r (\<lambda>(code, _). Inr code))) (routed x cfg datagram s)"

subsection \<open>The console\<close>

definition successful :: "core_state \<Rightarrow> command_result command option" where
  "successful s = Some (s, Inr CommandSuccessful)"

text \<open>A management exchange whose error gets a prefix, and what is done with its payload.\<close>

definition exchange_then ::
  "'x report_ext_scheme \<Rightarrow> core_config \<Rightarrow> string \<Rightarrow> bytes \<Rightarrow> core_state \<Rightarrow> (bytes \<Rightarrow> core_state \<Rightarrow> command_result command option)
    \<Rightarrow> command_result command option" where
  "exchange_then x cfg what datagram s f =
     (case routed x cfg datagram s of
        None \<Rightarrow> None
      | Some (s, Inl e) \<Rightarrow> Some (s, Inl (map_option (\<lambda>t. what @ '' failed: '' @ t) e))
      | Some (s, Inr (_, exchange)) \<Rightarrow> f (me_payload exchange) s)"

definition context_status_command :: "core_config \<Rightarrow> core_state \<Rightarrow> command_result command option" where
  "context_status_command cfg s =
     (let st = status_from_snapshot (ac_snapshot (co_active s));
          s = say (''CONTEXT generation='' @ show_nat (st_generation st) @ ''  rules='' @ show_nat (st_rule_count st)
            @ ''  guard-period='' @ guard_period_text (st_guard st)) s in
      successful (if cfg_debug cfg then say (''  tag='' @ to_hex (st_tag st)) s else s))"

text \<open>The panic of the request builder is a panic of the command.\<close>

definition context_check_command ::
  "'x report_ext_scheme \<Rightarrow> core_config \<Rightarrow> core_state \<Rightarrow> command_result command option" where
  "context_check_command x cfg s =
     (let tag = cd_tag (active_data (co_active s)); (s, message_id) = fresh_id s in
      case context_check_request x tag message_id of
        None \<Rightarrow> Some (s, Inl None)
      | Some coap \<Rightarrow>
          exchange_then x cfg ''context check'' coap s (\<lambda>payload s.
          try_or s (\<lambda>e. ''context check response failed: '' @ show_inspection_error e)
            (decode_context_check_payload payload tag) (\<lambda>result.
          let s = say (if ck_equal result then ''OK context check  equal'' else ''ERROR context check  mismatch'') s in
          successful (if cfg_debug cfg then say (''  core tag='' @ to_hex (ck_core_tag result) @ ''  device tag=''
            @ to_hex (ck_device_tag result)) s else s))))"

definition rule_list_core_command :: "'x report_ext_scheme \<Rightarrow> core_state \<Rightarrow> command_result command option" where
  "rule_list_core_command x s =
     successful (say_all (format_rule_list (summaries_from_rules (nature_as_str x) (cd_rules (active_data (co_active s))))) s)"

definition rule_list_device_command ::
  "'x report_ext_scheme \<Rightarrow> core_config \<Rightarrow> core_state \<Rightarrow> command_result command option" where
  "rule_list_device_command x cfg s =
     (let (s, message_id) = fresh_id s in
      try_or s (\<lambda>e. ''device rule list request failed: '' @ show_inspection_error e)
        (rule_list_request x (rc_sid_json (ac_recipe (co_active s))) message_id) (\<lambda>coap.
      exchange_then x cfg ''device rule list'' coap s (\<lambda>payload s.
      try_or s (\<lambda>e. ''device rule list response failed: '' @ show_inspection_error e)
        (decode_rule_list_payload x payload (cfg_model cfg)) (\<lambda>summaries.
        successful (say_all (format_rule_list summaries) s)))))"

definition rule_get_device_command ::
  "'x report_ext_scheme \<Rightarrow> core_config \<Rightarrow> rule_selector \<Rightarrow> core_state \<Rightarrow> command_result command option" where
  "rule_get_device_command x cfg sel s =
     (let (s, message_id) = fresh_id s; sid_json = rc_sid_json (ac_recipe (co_active s)) in
      try_or s (\<lambda>e. ''device rule get request failed: '' @ show_inspection_error e)
        (rule_get_request x sid_json sel message_id) (\<lambda>coap.
      exchange_then x cfg ''device rule get'' coap s (\<lambda>payload s.
      try_or s (\<lambda>e. ''device rule get response failed: '' @ show_inspection_error e)
        (decode_rule_detail_payload x payload (cfg_model cfg) (cfg_registry cfg) sid_json sel) (\<lambda>detail.
        successful (say_all (format_rule_detail detail) s)))))"

definition rule_get_command ::
  "'x report_ext_scheme \<Rightarrow> core_config \<Rightarrow> string \<Rightarrow> core_state \<Rightarrow> command_result command option" where
  "rule_get_command x cfg rest s =
     (case split_words rest of
        [] \<Rightarrow> Some (s, failed ''rule get requires core or device'')
      | [side] \<Rightarrow> Some (s, failed ''rule get requires selector'')
      | side # word # extra \<Rightarrow>
          try_or s show_inspection_error (parse_rule_selector word) (\<lambda>sel.
          if extra \<noteq> [] then Some (s, failed ''rule get accepts exactly one selector'')
          else if side = ''device'' then rule_get_device_command x cfg sel s
          else if side \<noteq> ''core'' then Some (s, failed ''rule get target must be core or device'')
          else
            try_or s show_inspection_error (detail_from_snapshot (nature_as_str x) (ac_snapshot (co_active s)) sel) (\<lambda>detail.
              successful (say_all (format_rule_detail detail) s))))"

definition begins :: "string \<Rightarrow> string \<Rightarrow> bool" where
  "begins p command \<longleftrightarrow> strip_prefix p command \<noteq> None"

definition handle_command ::
  "'x report_ext_scheme \<Rightarrow> core_config \<Rightarrow> string \<Rightarrow> core_state \<Rightarrow> command_result command option" where
  "handle_command x cfg command s =
     (if command = [] then Some (s, Inr CommandContinue)
      else if command = ''quit'' then Some (s, Inr CommandQuit)
      else if command = ''help'' then
        (let (m, r) = do_flush (cfg_env cfg) (co_machine (say_all core_console_help s)) in
         Some (s\<lparr>co_machine := m\<rparr>, attempt (map_err Some r) (\<lambda>_. Inr CommandContinue)))
      else if begins ''rule duplicate'' command then execute_rule_duplicate x cfg command (send_duplicate x cfg) s
      else if begins ''rule update'' command then execute_rule_update x cfg command (send_update x cfg) s
      else if begins ''context set'' command then
        Some (say ''ERROR context-wide mutation is unsupported; use rule update for targeted changes'' s,
          Inr CommandUnavailable)
      else if command = ''context status'' then context_status_command cfg s
      else if command = ''context check'' then context_check_command x cfg s
      else if command = ''rule list core'' then rule_list_core_command x s
      else if begins ''rule list '' command then
        (let target = drop (length ''rule list '') command in
         if target \<noteq> ''device'' \<and> target \<noteq> ''core'' then Some (s, failed ''rule list target must be core or device'')
         else if target = ''core'' then rule_list_core_command x s
         else rule_list_device_command x cfg s)
      else if begins ''rule get '' command then rule_get_command x cfg (drop (length ''rule get '') command) s
      else Some (say ''ERROR unknown command; use help'' s, Inr CommandContinue))"

subsection \<open>The loop\<close>

text \<open>
  The three phases of one turn: a waiting command, a packet of the TUN device, a frame of the link.
  \<open>input\<close> is what the console thread delivers in this turn.
\<close>

datatype core_turn = CoreGoing | CoreDone | CoreFailed failure

definition core_prompt :: "process_env \<Rightarrow> core_state \<Rightarrow> core_state \<times> core_turn" where
  "core_prompt env s =
     (let (m, r) = do_flush env (print ''core> '' (co_machine s)) in
      (s\<lparr>co_machine := m\<rparr>, case r of Inl e \<Rightarrow> CoreFailed (Some (''flush core prompt: '' @ e)) | Inr _ \<Rightarrow> CoreGoing))"

definition core_command_phase ::
  "'x report_ext_scheme \<Rightarrow> core_config \<Rightarrow> bool \<Rightarrow> bool \<Rightarrow> string option \<Rightarrow> core_state \<Rightarrow> (core_state \<times> core_turn) option" where
  "core_command_phase x cfg once interactive input s =
     (case input of
        None \<Rightarrow> Some (s, CoreGoing)
      | Some line \<Rightarrow>
          (case handle_command x cfg (trim line) s of
             None \<Rightarrow> None
           | Some (s, Inr CommandQuit) \<Rightarrow> Some (s, CoreDone)
           | Some (s, Inl None) \<Rightarrow> Some (s, CoreFailed None)
           | Some (s, r) \<Rightarrow>
               if r = Inr CommandSuccessful \<and> once then Some (s, CoreDone)
               else
                 (let (s, t) =
                    (case r of
                       Inl (Some e) \<Rightarrow>
                         (let (m, f) = do_flush (cfg_env cfg) (println (''ERROR '' @ e) (co_machine s)) in
                          (s\<lparr>co_machine := m\<rparr>,
                           case f of Inl e \<Rightarrow> CoreFailed (Some (''flush command error: '' @ e)) | Inr _ \<Rightarrow> CoreGoing))
                     | _ \<Rightarrow> (s, CoreGoing)) in
                  if t = CoreGoing \<and> interactive then Some (core_prompt (cfg_env cfg) s) else Some (s, t))))"

definition core_tun_phase ::
  "'x report_ext_scheme \<Rightarrow> core_config \<Rightarrow> bool \<Rightarrow> core_state \<Rightarrow> core_state \<times> core_turn" where
  "core_tun_phase x cfg once s =
     (case do_poll (cfg_env cfg) (co_machine s) of
        (m, Inl e) \<Rightarrow> (s\<lparr>co_machine := m\<rparr>, CoreFailed (Some (show_packet_loop_error (cfg_env cfg) e)))
      | (m, Inr Idle) \<Rightarrow> (s\<lparr>co_machine := m\<rparr>, CoreGoing)
      | (m, Inr (PollPacket packet)) \<Rightarrow>
          (case process_core_tun_packet x (cfg_env cfg) (co_active s) packet (cfg_debug cfg) m of
             (m, Inr _) \<Rightarrow> (s\<lparr>co_machine := m\<rparr>, if once then CoreDone else CoreGoing)
           | (m, Inl e) \<Rightarrow>
               (case report_failure (cfg_debug cfg) e m of
                  (m, Inr _) \<Rightarrow> (s\<lparr>co_machine := m\<rparr>, CoreGoing)
                | (m, Inl t) \<Rightarrow> (s\<lparr>co_machine := m\<rparr>, CoreFailed t))))"

definition core_link_phase ::
  "'x report_ext_scheme \<Rightarrow> core_config \<Rightarrow> bool \<Rightarrow> core_state \<Rightarrow> core_state \<times> core_turn" where
  "core_link_phase x cfg once s =
     (case do_recv (cfg_env cfg) (co_machine s) of
        (m, Inl e) \<Rightarrow>
          (s\<lparr>co_machine := (if recv_idle (cfg_env cfg) e then m
             else println (''ERROR receive SCHC frame: '' @ show_link_error e) m)\<rparr>, CoreGoing)
      | (m, Inr frame) \<Rightarrow>
          (case process_core_raw_frame x (cfg_env cfg) (co_active s) frame (cfg_debug cfg) None m of
             (m, Inr CoreApplication) \<Rightarrow> (s\<lparr>co_machine := m\<rparr>, if once then CoreDone else CoreGoing)
           | (m, Inr (CoreManagement _ _)) \<Rightarrow> (s\<lparr>co_machine := m\<rparr>, CoreGoing)
           | (m, Inl e) \<Rightarrow>
               (case report_failure (cfg_debug cfg) e m of
                  (m, Inr _) \<Rightarrow> (s\<lparr>co_machine := m\<rparr>, CoreGoing)
                | (m, Inl t) \<Rightarrow> (s\<lparr>co_machine := m\<rparr>, CoreFailed t))))"

definition core_turn ::
  "'x report_ext_scheme \<Rightarrow> core_config \<Rightarrow> bool \<Rightarrow> bool \<Rightarrow> string option \<Rightarrow> core_state \<Rightarrow> (core_state \<times> core_turn) option" where
  "core_turn x cfg once interactive input s =
     (case core_command_phase x cfg once interactive input s of
        Some (s, CoreGoing) \<Rightarrow>
          Some (case core_tun_phase x cfg once s of
             (s, CoreGoing) \<Rightarrow> core_link_phase x cfg once s
           | r \<Rightarrow> r)
      | r \<Rightarrow> r)"

text \<open>One turn for every input; the loop itself has no other end than those of its turns.\<close>

fun core_loop ::
  "'x report_ext_scheme \<Rightarrow> core_config \<Rightarrow> bool \<Rightarrow> bool \<Rightarrow> string option list \<Rightarrow> core_state \<Rightarrow> (core_state \<times> core_turn) option" where
  "core_loop x cfg once interactive [] s = Some (s, CoreGoing)"
| "core_loop x cfg once interactive (i # is) s =
     (case core_turn x cfg once interactive i s of
        Some (s, CoreGoing) \<Rightarrow> core_loop x cfg once interactive is s
      | r \<Rightarrow> r)"

subsection \<open>Message IDs stay in the window\<close>

lemma next_id_bounds: "fst (next_management_message_id c) < 128 \<and> snd (next_management_message_id c) < 128"
  by (simp add: next_management_message_id_def management_mid_modulus_def Let_def)

lemma shift_mod_inj:
  assumes "(s + j) mod 128 = (s + k) mod (128 :: nat)" and "j < 128" and "k < 128"
  shows "j = k"
proof -
  have "i = l" if "i \<le> l" "l < 128" "(s + i) mod 128 = (s + l) mod (128 :: nat)" for i l
  proof -
    have "128 dvd l - i" using that mod_eq_dvd_iff_nat [of "s + i" "s + l" 128] by simp
    then show ?thesis using that by (auto dest: dvd_imp_le)
  qed
  from this [of j k] this [of k j] show ?thesis using assms by (cases "j \<le> k") auto
qed

text \<open>The message IDs of the management exchanges are the numbers below 128 in cyclic order from the
  start of the counter, so that none leaves the seven bits the protected rules reconstruct, and any
  128 successive exchanges have different IDs.\<close>

theorem message_ids_cycle:
  "message_ids n c = map (\<lambda>k. ((if c < 128 then c else 0) + k) mod 128) [0..<n]
   \<and> list_all (\<lambda>i. i < 128) (message_ids n c) \<and> distinct (message_ids 128 c)"
proof -
  have cycle: "message_ids n c = map (\<lambda>k. ((if c < 128 then c else 0) + k) mod 128) [0..<n]" for n c
  proof (induction n arbitrary: c)
    case (Suc n)
    let ?s = "if c < 128 then c else 0"
    have s: "(if (?s + 1) mod 128 < 128 then (?s + 1) mod 128 else 0) = (?s + 1) mod 128" by simp
    have "message_ids (Suc n) c = ?s # message_ids n ((?s + 1) mod 128)"
      by (simp add: next_management_message_id_def management_mid_modulus_def Let_def)
    also have "message_ids n ((?s + 1) mod 128) = map (\<lambda>k. ((?s + 1) mod 128 + k) mod 128) [0..<n]"
      using Suc.IH [of "(?s + 1) mod 128"] unfolding s .
    also have "\<dots> = map (\<lambda>k. (?s + Suc k) mod 128) [0..<n]" by (simp add: mod_add_left_eq)
    also have "?s # \<dots> = map (\<lambda>k. (?s + k) mod 128) [0..<Suc n]"
      by (simp add: upt_conv_Cons map_Suc_upt [symmetric] comp_def del: upt_Suc map_Suc_upt)
    finally show ?case .
  qed simp
  moreover have "inj_on (\<lambda>k. (s + k) mod 128) {0..<128}" for s :: nat
    by (rule inj_onI) (metis atLeastLessThan_iff shift_mod_inj)
  ultimately show ?thesis by (simp add: list_all_iff distinct_map)
qed

subsection \<open>The wait ends\<close>

lemma core_frame_grows: "grows m (fst (process_core_raw_frame x env a frame debug prepared m))"
proof (cases "decode_frame x a (link_new a RoleCore) frame")
  case (Inl e)
  then show ?thesis by (simp add: process_core_raw_frame_def)
next
  case (Inr d)
  have "grows n (fst (and_then (fail_as f (do_write env bs n)) (\<lambda>m _. (m, Inr CoreApplication))))"
    for f :: "packet_loop_error \<Rightarrow> process_error" and bs n
    by (rule grows_and_then) simp_all
  then have "grows n (fst (core_route x env prepared d n))" for n
    by (simp add: core_route_def split: option.split traffic_route.split)
  then have "grows m (fst (and_then (fail_as Fatal (print_report x Rx (lk_report d) debug m))
      (\<lambda>m _. core_route x env prepared d m)))"
    by (intro grows_and_then) simp_all
  with Inr show ?thesis by (simp add: process_core_raw_frame_def)
qed

lemma wait_after_grows: "grows m (fst r) \<Longrightarrow> grows m (fst (wait_after debug r f))"
proof (cases r)
  case (Pair n q)
  assume grown: "grows m (fst r)"
  show ?thesis
  proof (cases q)
    case (Inl e)
    obtain n' w where w: "report_failure debug e n = (n', w)" by (cases "report_failure debug e n")
    with grown Pair have "grows m n'" using report_failure_grows [of m debug e n] by simp
    with Pair Inl w show ?thesis by (cases w) (simp_all add: wait_after_def)
  qed (use grown Pair in \<open>simp add: wait_after_def\<close>)
qed

lemma wait_tun_grows: "grows m (fst (wait_tun x env a debug m))"
proof -
  have "grows m (fst (process_core_tun_packet x env a packet debug (tick m)))" for packet
    unfolding process_core_tun_packet_def by (rule grows_trans [OF grows_simps(1) forward_grows])
  then show ?thesis by (simp add: wait_tun_def do_poll_def wait_after_grows split: sum.split packet_poll.split)
qed

lemma wait_link_grows: "grows m (fst (wait_link x env a prepared debug m))"
proof -
  have "grows m (fst (process_core_raw_frame x env a frame debug (Some prepared) (tick m)))" for frame
    by (rule grows_trans [OF grows_simps(1) core_frame_grows])
  then show ?thesis by (simp add: wait_link_def do_recv_def Let_def case_prod_beta wait_after_grows split: sum.split)
qed

lemma wait_clock_grows: "fst (wait_clock env timeout deadline m) = tick m"
  by (simp add: wait_clock_def now_def)

lemma wait_seq_grows: "grows m (fst r) \<Longrightarrow> (\<And>n. grows n (fst (f n))) \<Longrightarrow> grows m (fst (wait_seq r f))"
  by (cases "(r, f)" rule: wait_seq.cases) (auto intro: grows_trans)

lemma wait_step_grows: "grows (tick m) (fst (wait_step x env a prepared debug timeout deadline m))"
  unfolding wait_step_def
  by (intro wait_seq_grows) (simp_all add: wait_clock_grows wait_tun_grows wait_link_grows)

lemma wait_step_calls: "ma_calls m < ma_calls (fst (wait_step x env a prepared debug timeout deadline m))"
  using wait_step_grows [of m x env a prepared debug timeout deadline] by (simp add: grows_def)

text \<open>What was sent is still there when the wait ends.\<close>

lemma wait_loop_grows:
  assumes "wait_loop step m = Some (m', r)" and "\<And>n. grows n (fst (step n))"
  shows "grows m m'"
proof -
  have "(\<forall>n. grows n (fst (step n))) \<longrightarrow> grows m (fst (m', r))"
  proof (rule wait_loop.raw_induct [where P = "\<lambda>step m y. (\<forall>n. grows n (fst (step n))) \<longrightarrow> grows m (fst y)", OF _ assms(1)])
    fix loop and step :: "machine \<Rightarrow> machine \<times> wait_turn" and m y
    assume IH: "\<And>step m y. loop step m = Some y \<Longrightarrow> (\<forall>n. grows n (fst (step n))) \<longrightarrow> grows m (fst y)"
      and y: "(case step m of (m', Waiting) \<Rightarrow> loop step m' | (m', Over r) \<Rightarrow> Some (m', r)) = Some y"
    show "(\<forall>n. grows n (fst (step n))) \<longrightarrow> grows m (fst y)"
    proof
      assume grown: "\<forall>n. grows n (fst (step n))"
      obtain n w where n: "step m = (n, w)" by (cases "step m")
      then have "grows m n" using grown by (metis fst_conv)
      with IH [of step n y] y n grown show "grows m (fst y)" by (cases w) (auto intro: grows_trans)
    qed
  qed
  with assms(2) show ?thesis by simp
qed

lemma wait_step_late:
  assumes "deadline \<le> clock env (ma_calls m)"
  shows "snd (wait_step x env a prepared debug timeout deadline m) = wait_timeout timeout"
proof -
  have "wait_clock env timeout deadline m = (tick m, wait_timeout timeout)"
    using assms by (simp add: wait_clock_def now_def)
  then show ?thesis by (simp add: wait_step_def wait_timeout_def)
qed

text \<open>The number of calls still possible before the deadline decreases with every turn.\<close>

lemma wait_loop_returns:
  assumes "\<forall>k \<ge> final. deadline \<le> clock env k"
  shows "\<exists>m' r. wait_loop (wait_step x env a prepared debug timeout deadline) m = Some (m', r)"
proof (induction "final - ma_calls m" arbitrary: m rule: less_induct)
  case less
  let ?step = "wait_step x env a prepared debug timeout deadline"
  obtain m' q where step: "?step m = (m', q)" by (cases "?step m")
  show ?case
  proof (cases q)
    case (Over r)
    with step show ?thesis by (subst wait_loop.simps) simp
  next
    case Waiting
    have early: "ma_calls m < final"
    proof (rule ccontr)
      assume "\<not> ma_calls m < final"
      with assms have "deadline \<le> clock env (ma_calls m)" by simp
      from wait_step_late [OF this, of x a prepared debug timeout] step Waiting show False
        by (simp add: wait_timeout_def)
    qed
    moreover have "ma_calls m < ma_calls m'"
      using wait_step_calls [of m x env a prepared debug timeout deadline] step by simp
    ultimately have "\<exists>n r. wait_loop ?step m' = Some (n, r)" by (intro less) simp
    with step Waiting show ?thesis by (subst wait_loop.simps) simp
  qed
qed

text \<open>C30: A management exchange ends: whatever arrives meanwhile on the TUN device and the link, and
  however often, the wait for the response returns, provided only that the clock passes the
  deadline after finitely many calls and stays past it.\<close>

theorem wait_returns:
  assumes "\<forall>k \<ge> final. clock env (ma_calls m + 1) + timeout \<le> clock env k"
  shows "\<exists>m' r. wait_management_response x env a prepared debug timeout m = Some (m', r)"
proof (cases "do_send env (pr_frame prepared) m")
  case (Pair m' r)
  then have calls: "ma_calls m' = ma_calls m + 1" by (auto simp: do_send_def tick_def Let_def)
  show ?thesis
  proof (cases r)
    case (Inl e)
    with Pair show ?thesis by (simp add: wait_management_response_def)
  next
    case (Inr u)
    have "\<exists>n q. wait_loop (wait_step x env a prepared debug timeout (clock env (ma_calls m + 1) + timeout)) (tick m')
        = Some (n, q)"
      using assms by (rule wait_loop_returns)
    with Pair Inr calls show ?thesis by (simp add: wait_management_response_def now_def)
  qed
qed

subsection \<open>What a wait returns\<close>

lemma wait_loop_last:
  assumes "wait_loop step m = Some (m', r)" and "\<And>n n' q. step n = (n', Over q) \<Longrightarrow> P q"
  shows "P r"
proof -
  have "(\<forall>n n' q. step n = (n', Over q) \<longrightarrow> P q) \<longrightarrow> P (snd (m', r))"
    by (rule wait_loop.raw_induct [where P = "\<lambda>step m y. (\<forall>n n' q. step n = (n', Over q) \<longrightarrow> P q) \<longrightarrow> P (snd y)",
        OF _ assms(1)]) (auto split: prod.splits wait_turn.splits)
  with assms(2) show ?thesis by auto
qed

lemma wait_after_Over:
  assumes "wait_after debug r f = (m', Over (Inr v))"
  obtains u where "snd r = Inr u" and "f u = Over (Inr v)"
  using assms that by (cases r; cases "snd r") (auto simp: wait_after_def split: prod.splits sum.splits)

lemma core_management_frame:
  assumes "snd (process_core_raw_frame x env a frame debug prepared m) = Inr (CoreManagement code exchange)"
  shows "\<exists>d request. decode_frame x a (link_new a RoleCore) frame = Inr d \<and> prepared = Some request
    \<and> validate_management_response x request d = Inr (code, exchange)"
proof (cases "decode_frame x a (link_new a RoleCore) frame")
  case (Inl e)
  with assms show ?thesis by (simp add: process_core_raw_frame_def)
next
  case (Inr d)
  obtain n u where "fail_as Fatal (print_report x Rx (lk_report d) debug m) = (n, Inr u)"
    and r: "snd (core_route x env prepared d n) = Inr (CoreManagement code exchange)"
    using assms Inr by (cases "fail_as Fatal (print_report x Rx (lk_report d) debug m)"; cases "snd (fail_as Fatal (print_report x Rx (lk_report d) debug m))")
      (auto simp: process_core_raw_frame_def)
  show ?thesis
  proof (cases "lk_route d")
    case RouteApplication
    have "snd (and_then q (\<lambda>m _. (m, Inr CoreApplication))) \<noteq> Inr (CoreManagement code exchange)"
      for q :: "machine \<times> (process_error + unit)"
      by (cases q; cases "snd q") auto
    with r RouteApplication show ?thesis by (auto simp: core_route_def split: option.splits if_splits)
  next
    case RouteProtectedManagement
    with r Inr show ?thesis by (auto simp: core_route_def split: option.splits sum.splits)
  qed
qed

lemma wait_seq_Over:
  "wait_seq r f = (m', Over q) \<Longrightarrow> r = (m', Over q) \<or> (\<exists>m. r = (m, Waiting) \<and> f m = (m', Over q))"
  by (cases "(r, f)" rule: wait_seq.cases) auto

lemma wait_step_response:
  assumes "wait_step x env a prepared debug timeout deadline m = (m', Over (Inr (code, exchange)))"
  shows "\<exists>frame d. decode_frame x a (link_new a RoleCore) frame = Inr d
    \<and> validate_management_response x prepared d = Inr (code, exchange)"
proof -
  have clock: "wait_clock env timeout deadline n \<noteq> (n', Over (Inr v))" for n n' v
    by (simp add: wait_clock_def wait_timeout_def Let_def case_prod_beta)
  have tun: "wait_tun x env a debug n \<noteq> (n', Over (Inr v))" for n n' v
    by (auto simp: wait_tun_def split: prod.splits sum.splits packet_poll.splits elim: wait_after_Over)
  obtain n where "wait_link x env a prepared debug n = (m', Over (Inr (code, exchange)))"
    using assms clock tun unfolding wait_step_def by (blast dest: wait_seq_Over)
  then obtain frame n' where "wait_after debug (process_core_raw_frame x env a frame debug (Some prepared) n') (\<lambda>r. case r of
      CoreManagement code exchange \<Rightarrow> Over (Inr (code, exchange)) | CoreApplication \<Rightarrow> Waiting)
      = (m', Over (Inr (code, exchange)))"
    by (auto simp: wait_link_def split: prod.splits sum.splits if_splits)
  then obtain u where "snd (process_core_raw_frame x env a frame debug (Some prepared) n') = Inr u"
    and "(case u of CoreManagement code exchange \<Rightarrow> Over (Inr (code, exchange)) | CoreApplication \<Rightarrow> Waiting)
      = Over (Inr (code, exchange))" by (rule wait_after_Over)
  then have "snd (process_core_raw_frame x env a frame debug (Some prepared) n') = Inr (CoreManagement code exchange)"
    by (cases u) auto
  from core_management_frame [OF this] show ?thesis by blast
qed

lemma wait_response:
  assumes "wait_management_response x env a prepared debug timeout m = Some (m', Inr (code, exchange))"
  shows "\<exists>frame d. decode_frame x a (link_new a RoleCore) frame = Inr d
    \<and> validate_management_response x prepared d = Inr (code, exchange)"
proof -
  obtain n u where "do_send env (pr_frame prepared) m = (n, Inr u)"
    and loop: "wait_loop (wait_step x env a prepared debug timeout (snd (now env n) + timeout)) (fst (now env n))
      = Some (m', Inr (code, exchange))"
  proof (cases "do_send env (pr_frame prepared) m")
    case (Pair n w)
    with assms that [of n] show thesis
      by (cases w) (auto simp: wait_management_response_def Let_def case_prod_beta)
  qed
  let ?P = "\<lambda>q :: failure + nat \<times> management_exchange. case q of Inl _ \<Rightarrow> True | Inr (c, e) \<Rightarrow>
      \<exists>frame d. decode_frame x a (link_new a RoleCore) frame = Inr d \<and> validate_management_response x prepared d = Inr (c, e)"
  have "?P (Inr (code, exchange))"
    by (rule wait_loop_last [where P = ?P, OF loop]) (auto split: sum.split dest: wait_step_response)
  then show ?thesis by simp
qed

subsection \<open>The device is changed first\<close>

lemma say_active [simp]: "co_active (say t s) = co_active s"
  by (simp add: say_def)

lemma try_or_Some: "try_or s msg r f = Some q \<longleftrightarrow>
    (\<exists>e. r = Inl e \<and> q = (s, failed (msg e))) \<or> (\<exists>v. r = Inr v \<and> f v = Some q)"
  by (auto simp: try_or_def split: sum.split)

lemma fresh_id_active [simp]: "co_active (fst (fresh_id s)) = co_active s"
  by (simp add: fresh_id_def case_prod_beta Let_def)

text \<open>A sender only talks to the device.\<close>

definition leaves_context :: "(bytes \<Rightarrow> core_state \<Rightarrow> 'a command option) \<Rightarrow> bool" where
  "leaves_context send \<longleftrightarrow> (\<forall>d u v q. send d u = Some (v, q) \<longrightarrow> co_active v = co_active u)"

lemma routed_leaves_context: "routed x cfg d u = Some (v, q) \<Longrightarrow> co_active v = co_active u"
  by (auto simp: routed_def)

lemma send_update_leaves_context: "leaves_context (send_update x cfg)"
  by (auto simp: leaves_context_def send_update_def dest: routed_leaves_context)

lemma finish_update_cases:
  assumes "finish_update x cfg what g datagram (v, q) = (t, r)"
  shows "t = v \<and> (\<exists>e. r = Inl e) \<or> q = Inr 68 \<and> apply_update_locally x cfg what g datagram v = (t, r)"
  using assms by (auto simp: finish_update_def split: sum.splits if_splits)

lemma execute_rule_update_cases:
  assumes "execute_rule_update x cfg command send s = Some (t, r)" and "leaves_context send"
  obtains (refused) e where "co_active t = co_active s" and "r = Inl e"
  | (accepted) datagram u v what update tag where "send datagram u = Some (v, Inr 68)" and "co_active v = co_active s"
    and "apply_update_locally x cfg what (active_generation (co_active s)) datagram v = (t, r)" and "u = fst (fresh_id s)"
    and "ipatch_datagram x update (snd (fresh_id s)) tag = Inr datagram"
proof -
  from assms(1) consider (early) e where "co_active t = co_active s" and "r = Inl e"
    | (sent) datagram u what w update tag where "send datagram u = Some w" and "co_active u = co_active s"
      and "finish_update x cfg what (active_generation (co_active s)) datagram w = (t, r)" and "u = fst (fresh_id s)"
      and "ipatch_datagram x update (snd (fresh_id s)) tag = Inr datagram"
    by (auto simp: execute_rule_update_def try_or_Some Let_def case_prod_beta)
  then show thesis
  proof cases
    case early
    then show thesis by (rule refused)
  next
    case sent
    obtain v q where w: "w = (v, q)" by (cases w)
    with sent assms(2) have v: "co_active v = co_active s" unfolding leaves_context_def by metis
    from finish_update_cases [OF sent(3) [unfolded w]] show thesis
      using refused accepted v sent(1,4,5) w by auto
  qed
qed

lemma apply_update_locally_Successful:
  assumes "apply_update_locally x cfg what g datagram v = (t, Inr CommandSuccessful)"
  obtains response where "handle_datagram x (cfg_model cfg) (co_active v) datagram = (co_active t, Answered (Inr response))"
    and "validate_changed_response x (cfg_code_text cfg) datagram response = Inr ()"
    and "active_generation (co_active t) = g + 1" and "g + 1 < u64_bound"
proof (cases "handle_datagram x (cfg_model cfg) (co_active v) datagram")
  case (Pair a answer)
  with assms obtain response where answer: "answer = Answered (Inr response)"
    by (cases answer; cases "case answer of Answered q \<Rightarrow> q | CounterPanic \<Rightarrow> Inr []")
      (simp_all add: apply_update_locally_def Let_def)
  show thesis
  proof (cases "validate_changed_response x (cfg_code_text cfg) datagram response")
    case (Inl e)
    with assms Pair answer show thesis by (simp add: apply_update_locally_def Let_def)
  next
    case (Inr u)
    with assms Pair answer have "\<not> u64_bound \<le> g + 1" "active_generation a = g + 1" "co_active t = a"
      by (simp_all only: apply_update_locally_def Let_def) (simp_all split: if_splits, auto)
    with that [of response] Pair answer Inr show thesis by simp
  qed
qed

lemma apply_update_locally_active:
  "co_active (fst (apply_update_locally x cfg what g datagram v)) = fst (handle_datagram x (cfg_model cfg) (co_active v) datagram)"
proof (cases "handle_datagram x (cfg_model cfg) (co_active v) datagram")
  case (Pair a answer)
  show ?thesis
  proof (cases answer)
    case (Answered q)
    with Pair show ?thesis by (cases q) (simp_all add: apply_update_locally_def Let_def split: sum.split)
  qed (simp add: apply_update_locally_def Let_def Pair)
qed

text \<open>C11: A rule update changes the device first. Whatever the command and the answers, the context of the
  core is changed only by the very datagram that was sent to the device, and only after the device
  has answered it with 2.04; in every other case it is left as it was and the command fails.\<close>

theorem update_changes_device_first:
  assumes "execute_rule_update x cfg command send s = Some (t, r)" and "leaves_context send"
  shows "co_active t = co_active s \<and> r \<noteq> Inr CommandSuccessful \<or>
    (\<exists>datagram u v. send datagram u = Some (v, Inr 68) \<and> co_active v = co_active s
      \<and> co_active t = fst (handle_datagram x (cfg_model cfg) (co_active s) datagram))"
  using assms
proof (cases rule: execute_rule_update_cases)
  case (accepted datagram u v what)
  with apply_update_locally_active [of x cfg what "active_generation (co_active s)" datagram v] show ?thesis by auto
qed auto

subsection \<open>Both sides end with the same context\<close>

lemma patched_tree_of_tree:
  "cd_tree (sn_data s) = cd_tree (sn_data s') \<Longrightarrow> patched_tree x model sids s t = patched_tree x model sids s' t"
  by (simp add: patched_tree_def)

lemma handle_target_ipatch_publishes:
  assumes "handle_target_ipatch x model a packet = (a', r)" and "a' \<noteq> a"
  obtains request if_match p where "packet_to_request x packet ''schc'' = Inr request"
    and "parse_if_match_option packet = Inr if_match"
    and "ipatch_candidate x model a request if_match = Inr p" and "publish_locked a p = Some a'"
proof (cases "packet_to_request x packet ''schc''")
  case (Inl e)
  with assms show thesis by (simp add: handle_target_ipatch_def)
next
  case request: (Inr request)
  show thesis
  proof (cases "parse_if_match_option packet")
    case (Inl e)
    with request assms show thesis by (simp add: handle_target_ipatch_def)
  next
    case (Inr if_match)
    obtain b q where b: "apply_target_ipatch x model a request if_match = (b, q)"
      by (cases "apply_target_ipatch x model a request if_match")
    moreover have "a' = b"
      using request Inr assms b by (auto simp: handle_target_ipatch_def split: outcome.splits sum.splits)
    ultimately show thesis
      using assms(2) that [OF request Inr] by (auto elim: apply_ipatch_cases)
  qed
qed

lemma handle_datagram_publishes:
  assumes "handle_datagram x model a datagram = (a', r)" and "a' \<noteq> a"
  obtains packet request if_match p where "lite_from_bytes x datagram = Inr packet"
    and "packet_to_request x packet ''schc'' = Inr request" and "parse_if_match_option packet = Inr if_match"
    and "ipatch_candidate x model a request if_match = Inr p" and "publish_locked a p = Some a'"
proof (cases "lite_from_bytes x datagram")
  case (Inl e)
  with assms show thesis by (simp add: handle_datagram_def)
next
  case (Inr packet)
  with assms have "handle_target_ipatch x model a packet = (a', r)"
    by (auto simp: handle_datagram_def handle_packet_def simp del: not_None_eq split: if_splits)
  from this assms(2) show thesis by (rule handle_target_ipatch_publishes) (rule that [OF Inr])
qed

text \<open>The tree a candidate installs depends on the request and the current tree only.\<close>

lemma ipatch_candidate_tree:
  assumes "ipatch_candidate x model a request m = Inr p"
  obtains s t where "decode_target_ipatch x model request = Inr (s, t)"
    and "patched_tree x model s (ac_snapshot a) t = Inr (cd_tree (pc_data p))"
proof -
  obtain s t tree where "decode_target_ipatch x model request = Inr (s, t)"
    and patched: "patched_tree x model s (ac_snapshot a) t = Inr tree"
    and p: "from_tree_for_recipe x (ac_recipe a) tree = Inr p"
    using assms by (auto elim!: ipatch_candidate_Inr simp: prepare_candidate_Inr)
  from this(1) patched show thesis unfolding prepared_tree_of [OF p, symmetric] by (rule that)
qed

lemma ipatch_same_tree:
  assumes "ipatch_candidate x model a request m = Inr p" and "ipatch_candidate x model b request m' = Inr q"
    and "cd_tree (active_data a) = cd_tree (active_data b)"
  shows "cd_tree (pc_data p) = cd_tree (pc_data q)"
proof -
  obtain s t where p: "decode_target_ipatch x model request = Inr (s, t)"
      "patched_tree x model s (ac_snapshot a) t = Inr (cd_tree (pc_data p))"
    using assms(1) by (rule ipatch_candidate_tree)
  obtain s' t' where q: "decode_target_ipatch x model request = Inr (s', t')"
      "patched_tree x model s' (ac_snapshot b) t' = Inr (cd_tree (pc_data q))"
    using assms(2) by (rule ipatch_candidate_tree)
  from p q patched_tree_of_tree [OF assms(3), of x model s t] show ?thesis by simp
qed

text \<open>The tag of a coherent context is a function of its tree and its model.\<close>

lemma tag_of_tree:
  assumes "active_ok x a" and "active_ok x b" and "rc_sid_json (ac_recipe a) = rc_sid_json (ac_recipe b)"
    and "cd_tree (active_data a) = cd_tree (active_data b)"
  shows "cd_tag (active_data a) = cd_tag (active_data b)"
proof -
  have *: "\<exists>model sor digest. model_from_sid_str x (rc_sid_json (ac_recipe c)) = Inr model
      \<and> encode_tree x model (cd_tree (active_data c)) = Inr sor
      \<and> digest_context x (cd_tree (active_data c)) sor = Inr digest \<and> cd_tag (active_data c) = context_tag digest"
    if "active_ok x c" for c
  proof -
    obtain l where l: "prepared_for x (active_prepared c) l" using \<open>active_ok x c\<close> unfolding active_ok_def by blast
    have c: "coherent x (rc_sid_json (ac_recipe c)) l" and f: "from_loaded x (ac_recipe c) l = Inr (active_prepared c)"
      using l by (simp_all add: prepared_for_def active_prepared_def)
    have d: "cd_tree (active_data c) = lc_tree l" "digest_context x (lc_tree l) (lc_sor l) = Inr (cd_digest (active_data c))"
      "cd_tag (active_data c) = context_tag (cd_digest (active_data c))"
      using from_loaded_recipe(6,11,12) [OF f] by (simp_all add: active_prepared_def)
    with c show ?thesis by (auto simp: coherent_def)
  qed
  from * [OF assms(1)] * [OF assms(2)] assms(3,4) show ?thesis by auto
qed

lemma same_update_same_tag:
  assumes "active_ok x a" and "active_ok x b" and "rc_sid_json (ac_recipe a) = rc_sid_json (ac_recipe b)"
    and "cd_tree (active_data a) = cd_tree (active_data b)"
    and "handle_datagram x model a datagram = (a', r)" and "a' \<noteq> a"
    and "handle_datagram x model b datagram = (b', q)" and "b' \<noteq> b"
  shows "cd_tree (active_data a') = cd_tree (active_data b') \<and> cd_tag (active_data a') = cd_tag (active_data b')"
proof -
  have pub: "publication x a a'" "publication x b b'"
    using handle_datagram_step [OF assms(5)] handle_datagram_step [OF assms(7)] assms(6,8) by auto
  obtain packet request m p where p: "lite_from_bytes x datagram = Inr packet"
      "packet_to_request x packet ''schc'' = Inr request" "parse_if_match_option packet = Inr m"
      "ipatch_candidate x model a request m = Inr p" "publish_locked a p = Some a'"
    using assms(5,6) by (rule handle_datagram_publishes)
  obtain packet' request' m' q' where q: "lite_from_bytes x datagram = Inr packet'"
      "packet_to_request x packet' ''schc'' = Inr request'" "parse_if_match_option packet' = Inr m'"
      "ipatch_candidate x model b request' m' = Inr q'" "publish_locked b q' = Some b'"
    using assms(7,8) by (rule handle_datagram_publishes)
  have tree: "cd_tree (active_data a') = cd_tree (active_data b')"
    using ipatch_same_tree [OF p(4), of b m' q'] p q assms(4)
    by (auto simp: publish_locked_def from_prepared_def Let_def split: if_splits)
  moreover have "ac_recipe a' = ac_recipe a" "ac_recipe b' = ac_recipe b" "active_ok x a'" "active_ok x b'"
    using pub assms(1,2) writer.run_ok [of x a a'] writer.run_ok [of x b b'] by auto
  ultimately show ?thesis using tag_of_tree [of x a' b'] assms(3) by simp
qed

text \<open>A rule update that reports success leaves the core and the device with the same context: the
  device has answered 2.04 to one datagram, and when the context \<open>b\<close> of the device was coherent,
  with the same model and the same tree as the core, and that datagram has changed it, then both
  trees and both tags are equal afterwards. The generation of the core has gone up by one.\<close>

theorem update_leaves_contexts_equal:
  assumes "execute_rule_update x cfg command send s = Some (t, Inr CommandSuccessful)" and "leaves_context send"
    and "active_ok x (co_active s)" and "active_ok x b"
    and "rc_sid_json (ac_recipe (co_active s)) = rc_sid_json (ac_recipe b)"
    and "cd_tree (active_data (co_active s)) = cd_tree (active_data b)"
  shows "\<exists>datagram u v. send datagram u = Some (v, Inr 68)
    \<and> (let b' = fst (handle_datagram x (cfg_model cfg) b datagram) in b' \<noteq> b \<longrightarrow>
        cd_tree (active_data (co_active t)) = cd_tree (active_data b')
        \<and> cd_tag (active_data (co_active t)) = cd_tag (active_data b'))
    \<and> active_generation (co_active t) = active_generation (co_active s) + 1"
  using assms(1,2)
proof (cases rule: execute_rule_update_cases)
  case (accepted datagram u v what)
  obtain response where r: "handle_datagram x (cfg_model cfg) (co_active s) datagram = (co_active t, Answered (Inr response))"
    and g: "active_generation (co_active t) = active_generation (co_active s) + 1"
    using accepted(3) unfolding accepted(2) [symmetric] by (rule apply_update_locally_Successful)
  obtain b' answer where b: "handle_datagram x (cfg_model cfg) b datagram = (b', answer)"
    by (cases "handle_datagram x (cfg_model cfg) b datagram")
  have n: "co_active t \<noteq> co_active s" using g by auto
  have "cd_tree (active_data (co_active t)) = cd_tree (active_data b')
      \<and> cd_tag (active_data (co_active t)) = cd_tag (active_data b')" if "b' \<noteq> b"
    using same_update_same_tag [OF assms(3-6) r n b that] .
  with accepted(1) b g show ?thesis by (intro exI [of _ datagram] exI [of _ u] exI [of _ v]) (simp add: Let_def)
qed simp

subsection \<open>The core keeps its policy\<close>

lemma say_all_active [simp]: "co_active (say_all ts s) = co_active s"
  by (induction ts arbitrary: s) (simp_all add: say_all_def)

text \<open>A computation that leaves the context of the core alone.\<close>

definition keeps_active :: "(core_state \<Rightarrow> 'a command option) \<Rightarrow> bool" where
  "keeps_active f \<longleftrightarrow> (\<forall>u v q. f u = Some (v, q) \<longrightarrow> co_active v = co_active u)"

lemma keeps_activeD: "keeps_active f \<Longrightarrow> f u = Some (v, q) \<Longrightarrow> co_active v = co_active u"
  unfolding keeps_active_def by blast

lemma keeps_try_or: "(\<And>v. keeps_active (f v)) \<Longrightarrow> keeps_active (\<lambda>s. try_or s msg (r s) (\<lambda>v. f v s))"
  by (auto simp: keeps_active_def try_or_Some)

lemma keeps_if: "keeps_active f \<Longrightarrow> keeps_active g \<Longrightarrow> keeps_active (\<lambda>s. if b then f s else g s)"
  by (cases b) simp_all

lemma keeps_answer: "keeps_active (\<lambda>s. Some (s, r))"
  by (simp add: keeps_active_def)

lemma keeps_successful: "keeps_active (\<lambda>s. successful (say_all ts s))"
  by (simp add: keeps_active_def successful_def)

lemma keeps_exchange_then:
  assumes "\<And>payload. keeps_active (f payload)"
  shows "keeps_active (\<lambda>s. exchange_then x cfg what datagram s f)"
proof (unfold keeps_active_def, intro allI impI)
  fix u v q
  assume r: "exchange_then x cfg what datagram u f = Some (v, q)"
  obtain w p where w: "routed x cfg datagram u = Some (w, p)"
    using r by (auto simp: exchange_then_def split: option.splits)
  show "co_active v = co_active u"
  proof (cases p)
    case (Inl e)
    with r w routed_leaves_context [OF w] show ?thesis by (simp add: exchange_then_def)
  next
    case (Inr c)
    with r w have "f (me_payload (snd c)) w = Some (v, q)" by (cases c) (simp add: exchange_then_def)
    with keeps_activeD [OF assms] routed_leaves_context [OF w] show ?thesis by metis
  qed
qed

lemma keeps_fresh_id:
  assumes "\<And>i. keeps_active (f i)"
  shows "keeps_active (\<lambda>s. f (snd (fresh_id s)) (fst (fresh_id s)))"
  using keeps_activeD [OF assms] unfolding keeps_active_def by (metis fresh_id_active)

lemma keeps_rule_list_core: "keeps_active (rule_list_core_command x)"
  by (auto simp: keeps_active_def rule_list_core_command_def successful_def)

text \<open>A request to the device whose answer is decoded and printed.\<close>

lemma fetch_command_keeps:
  assumes "try_or (fst (fresh_id u)) msg r (\<lambda>coap. exchange_then x cfg what coap (fst (fresh_id u)) (\<lambda>payload s.
      try_or s msg' (decode payload) (\<lambda>d. successful (say_all (render d) s)))) = Some (v, q)"
  shows "co_active v = co_active u"
proof -
  have k: "keeps_active (\<lambda>s. exchange_then x cfg what coap s (\<lambda>payload s.
      try_or s msg' (decode payload) (\<lambda>d. successful (say_all (render d) s))))" for coap
    by (intro keeps_exchange_then keeps_try_or keeps_successful)
  have sent: "exchange_then x cfg what coap w (\<lambda>payload s.
      try_or s msg' (decode payload) (\<lambda>d. successful (say_all (render d) s))) = Some (v, q) \<Longrightarrow> co_active v = co_active w" for coap w
    by (rule keeps_activeD [OF k])
  show ?thesis
  proof (cases r)
    case (Inl e)
    with assms show ?thesis by (auto simp: try_or_def)
  next
    case (Inr coap)
    with assms have "exchange_then x cfg what coap (fst (fresh_id u)) (\<lambda>payload s.
      try_or s msg' (decode payload) (\<lambda>d. successful (say_all (render d) s))) = Some (v, q)" by (simp add: try_or_def [of _ msg])
    from sent [OF this] show ?thesis by simp
  qed
qed

lemma keeps_rule_list_device: "keeps_active (rule_list_device_command x cfg)"
  unfolding keeps_active_def rule_list_device_command_def case_prod_beta Let_def
  by (intro allI impI) (rule fetch_command_keeps)

lemma keeps_rule_get_device: "keeps_active (rule_get_device_command x cfg sel)"
  unfolding keeps_active_def rule_get_device_command_def case_prod_beta Let_def
  by (intro allI impI) (rule fetch_command_keeps)

lemma keeps_rule_get: "keeps_active (rule_get_command x cfg rest)"
proof -
  have get: "keeps_active (\<lambda>s. try_or s show_inspection_error (parse_rule_selector w) (\<lambda>sel.
      if extra then Some (s, e) else if dev then rule_get_device_command x cfg sel s else if other then Some (s, e') else
      try_or s show_inspection_error (detail_from_snapshot (nature_as_str x) (ac_snapshot (co_active s)) sel) (\<lambda>detail.
        successful (say_all (format_rule_detail detail) s))))" for w extra e dev other e'
    by (intro keeps_try_or keeps_if keeps_answer keeps_rule_get_device keeps_successful)
  show ?thesis
  proof (cases "split_words rest")
    case Nil
    then show ?thesis by (simp add: rule_get_command_def [abs_def] keeps_answer)
  next
    case (Cons side ws)
    then show ?thesis by (cases ws) (simp_all only: rule_get_command_def [abs_def] list.case get keeps_answer)
  qed
qed

lemma keeps_context_status: "keeps_active (context_status_command cfg)"
  by (auto simp: keeps_active_def context_status_command_def successful_def Let_def)

lemma keeps_context_check: "keeps_active (context_check_command x cfg)"
proof (unfold keeps_active_def, intro allI impI)
  fix u v q
  assume r: "context_check_command x cfg u = Some (v, q)"
  show "co_active v = co_active u"
  proof (cases "context_check_request x (cd_tag (active_data (co_active u))) (snd (fresh_id u))")
    case None
    with r show ?thesis by (auto simp: context_check_command_def case_prod_beta Let_def)
  next
    case (Some coap)
    have sent: "exchange_then x cfg what coap w (\<lambda>payload s. try_or s msg (decode payload) (\<lambda>d.
        successful (if debug then say (extra d) (say (verdict d) s) else say (verdict d) s))) = Some (v, q) \<Longrightarrow>
        co_active v = co_active w"
      for what w msg decode extra verdict and debug :: bool
      by (rule keeps_activeD [OF keeps_exchange_then [OF keeps_try_or]])
        (auto simp: keeps_active_def successful_def)
    from r have "co_active v = co_active (fst (fresh_id u))"
      unfolding context_check_command_def case_prod_beta Let_def Some option.case by (rule sent)
    then show ?thesis by simp
  qed
qed

lemma local_step: "kept_or_published x a (fst (handle_datagram x model a datagram))"
  using handle_datagram_step [of x model a datagram] unfolding kept_or_published_def by (metis prod.collapse)

lemma local_silent_step: "kept_or_published x a (fst (handle_datagram_no_response x model a datagram))"
  using no_response_step [of x model a datagram] unfolding kept_or_published_def by (metis prod.collapse)

text \<open>The commands that may publish.\<close>

lemma execute_rule_update_step:
  assumes "execute_rule_update x cfg command send s = Some (t, r)" and "leaves_context send"
  shows "kept_or_published x (co_active s) (co_active t)"
  using assms
proof (cases rule: execute_rule_update_cases)
  case (accepted datagram u v what)
  with apply_update_locally_active [of x cfg what "active_generation (co_active s)" datagram v]
    local_step [of x "co_active s" "cfg_model cfg" datagram] show ?thesis by simp
qed simp

lemma finish_duplicate_active [simp]: "co_active (finish_duplicate cfg sel before s) = co_active s"
  by (simp add: finish_duplicate_def Let_def)

lemma apply_duplicate_locally_active:
  "co_active (fst (apply_duplicate_locally x cfg sel datagram s))
    = fst (handle_datagram_no_response x (cfg_model cfg) (co_active s) datagram)"
proof (cases "handle_datagram_no_response x (cfg_model cfg) (co_active s) datagram")
  case (Pair a answer)
  show ?thesis
  proof (cases answer)
    case (Answered q)
    with Pair show ?thesis by (cases q) (simp_all add: apply_duplicate_locally_def Let_def split: option.split)
  qed (simp add: apply_duplicate_locally_def Let_def Pair)
qed

text \<open>What was sent is what is applied.\<close>

lemma execute_rule_duplicate_cases:
  assumes "execute_rule_duplicate x cfg command send s = Some (t, r)"
    and "\<And>d u. co_active (fst (send d u)) = co_active u"
  obtains (refused) e where "co_active t = co_active s" and "r = Inl e"
  | (sent) datagram u sel where "snd (send datagram u) = Inr ()" and "co_active u = co_active s"
    and "(t, r) = apply_duplicate_locally x cfg sel datagram (fst (send datagram u))" and "u = fst (fresh_id s)"
proof -
  obtain p where p: "parse_rule_duplicate_command command = p" by blast
  show thesis
  proof (cases p)
    case (Inl e)
    with assms(1) p refused show thesis by (auto simp: execute_rule_duplicate_def try_or_def)
  next
    case parsed: (Inr request)
    let ?sel = "duplicate_selector_text request" and ?u = "fst (fresh_id s)"
    show thesis
    proof (cases "duplicate_rule_datagram x (cfg_model cfg) (co_active ?u) request (snd (fresh_id s))")
      case (Inl e)
      with assms(1) p parsed refused show thesis
        by (auto simp: execute_rule_duplicate_def try_or_def case_prod_beta Let_def)
    next
      case (Inr datagram)
      show thesis
      proof (cases "snd (send datagram ?u)")
        case failed: (Inl e)
        with assms p parsed Inr refused show thesis
          by (auto simp: execute_rule_duplicate_def try_or_def case_prod_beta Let_def)
      next
        case ok: (Inr w)
        with assms(1) p parsed Inr have "(t, r) = apply_duplicate_locally x cfg ?sel datagram (fst (send datagram ?u))"
          by (simp add: execute_rule_duplicate_def try_or_def case_prod_beta Let_def)
        with sent [of datagram ?u] ok show thesis by simp
      qed
    qed
  qed
qed

lemma execute_rule_duplicate_step:
  assumes "execute_rule_duplicate x cfg command send s = Some (t, r)"
    and "\<And>d u. co_active (fst (send d u)) = co_active u"
  shows "kept_or_published x (co_active s) (co_active t)"
  using assms
proof (cases rule: execute_rule_duplicate_cases)
  case (sent datagram u sel)
  have "co_active t = fst (handle_datagram_no_response x (cfg_model cfg) (co_active s) datagram)"
    using apply_duplicate_locally_active [of x cfg sel datagram "fst (send datagram u)"] sent(3) [symmetric] sent(2) assms(2)
    by simp
  with local_silent_step [of x "co_active s" "cfg_model cfg" datagram] show ?thesis by simp
qed simp

lemma send_duplicate_active: "co_active (fst (send_duplicate x cfg d u)) = co_active u"
  by (simp add: send_duplicate_def Let_def case_prod_beta split: sum.split)

lemma handle_command_step:
  assumes "handle_command x cfg command s = Some (t, r)"
  shows "kept_or_published x (co_active s) (co_active t)"
proof -
  have kept: "f s = Some (t, r) \<Longrightarrow> kept_or_published x (co_active s) (co_active t)" if "keeps_active f" for f
    using keeps_activeD [OF that, of s t r] by simp
  show ?thesis
    using assms unfolding handle_command_def Let_def
    by (auto split: if_splits prod.splits
        intro: execute_rule_duplicate_step [OF _ send_duplicate_active] execute_rule_update_step [OF _ send_update_leaves_context]
          kept [OF keeps_context_status] kept [OF keeps_context_check] kept [OF keeps_rule_list_core]
          kept [OF keeps_rule_list_device] kept [OF keeps_rule_get])
qed

lemma core_prompt_active [simp]: "co_active (fst (core_prompt env s)) = co_active s"
  by (simp add: core_prompt_def Let_def case_prod_beta)

lemma core_command_phase_step:
  assumes "core_command_phase x cfg once interactive input s = Some (t, r)"
  shows "kept_or_published x (co_active s) (co_active t)"
proof (cases input)
  case None
  with assms show ?thesis by (simp add: core_command_phase_def)
next
  case (Some command)
  obtain u q where u: "handle_command x cfg (trim command) s = Some (u, q)"
    using assms Some by (cases "handle_command x cfg (trim command) s") (auto simp: core_command_phase_def)
  have "co_active t = co_active u"
  proof (cases q)
    case (Inl e)
    with assms Some u show ?thesis
      by (cases e) (auto simp: core_command_phase_def Let_def case_prod_beta split: if_splits sum.splits
          dest!: arg_cong [where f = "\<lambda>p. co_active (fst p)"])
  next
    case (Inr c)
    with assms Some u show ?thesis
      by (cases c) (auto simp: core_command_phase_def Let_def split: if_splits
          dest!: arg_cong [where f = "\<lambda>p. co_active (fst p)"])
  qed
  with handle_command_step [OF u] show ?thesis by simp
qed

lemma core_tun_phase_active [simp]: "co_active (fst (core_tun_phase x cfg once s)) = co_active s"
  by (auto simp: core_tun_phase_def split: prod.splits sum.splits packet_poll.splits)

lemma core_link_phase_active [simp]: "co_active (fst (core_link_phase x cfg once s)) = co_active s"
  by (auto simp: core_link_phase_def Let_def split: prod.splits sum.splits core_frame_result.splits)

lemma core_turn_step:
  assumes "core_turn x cfg once interactive input s = Some (t, r)"
  shows "kept_or_published x (co_active s) (co_active t)"
proof -
  obtain u q where u: "core_command_phase x cfg once interactive input s = Some (u, q)"
    using assms by (cases "core_command_phase x cfg once interactive input s") (auto simp: core_turn_def)
  have "co_active t = co_active u"
  proof (cases q)
    case CoreGoing
    obtain w p where w: "core_tun_phase x cfg once u = (w, p)" by (cases "core_tun_phase x cfg once u")
    have "co_active w = co_active u" using core_tun_phase_active [of x cfg once u] w by simp
    with assms u CoreGoing w core_link_phase_active [of x cfg once w] show ?thesis
      by (cases p) (auto simp: core_turn_def)
  qed (use assms u in \<open>auto simp: core_turn_def\<close>)
  with core_command_phase_step [OF u] show ?thesis by simp
qed

lemma core_loop_run:
  "core_loop x cfg once interactive inputs s = Some (t, r) \<Longrightarrow> (publication x)\<^sup>*\<^sup>* (co_active s) (co_active t)"
proof (induction inputs arbitrary: s)
  case (Cons i inputs)
  obtain u q where u: "core_turn x cfg once interactive i s = Some (u, q)"
    using Cons.prems by (cases "core_turn x cfg once interactive i s") auto
  have "(publication x)\<^sup>*\<^sup>* (co_active u) (co_active t)"
    using Cons.IH [of u] Cons.prems u by (cases q) auto
  with kept_run [OF core_turn_step [OF u]] show ?case by (rule rtranclp_trans)
qed simp

text \<open>C2: The core program keeps its policy: whatever is typed at its console and whatever its TUN device and
  its link deliver, its context stays coherent, its protected rules and construction parameters are
  those it started with, and the generation never goes back.\<close>

theorem core_program_keeps_policy:
  assumes "core_loop x cfg once interactive inputs s = Some (t, q)" and "active_ok x (co_active s)"
  shows "active_ok x (co_active t) \<and> cd_protected (active_data (co_active t)) = cd_protected (active_data (co_active s))
    \<and> ac_recipe (co_active t) = ac_recipe (co_active s)
    \<and> active_generation (co_active s) \<le> active_generation (co_active t)"
  using writer.run_ok [OF core_loop_run [OF assms(1)] assms(2)] writer.run_generation [OF core_loop_run [OF assms(1)]]
  by blast

end
