(* ===== verification/Startup.thy ===== *)
theory Startup
  imports Arguments Endpoint Console
begin

text \<open>
  The start of the core and device programs (\<open>run\<close> of \<open>src/bin/schc-coreconf-core.rs\<close> and
  \<open>src/bin/schc-coreconf-device.rs\<close>, with \<open>Args::active_context\<close> and \<open>bind_raw_link\<close> of
  \<open>src/bin/common/mod.rs\<close>): arguments, context, service, TUN device, link, the ready line, and then
  the loop. A run is the start followed by the loop.
\<close>

subsection \<open>What a start asks of its environment\<close>

text \<open>
  The two built-in documents, the file system, the identity and profile of the codec library, the
  library's check of the datastore backend, the creation of the TUN device (which answers its name
  and MTU), and the calls on the socket of the link in their order.
\<close>

record start_env =
  sx_addr :: addr_parser
  sx_default_sid :: string
  sx_default_sor :: bytes
  sx_read_text :: "string \<Rightarrow> string + string"
  sx_read_bytes :: "string \<Rightarrow> string + bytes"
  sx_device_id :: "string \<Rightarrow> string + device_id"
  sx_profile :: device_profile
  sx_backend :: "coreconf_model \<Rightarrow> active_context \<Rightarrow> string + unit"
  sx_tun_create :: "string \<Rightarrow> nat \<Rightarrow> string + string \<times> nat"
  sx_bind :: "socket_addr \<Rightarrow> string + unit"
  sx_connect :: "socket_addr \<Rightarrow> string + unit"
  sx_read_timeout :: "nat \<Rightarrow> string + unit"
  sx_local_addr :: "string + socket_addr"

definition load_text :: "start_env \<Rightarrow> string option \<Rightarrow> string + string" where
  "load_text e path =
     (case path of
        None \<Rightarrow> Inr (sx_default_sid e)
      | Some p \<Rightarrow> map_err (\<lambda>t. ''read SID '' @ p @ '': '' @ t) (sx_read_text e p))"

definition load_bytes :: "start_env \<Rightarrow> string option \<Rightarrow> string + bytes" where
  "load_bytes e path =
     (case path of
        None \<Rightarrow> Inr (sx_default_sor e)
      | Some p \<Rightarrow> map_err (\<lambda>t. ''read SoR '' @ p @ '': '' @ t) (sx_read_bytes e p))"

definition args_active_context :: "'x context_ext_scheme \<Rightarrow> start_env \<Rightarrow> core_args \<Rightarrow> string + active_context" where
  "args_active_context x e a =
     attempt (load_text e (ca_sid a)) (\<lambda>sid.
     attempt (load_bytes e (ca_sor a)) (\<lambda>sor.
     attempt (sx_device_id e (ca_device_id a)) (\<lambda>device.
     attempt (map_err show_context_error (prepared_from_sor x sid sor device (sx_profile e))) (\<lambda>p.
       Inr (active_new p)))))"

text \<open>The socket of the link, with the local address that it reports.\<close>

definition raw_link_bind :: "start_env \<Rightarrow> socket_addr \<Rightarrow> socket_addr \<Rightarrow> link_error + unit" where
  "raw_link_bind e local peer = attempt (map_err LinkIo (sx_bind e local)) (\<lambda>_. map_err LinkIo (sx_connect e peer))"

definition bind_raw_link :: "start_env \<Rightarrow> core_args \<Rightarrow> nat \<Rightarrow> string + socket_addr" where
  "bind_raw_link e a read_timeout =
     attempt (map_err (\<lambda>t. ''bind SCHC link: '' @ show_link_error t) (raw_link_bind e (ca_link_bind a) (ca_link_peer a))) (\<lambda>_.
     attempt (map_err (\<lambda>t. ''set SCHC link timeout: '' @ show_link_error (LinkIo t)) (sx_read_timeout e read_timeout)) (\<lambda>_.
       map_err (\<lambda>t. ''query SCHC link socket: '' @ show_link_error (LinkIo t)) (sx_local_addr e)))"

text \<open>What both programs need before they say that they are ready; 50 ms is the receive timeout.\<close>

record prepared_start =
  ps_active :: active_context
  ps_service :: inspection_service
  ps_tun_name :: string
  ps_tun_mtu :: nat
  ps_local :: socket_addr

definition raw_poll :: nat where "raw_poll = 50"

definition prepare_start :: "'x context_ext_scheme \<Rightarrow> start_env \<Rightarrow> core_args \<Rightarrow> string + prepared_start" where
  "prepare_start x e a =
     attempt (args_active_context x e a) (\<lambda>active.
     attempt (map_err (\<lambda>t. ''load management inspection service: '' @ show_inspection_error t)
       (service_new x (sx_backend e) active)) (\<lambda>service.
     attempt (map_err (\<lambda>t. ''create TUN: '' @ t) (sx_tun_create e (ca_tun_name a) (ca_tun_mtu a))) (\<lambda>(tun_name, tun_mtu).
     attempt (bind_raw_link e a raw_poll) (\<lambda>local.
       Inr \<lparr>ps_active = active, ps_service = service, ps_tun_name = tun_name, ps_tun_mtu = tun_mtu, ps_local = local\<rparr>))))"

subsection \<open>The device\<close>

definition ready_device :: "core_args \<Rightarrow> prepared_start \<Rightarrow> string" where
  "ready_device a p =
     ''READY device  tun_name='' @ ps_tun_name p @ ''  mtu='' @ show_nat (ps_tun_mtu p) @ ''  link='' @ ps_local p
       @ ''  peer='' @ ca_link_peer a"

text \<open>The first \<open>n\<close> turns of a run; without arguments it has printed its usage.\<close>

definition device_run ::
  "'x report_ext_scheme \<Rightarrow> start_env \<Rightarrow> process_env \<Rightarrow> string list \<Rightarrow> nat \<Rightarrow> machine \<times> (string option + device_state option)" where
  "device_run x e env as n =
     (case parse_core_args (sx_addr e) as of
        Inl t \<Rightarrow> (machine_new, Inl (Some t))
      | Inr None \<Rightarrow> (fold println (core_usage ''schc-coreconf-device'' False) machine_new, Inr None)
      | Inr (Some a) \<Rightarrow>
          (case prepare_start x e a of
             Inl t \<Rightarrow> (machine_new, Inl (Some t))
           | Inr p \<Rightarrow>
               (let env = env\<lparr>link_peer := ca_link_peer a\<rparr> in
                and_then (fail_as (\<lambda>t. Some (''flush readiness: '' @ t)) (do_flush env (println (ready_device a p) machine_new)))
                  (\<lambda>m _.
                     (case device_loop x (is_model (ps_service p)) env (ca_once a) (ca_debug a) n
                         \<lparr>de_active = ps_active p, de_machine = m\<rparr> of
                        (s, Failed t) \<Rightarrow> (de_machine s, Inl t)
                      | (s, _) \<Rightarrow> (de_machine s, Inr (Some s)))))))"

subsection \<open>The core\<close>

definition ready_core :: "core_args \<Rightarrow> prepared_start \<Rightarrow> string" where
  "ready_core a p =
     ''READY core  tun_name='' @ ps_tun_name p @ ''  mtu='' @ show_nat (ps_tun_mtu p) @ ''  link='' @ ps_local p
       @ ''  peer='' @ ca_link_peer a"

definition core_ready :: "process_env \<Rightarrow> bool \<Rightarrow> core_state \<Rightarrow> core_state \<times> core_turn" where
  "core_ready env interactive s =
     (if interactive then core_prompt env (say_all core_console_help s)
      else
        (let (m, r) = do_flush env (co_machine s) in
         (s\<lparr>co_machine := m\<rparr>,
          case r of Inl t \<Rightarrow> CoreFailed (Some (''flush readiness: '' @ t)) | Inr _ \<Rightarrow> CoreGoing)))"

text \<open>A run over the given inputs, one for each turn; \<open>None\<close> only when a command never ends.\<close>

definition core_run ::
  "'x report_ext_scheme \<Rightarrow> start_env \<Rightarrow> process_env \<Rightarrow> (lite_code \<Rightarrow> string) \<Rightarrow> bool \<Rightarrow> string list \<Rightarrow> string option list
    \<Rightarrow> (machine \<times> (string option + core_state option)) option" where
  "core_run x e env code_text interactive as inputs =
     (case parse_core_args (sx_addr e) as of
        Inl t \<Rightarrow> Some (machine_new, Inl (Some t))
      | Inr None \<Rightarrow> Some (fold println (core_usage ''schc-coreconf-core'' True) machine_new, Inr None)
      | Inr (Some a) \<Rightarrow>
          (case prepare_start x e a of
             Inl t \<Rightarrow> Some (machine_new, Inl (Some t))
           | Inr p \<Rightarrow>
               (let env = env\<lparr>link_peer := ca_link_peer a\<rparr>;
                    cfg = \<lparr>cfg_model = is_model (ps_service p), cfg_registry = is_registry (ps_service p),
                      cfg_env = env, cfg_debug = ca_debug a, cfg_code_text = code_text\<rparr>;
                    s = \<lparr>co_active = ps_active p, co_next_id = 1, co_machine = println (ready_core a p) machine_new\<rparr>;
                    finish = map_option (\<lambda>(s, r). (co_machine s,
                      case r of CoreFailed t \<Rightarrow> Inl t | _ \<Rightarrow> Inr (Some s))) in
                case core_ready env interactive s of
                  (s, CoreGoing) \<Rightarrow> finish (core_loop x cfg (ca_once a) interactive inputs s)
                | r \<Rightarrow> finish (Some r))))"

subsection \<open>A start is coherent\<close>

lemma prepare_start_ok:
  assumes "prepare_start x e a = Inr p"
  shows "active_ok x (ps_active p)"
proof -
  obtain sid sor device c where "prepared_from_sor x sid sor device (sx_profile e) = Inr c" and p: "ps_active p = active_new c"
    using assms by (auto simp: prepare_start_def args_active_context_def attempt_Inr_iff map_err_Inr_iff)
  then obtain l where "prepared_for x c l"
    unfolding prepared_from_sor_def by (auto elim: from_source_prepared)
  with p active_new_ok show ?thesis by simp
qed

lemma core_ready_active [simp]: "co_active (fst (core_ready env interactive s)) = co_active s"
  by (simp add: core_ready_def Let_def case_prod_beta)

lemma device_loop_keeps_policy:
  assumes "active_ok x (de_active s)" and "device_loop x model env once debug n s = (t, q)"
  shows "active_ok x (de_active t) \<and> cd_protected (active_data (de_active t)) = cd_protected (active_data (de_active s))
    \<and> ac_recipe (de_active t) = ac_recipe (de_active s)"
proof -
  have "(publication x)\<^sup>*\<^sup>* (de_active s) (de_active t)"
    using device_loop_run [of x s model env once debug n] assms(2) by simp
  from writer.run_ok [OF this assms(1)] show ?thesis by simp
qed

text \<open>The identity in the context of a start is the one of the arguments.\<close>

lemma prepare_start_device:
  assumes "prepare_start x e a = Inr p"
  shows "sx_device_id e (ca_device_id a) = Inr (rc_device (ac_recipe (ps_active p)))"
proof -
  obtain sid sor device c where d: "sx_device_id e (ca_device_id a) = Inr device"
    and c: "prepared_from_sor x sid sor device (sx_profile e) = Inr c" and p: "ps_active p = active_new c"
    using assms by (auto simp: prepare_start_def args_active_context_def attempt_Inr_iff map_err_Inr_iff)
  have "rc_device (pc_recipe c) = device"
    using c by (auto simp: prepared_from_sor_def from_source_def attempt_Inr_iff dest: from_loaded_recipe(3) simp del: load_source.simps)
  with d p show ?thesis by (simp add: active_new_def)
qed

lemma device_run_Some:
  assumes "device_run x e env as n = (m, Inr (Some s))"
  obtains a p t q where "parse_core_args (sx_addr e) as = Inr (Some a)" and "prepare_start x e a = Inr p"
    and "de_active t = ps_active p"
    and "device_loop x (is_model (ps_service p)) (env\<lparr>link_peer := ca_link_peer a\<rparr>) (ca_once a) (ca_debug a) n t = (s, q)"
proof -
  obtain a where a: "parse_core_args (sx_addr e) as = Inr (Some a)"
    using assms by (auto simp: device_run_def split: sum.splits option.splits)
  obtain p where p: "prepare_start x e a = Inr p"
    using assms a by (cases "prepare_start x e a") (auto simp: device_run_def)
  let ?env = "env\<lparr>link_peer := ca_link_peer a\<rparr>"
  let ?f = "do_flush ?env (println (ready_device a p) machine_new)"
  let ?loop = "\<lambda>m. device_loop x (is_model (ps_service p)) ?env (ca_once a) (ca_debug a) n \<lparr>de_active = ps_active p, de_machine = m\<rparr>"
  from assms a p have "and_then (fail_as (\<lambda>t. Some (''flush readiness: '' @ t)) ?f) (\<lambda>m _.
      case ?loop m of (s, Failed t) \<Rightarrow> (de_machine s, Inl t) | (s, _) \<Rightarrow> (de_machine s, Inr (Some s))) = (m, Inr (Some s))"
    by (simp add: device_run_def Let_def)
  then obtain m' where "(case ?loop m' of (s, Failed t) \<Rightarrow> (de_machine s, Inl t) | (s, _) \<Rightarrow> (de_machine s, Inr (Some s)))
      = (m, Inr (Some s))" unfolding and_then_Inr by blast
  then have "fst (?loop m') = s" by (auto split: prod.splits turn.splits)
  then have "?loop m' = (s, snd (?loop m'))" by (metis prod.collapse)
  with a p show thesis by (intro that [of a p "\<lparr>de_active = ps_active p, de_machine = m'\<rparr>" "snd (?loop m')"]) simp_all
qed

text \<open>C1: Every run of the device program holds on to the context it was started with. A run that has got to
  its loop was started with well-formed arguments; the context it has loaded is coherent and belongs to
  the device that the arguments name; and after any number of turns its context is still coherent, with
  the protected rules and the construction parameters of the start.\<close>

theorem device_run_keeps_policy:
  assumes "device_run x e env as n = (m, Inr (Some s))"
  shows "\<exists>a p. parse_core_args (sx_addr e) as = Inr (Some a) \<and> prepare_start x e a = Inr p
    \<and> sx_device_id e (ca_device_id a) = Inr (rc_device (ac_recipe (de_active s)))
    \<and> active_ok x (ps_active p) \<and> active_ok x (de_active s)
    \<and> cd_protected (active_data (de_active s)) = cd_protected (active_data (ps_active p))
    \<and> ac_recipe (de_active s) = ac_recipe (ps_active p)"
  using assms
proof (rule device_run_Some)
  fix a p t q
  assume a: "parse_core_args (sx_addr e) as = Inr (Some a)" and p: "prepare_start x e a = Inr p"
    and t: "de_active t = ps_active p"
    and loop: "device_loop x (is_model (ps_service p)) (env\<lparr>link_peer := ca_link_peer a\<rparr>) (ca_once a) (ca_debug a) n t = (s, q)"
  have "active_ok x (de_active t)" using prepare_start_ok [OF p] t by simp
  from device_loop_keeps_policy [OF this loop] a p t prepare_start_ok [OF p] prepare_start_device [OF p] show ?thesis
    by (intro exI [of _ a] exI [of _ p]) simp
qed

subsection \<open>A concrete run\<close>

definition demo_start :: start_env where
  "demo_start = \<lparr>sx_addr = Inr, sx_default_sid = ''m'', sx_default_sor = demo_bytes False, sx_read_text = (\<lambda>_. Inl []),
     sx_read_bytes = (\<lambda>_. Inl []), sx_device_id = (\<lambda>_. Inr 3), sx_profile = 0, sx_backend = (\<lambda>_ _. Inr ()),
     sx_tun_create = (\<lambda>name mtu. Inr (name, mtu)), sx_bind = (\<lambda>_. Inr ()), sx_connect = (\<lambda>_. Inr ()),
     sx_read_timeout = (\<lambda>_. Inr ()), sx_local_addr = Inr ''[::1]:5683''\<rparr>"

definition demo_command_line :: "string list" where
  "demo_command_line = [''--tun-name'', ''schc0'', ''--link-bind'', ''[::1]:5683'', ''--link-peer'', ''[::1]:5684'']"

lemma demo_prepared: "prepared_from_sor endpoint_world ''m'' (demo_bytes False) 3 0 = Inr (world_prepared False)"
proof -
  have "load_sor endpoint_world ''m'' (demo_bytes False) = Inr (world_loaded False)"
    by (simp add: load_sor_def world_loaded_def ensure_schc_root_def encode_tree_def)
  then show ?thesis
    by (simp add: prepared_from_sor_def from_source_def from_loaded_def check_namespace_def application_runtime_def
        digest_context_def world_prepared_def world_loaded_def protected_ids_def Let_def)
qed

lemma device_run_keeps_policy_witness:
  "\<exists>m s. device_run endpoint_world demo_start quiet_env demo_command_line 2 = (m, Inr (Some s))
     \<and> active_ok endpoint_world (de_active s)"
proof -
  obtain a where a: "parse_core_args Inr demo_command_line = Inr (Some a)" "ca_sid a = None" "ca_sor a = None"
    by (simp add: demo_command_line_def parse_core_args_def core_args_of_def no_core_options_def core_option_def taking_def
        next_value_def parse_addr_def)
  have service: "\<exists>service. service_new endpoint_world (sx_backend demo_start) world_active = Inr service"
    by (simp add: service_new_def demo_start_def)
  then obtain p where p: "prepare_start endpoint_world demo_start a = Inr p"
    using a by (auto simp: prepare_start_def args_active_context_def load_text_def load_bytes_def demo_prepared bind_raw_link_def
        raw_link_bind_def demo_start_def)
  have io: "do_poll (quiet_env\<lparr>link_peer := w\<rparr>) m = (tick m, Inr Idle)"
    "do_recv (quiet_env\<lparr>link_peer := w\<rparr>) m = (tick m, Inl (LinkIo ''timeout''))"
    "recv_idle (quiet_env\<lparr>link_peer := w\<rparr>) (LinkIo t)" "do_flush (quiet_env\<lparr>link_peer := w\<rparr>) m = (tick m, Inr ())" for w m t
    by (simp_all add: do_poll_def do_recv_def recv_def recv_bytes_def recv_idle_def do_flush_def quiet_env_def)
  have turn: "\<exists>t. device_turn endpoint_world model (quiet_env\<lparr>link_peer := w\<rparr>) once debug s = (t, Going)" for model w once debug s
    by (simp add: device_turn_def device_tun_phase_def device_link_phase_def on_machine_def io)
  have loop: "\<exists>t. device_loop endpoint_world model (quiet_env\<lparr>link_peer := w\<rparr>) once debug 2 s = (t, Going)" for model w once debug s
    using turn [of model w once debug] by (metis (no_types, lifting) device_loop.simps numeral_2_eq_2 prod.case turn.case(1))
  have "\<exists>m s. device_run endpoint_world demo_start quiet_env demo_command_line 2 = (m, Inr (Some s))"
  proof -
    obtain t where "device_loop endpoint_world (is_model (ps_service p)) (quiet_env\<lparr>link_peer := ca_link_peer a\<rparr>) (ca_once a)
        (ca_debug a) 2 \<lparr>de_active = ps_active p, de_machine = tick (println (ready_device a p) machine_new)\<rparr> = (t, Going)"
      using loop by blast
    moreover have "sx_addr demo_start = Inr" by (simp add: demo_start_def)
    ultimately show ?thesis using a(1) p by (simp add: device_run_def io fail_as_def Let_def)
  qed
  then obtain m s where "device_run endpoint_world demo_start quiet_env demo_command_line 2 = (m, Inr (Some s))" by blast
  from this device_run_keeps_policy [OF this] show ?thesis by blast
qed

end
