(* ===== verification/Replicas.thy ===== *)
theory Replicas
  imports Device
begin

text \<open>
  The core and the device run the same service (\<open>InspectionService\<close> of \<open>src/management.rs\<close>) over two
  contexts of their own, and are kept equal by giving both the same datagrams. This theory compares
  the two: contexts that differ in their generation only answer every datagram alike and stay that
  way, as long as neither generation counter overflows.
\<close>

subsection \<open>Contexts up to their generation\<close>

definition renumbered :: "active_context \<Rightarrow> nat \<Rightarrow> active_context" where
  "renumbered a g = a\<lparr>ac_snapshot := (ac_snapshot a)\<lparr>sn_generation := g\<rparr>\<rparr>"

definition replica_of :: "active_context \<Rightarrow> active_context \<Rightarrow> bool" where
  "replica_of a b \<longleftrightarrow> b = renumbered a (active_generation b)"

lemma renumbered_simps [simp]:
  "active_data (renumbered a g) = active_data a" "active_generation (renumbered a g) = g"
  "ac_recipe (renumbered a g) = ac_recipe a" "sn_dynamic (ac_snapshot (renumbered a g)) = sn_dynamic (ac_snapshot a)"
  "renumbered (renumbered a g) h = renumbered a h" "renumbered a (active_generation a) = a"
  by (simp_all add: renumbered_def)

lemma replica_renumbered: "replica_of a (renumbered a g)"
  by (simp add: replica_of_def)

lemma replica_refl [simp]: "replica_of a a"
  by (simp add: replica_of_def)

lemma replica_sym: "replica_of a b \<Longrightarrow> replica_of b a"
  unfolding replica_of_def by (metis renumbered_simps(5,6))

lemma replica_trans: "replica_of a b \<Longrightarrow> replica_of b c \<Longrightarrow> replica_of a c"
  unfolding replica_of_def by (metis renumbered_simps(5))

lemma replica_facts:
  assumes "replica_of a b"
  shows "active_data b = active_data a" and "ac_recipe b = ac_recipe a"
    and "sn_dynamic (ac_snapshot b) = sn_dynamic (ac_snapshot a)"
proof -
  obtain g where "b = renumbered a g" using assms by (auto simp: replica_of_def)
  then show "active_data b = active_data a" and "ac_recipe b = ac_recipe a"
    and "sn_dynamic (ac_snapshot b) = sn_dynamic (ac_snapshot a)" by simp_all
qed

text \<open>Coherent contexts of the same construction parameters with the same tree are replicas: everything
  else is computed from these.\<close>

lemma active_ok_loaded:
  assumes "active_ok x a"
  obtains l where "coherent x (rc_sid_json (ac_recipe a)) l"
    and "from_loaded x (ac_recipe a) l = Inr (active_prepared a)" and "cd_tree (active_data a) = lc_tree l"
proof -
  obtain l where l: "prepared_for x (active_prepared a) l" using assms unfolding active_ok_def by blast
  then have f: "from_loaded x (ac_recipe a) l = Inr (active_prepared a)"
    and "coherent x (rc_sid_json (ac_recipe a)) l" by (simp_all add: prepared_for_def active_prepared_def)
  with that from_loaded_recipe(6) [OF f] show thesis by (simp add: active_prepared_def)
qed

lemma coherent_unique:
  assumes "coherent x sid l" and "coherent x sid k" and "lc_tree l = lc_tree k"
  shows "l = k"
proof -
  have "lc_model l = lc_model k" and "lc_registry l = lc_registry k" and "lc_sor l = lc_sor k"
    using assms by (auto simp: coherent_def)
  moreover from calculation have "lc_rule_context l = lc_rule_context k"
    using assms by (auto simp: coherent_def)
  moreover from calculation have "lc_protected l = lc_protected k" and "lc_guard l = lc_guard k"
    using assms by (auto simp: coherent_def)
  ultimately show ?thesis using assms(3) by (cases l; cases k) simp
qed

lemma replica_of_tree:
  assumes "active_ok x a" and "active_ok x b" and "ac_recipe a = ac_recipe b"
    and "cd_tree (active_data a) = cd_tree (active_data b)"
  shows "replica_of a b"
proof -
  obtain l where l: "coherent x (rc_sid_json (ac_recipe a)) l"
      "from_loaded x (ac_recipe a) l = Inr (active_prepared a)" "cd_tree (active_data a) = lc_tree l"
    using assms(1) by (rule active_ok_loaded)
  obtain k where k: "coherent x (rc_sid_json (ac_recipe b)) k"
      "from_loaded x (ac_recipe b) k = Inr (active_prepared b)" "cd_tree (active_data b) = lc_tree k"
    using assms(2) by (rule active_ok_loaded)
  have "l = k" using coherent_unique [of x _ l k] l(1,3) k(1,3) assms(3,4) by simp
  then have "active_prepared a = active_prepared b" using l(2) k(2) assms(3) by simp
  then have "active_data a = active_data b" by (simp add: active_prepared_def)
  moreover have "sn_dynamic (ac_snapshot a) = sn_dynamic (ac_snapshot b)"
    and "sn_context_profile (ac_snapshot a) = sn_context_profile (ac_snapshot b)"
    using assms(1-3) by (simp_all add: active_ok_def)
  ultimately show ?thesis
    unfolding replica_of_def renumbered_def using assms(3) by (intro active_context.equality) simp_all
qed

subsection \<open>The service on a renumbered context\<close>

lemma renumbered_validate [simp]:
  "validate_candidate x (renumbered a g) sn p = validate_candidate x a sn p"
  "validate_candidate x a (ac_snapshot (renumbered a g)) p = validate_candidate x a (ac_snapshot a) p"
  by (simp_all add: validate_candidate_def cong: if_cong)

lemma renumbered_expected [simp]:
  "expected_duplicate_tree x model (ac_snapshot (renumbered a g)) r is = expected_duplicate_tree x model (ac_snapshot a) r is"
  by (simp add: expected_duplicate_tree_def check_duplicate_rules_def)

lemma renumbered_target [simp]:
  "check_target_rule (ac_snapshot (renumbered a g)) t m = check_target_rule (ac_snapshot a) t m"
  by (cases m) (simp_all add: check_target_rule_def cong: if_cong)

lemma renumbered_patched [simp]:
  "patched_tree x model sids (ac_snapshot (renumbered a g)) t = patched_tree x model sids (ac_snapshot a) t"
  by (simp add: patched_tree_def)

lemma renumbered_prepare [simp]:
  "prepare_candidate x (renumbered a g) tree = prepare_candidate x a tree"
  by (simp add: prepare_candidate_def)

lemma renumbered_duplicate [simp]:
  "duplicate_candidate x model (renumbered a g) operation = duplicate_candidate x model a operation"
  by (simp add: duplicate_candidate_def Let_def cong: if_cong option.case_cong)

lemma renumbered_ipatch [simp]:
  "ipatch_candidate x model (renumbered a g) request m = ipatch_candidate x model a request m"
  by (simp add: ipatch_candidate_def)

text \<open>With room in both counters a publication does the same to both, one generation up.\<close>

lemma publish_renumbered:
  assumes "active_generation a + 1 < u64_bound" and "g + 1 < u64_bound"
  shows "\<exists>a'. publish_locked a p = Some a' \<and> publish_locked (renumbered a g) p = Some (renumbered a' (g + 1))"
  using assms by (simp add: publish_locked_Some from_prepared_def renumbered_def)

text \<open>Two outcomes that agree, from the generations \<open>g\<close> and \<open>h\<close> on: equal answers and replicas for
  contexts, with as many publications. A successful duplicate also reports its generation, which is
  all that may differ.\<close>

definition agree :: "nat \<Rightarrow> nat \<Rightarrow> active_context \<times> 'r \<Rightarrow> active_context \<times> 'r \<Rightarrow> bool" where
  "agree g h p q \<longleftrightarrow> replica_of (fst p) (fst q) \<and> snd p = snd q
     \<and> active_generation (fst p) + h = active_generation (fst q) + g"

definition room :: "active_context \<Rightarrow> bool" where
  "room a \<longleftrightarrow> active_generation a + 1 < u64_bound"

lemma agree_answer [simp]: "agree (active_generation a) g (a, r) (renumbered a g, q) \<longleftrightarrow> r = q"
  by (auto simp: agree_def replica_renumbered)

lemma agree_published:
  "publish_locked a p = Some a' \<Longrightarrow> agree (active_generation a) g (a', r) (renumbered a' (Suc g), q) \<longleftrightarrow> r = q"
  by (auto simp: agree_def replica_renumbered publish_locked_facts)

lemma agree_if: "agree g h (if c then p else q) (if c then p' else q') \<longleftrightarrow> (if c then agree g h p p' else agree g h q q')"
  by simp

lemma ipatch_agree:
  assumes "room a" and "room (renumbered a g)"
  shows "agree (active_generation a) g (apply_target_ipatch x model a request m) (apply_target_ipatch x model (renumbered a g) request m)"
proof (cases "ipatch_candidate x model a request m")
  case (Inr p)
  obtain a' where "publish_locked a p = Some a'" "publish_locked (renumbered a g) p = Some (renumbered a' (g + 1))"
    using publish_renumbered [of a g p] assms by (auto simp: room_def)
  with Inr show ?thesis by (simp add: apply_target_ipatch_def publish_and_def agree_published)
qed (simp add: apply_target_ipatch_def)

lemma duplicate_agree:
  assumes "room a" and "room (renumbered a g)"
    and "apply_duplicate_operation x model a operation = (a', r)"
    and "apply_duplicate_operation x model (renumbered a g) operation = (b', q)"
  shows "replica_of a' b'" and "r \<noteq> CounterPanic" and "q \<noteq> CounterPanic"
    and "r = Answered (Inl e) \<longleftrightarrow> q = Answered (Inl e)" and "active_generation a' + g = active_generation b' + active_generation a"
proof -
  have "(replica_of a' b' \<and> active_generation a' + g = active_generation b' + active_generation a) \<and> r \<noteq> CounterPanic \<and> q \<noteq> CounterPanic \<and> (r = Answered (Inl e) \<longleftrightarrow> q = Answered (Inl e))"
  proof (cases "duplicate_candidate x model a operation")
    case (Inl f)
    with assms(3,4) show ?thesis by (auto simp: apply_duplicate_operation_def replica_renumbered)
  next
    case (Inr c)
    obtain p rule existing where c: "c = (p, rule, existing)" by (cases c) auto
    obtain n where n: "publish_locked a p = Some n" "publish_locked (renumbered a g) p = Some (renumbered n (g + 1))"
      using publish_renumbered [of a g p] assms(1,2) by (auto simp: room_def)
    let ?found = "find_tree_rule (cd_tree (active_data a)) model (dr_destination (op_request operation))"
    show ?thesis
    proof (cases existing)
      case None
      with assms(3,4) Inr c n show ?thesis
        by (auto simp: apply_duplicate_operation_def publish_and_def replica_renumbered publish_locked_facts)
    next
      case (Some old)
      show ?thesis
      proof (cases ?found)
        case found: (Inr f)
        with assms(3,4) Inr c Some show ?thesis
          by (cases f) (auto simp: apply_duplicate_operation_def Let_def replica_renumbered split: if_splits)
      qed (use assms(3,4) Inr c Some in \<open>auto simp: apply_duplicate_operation_def Let_def replica_renumbered\<close>)
    qed
  qed
  then show "replica_of a' b'" and "r \<noteq> CounterPanic" and "q \<noteq> CounterPanic"
    and "r = Answered (Inl e) \<longleftrightarrow> q = Answered (Inl e)" and "active_generation a' + g = active_generation b' + active_generation a"
    by simp_all
qed

lemma target_ipatch_agree:
  assumes "room a" and "room (renumbered a g)"
  shows "agree (active_generation a) g (handle_target_ipatch x model a packet) (handle_target_ipatch x model (renumbered a g) packet)"
proof (cases "packet_to_request x packet ''schc''")
  case request: (Inr request)
  show ?thesis
  proof (cases "parse_if_match_option packet")
    case (Inr m)
    have *: "agree (active_generation a) g (apply_target_ipatch x model a request m) (apply_target_ipatch x model (renumbered a g) request m)"
      using assms by (rule ipatch_agree)
    obtain a' r b' where r: "apply_target_ipatch x model a request m = (a', r)"
        "apply_target_ipatch x model (renumbered a g) request m = (b', r)" and "replica_of a' b'"
        "active_generation a' + g = active_generation b' + active_generation a"
      using * by (cases "apply_target_ipatch x model a request m"; cases "apply_target_ipatch x model (renumbered a g) request m")
        (auto simp: agree_def)
    then show ?thesis
      by (cases r; cases "case r of Answered q \<Rightarrow> q | CounterPanic \<Rightarrow> Inr ChangedResponse")
        (auto simp: handle_target_ipatch_def request Inr agree_def)
  qed (simp add: handle_target_ipatch_def request)
qed (simp add: handle_target_ipatch_def)

text \<open>Reading does not depend on the generation either.\<close>

lemma renumbered_reads [simp]:
  "handle_context_check x (renumbered a g) packet = handle_context_check x a packet"
  "read_tree (renumbered a g) = read_tree a"
  by (simp_all add: handle_context_check_def read_tree_def)

lemma datagram_agree:
  assumes "room a" and "room (renumbered a g)"
  shows "agree (active_generation a) g (handle_datagram x model a datagram) (handle_datagram x model (renumbered a g) datagram)"
proof (cases "lite_from_bytes x datagram")
  case (Inr packet)
  with target_ipatch_agree [OF assms, of x model packet] show ?thesis
    by (simp add: handle_datagram_def handle_packet_def agree_if cong: sum.case_cong)
qed (simp add: handle_datagram_def)

lemma silent_agree:
  assumes "room a" and "room (renumbered a g)"
  shows "agree (active_generation a) g (handle_datagram_no_response x model a datagram) (handle_datagram_no_response x model (renumbered a g) datagram)"
proof (cases "lite_from_bytes x datagram")
  case packet: (Inr packet)
  show ?thesis
  proof (cases "is_duplicate_rule_coap_shape packet")
    case shape: True
    show ?thesis
    proof (cases "decode_duplicate_operation x model (lp_payload packet)")
      case (Inr operation)
      obtain a' r where a: "apply_duplicate_operation x model a operation = (a', r)"
        by (cases "apply_duplicate_operation x model a operation")
      obtain b' q where b: "apply_duplicate_operation x model (renumbered a g) operation = (b', q)"
        by (cases "apply_duplicate_operation x model (renumbered a g) operation")
      note same = duplicate_agree [OF assms a b]
      obtain u v where r: "r = Answered u" and q: "q = Answered v" using same(2,3) by (cases r; cases q) auto
      have same_error: "v = Inl e" if "u = Inl e" for e using same(4) [of e] r q that by simp
      have error_same: "u = Inl e" if "v = Inl e" for e using same(4) [of e] r q that by simp
      have uv: "(case u of Inl e \<Rightarrow> Inl e | Inr _ \<Rightarrow> Inr ()) = (case v of Inl e \<Rightarrow> Inl e | Inr _ \<Rightarrow> Inr ())"
      proof (cases u)
        case (Inl e)
        with same_error [OF this] show ?thesis by simp
      next
        case (Inr w)
        with error_same show ?thesis by (cases v) auto
      qed
      have "handle_datagram_no_response x model c datagram
          = (c', Answered (attempt (case w of Inl e \<Rightarrow> Inl e | Inr _ \<Rightarrow> Inr ()) (\<lambda>_. Inr None)))"
        if "apply_duplicate_operation x model c operation = (c', Answered w)" for c c' w
        using that by (cases w) (simp_all add: handle_datagram_no_response_def packet shape Inr)
      from this [OF a [unfolded r]] this [OF b [unfolded q]] uv same(1,5) show ?thesis by (simp add: agree_def)
    qed (simp add: handle_datagram_no_response_def packet shape)
  next
    case False
    have *: "agree (active_generation a) g (handle_datagram x model a datagram) (handle_datagram x model (renumbered a g) datagram)"
      using assms by (rule datagram_agree)
    obtain a' r b' where r: "handle_datagram x model a datagram = (a', r)"
        "handle_datagram x model (renumbered a g) datagram = (b', r)" and "replica_of a' b'"
        "active_generation a' + g = active_generation b' + active_generation a"
      using * by (cases "handle_datagram x model a datagram"; cases "handle_datagram x model (renumbered a g) datagram")
        (auto simp: agree_def)
    then show ?thesis by (cases r) (auto simp: handle_datagram_no_response_def packet False agree_def)
  qed
qed (simp add: handle_datagram_no_response_def)

lemma replicas_silent:
  assumes "replica_of a b" and "room a" and "room b"
  shows "agree (active_generation a) (active_generation b) (handle_datagram_no_response x model a datagram) (handle_datagram_no_response x model b datagram)"
  using silent_agree [OF assms(2), of "active_generation b" x model datagram] assms(1,3) by (metis replica_of_def)

lemma replicas_datagram:
  assumes "replica_of a b" and "room a" and "room b"
  shows "agree (active_generation a) (active_generation b) (handle_datagram x model a datagram) (handle_datagram x model b datagram)"
  using datagram_agree [OF assms(2), of "active_generation b" x model datagram] assms(1,3) by (metis replica_of_def)

subsection \<open>Runs of the service\<close>

text \<open>The answers of the service to a sequence of datagrams.\<close>

fun answers ::
  "'x flow_ext_scheme \<Rightarrow> coreconf_model \<Rightarrow> active_context \<Rightarrow> bytes list
    \<Rightarrow> (inspection_error + bytes option) outcome list" where
  "answers x model a [] = []"
| "answers x model a (d # ds) =
     (let (a', r) = handle_datagram_no_response x model a d in r # answers x model a' ds)"

lemma silent_generation:
  "handle_datagram_no_response x model a d = (a', r) \<Longrightarrow> active_generation a' \<le> active_generation a + 1"
  using no_response_step [of x model a d a' r] publication_facts(1) [of x a a'] by auto

text \<open>C8: The two services are replicas of one state machine. Coherent contexts of the same construction
  parameters and with the same tree, whatever their generations, give the same answer to every
  datagram of any sequence, errors included, and hold the same rules, tree, digest and tag after it,
  as long as the sequence does not exhaust a generation counter.\<close>

theorem replicas_agree:
  assumes "active_ok x a" and "active_ok x b" and "ac_recipe a = ac_recipe b"
    and "cd_tree (active_data a) = cd_tree (active_data b)"
    and "active_generation a + length ds < u64_bound" and "active_generation b + length ds < u64_bound"
  shows "answers x model a ds = answers x model b ds
    \<and> active_data (handle_all x model a ds) = active_data (handle_all x model b ds)"
proof -
  have "replica_of a b" using assms(1-4) by (rule replica_of_tree)
  then have "answers x model a ds = answers x model b ds \<and> replica_of (handle_all x model a ds) (handle_all x model b ds)"
    using assms(5,6)
  proof (induction ds arbitrary: a b)
    case (Cons d ds)
    obtain a' r where a: "handle_datagram_no_response x model a d = (a', r)"
      by (cases "handle_datagram_no_response x model a d")
    obtain b' q where b: "handle_datagram_no_response x model b d = (b', q)"
      by (cases "handle_datagram_no_response x model b d")
    have "room a" and "room b" using Cons.prems(2,3) by (simp_all add: room_def)
    with Cons.prems(1) have "agree (active_generation a) (active_generation b) (a', r) (b', q)" using replicas_silent [of a b x model d] a b by simp
    moreover have "active_generation a' + length ds < u64_bound" and "active_generation b' + length ds < u64_bound"
      using silent_generation [OF a] silent_generation [OF b] Cons.prems(2,3) by simp_all
    ultimately show ?case using Cons.IH [of a' b'] by (simp add: a b agree_def)
  qed simp
  then show ?thesis using replica_facts(1) by metis
qed

text \<open>The device has started with the same tree and has a generation of its own.\<close>

lemma replicas_agree_witness:
  "answers world world_model world_active [[1], [2]] = answers world world_model (renumbered world_active 7) [[1], [2]]"
proof -
  have "active_ok world (renumbered world_active 7)"
    using world_active_ok unfolding active_ok_def active_prepared_def
    by (simp add: renumbered_def u64_bound_def)
  from replicas_agree [OF world_active_ok this, of "[[1], [2]]" world_model] show ?thesis
    by (simp add: u64_bound_def)
qed

end
