(* ===== verification/Channel.thy ===== *)
theory Channel
  imports Endpoint Console Replicas
begin

text \<open>
  The core and the device as one system: what either program sends over the management plane is read
  by the other. The two programs of \<open>src/bin\<close> run on their own, each with its own context and its own
  environment; they share the bytes of the frames and the policy they were started with.
\<close>

subsection \<open>What is assumed of the libraries\<close>

text \<open>The packet parser reads a packet from its own bytes.\<close>

definition readable :: "'x packet_ext_scheme \<Rightarrow> coap_packet \<Rightarrow> bool" where
  "readable x p \<longleftrightarrow>
     (case parse_udp_packet x (ud_bytes p) of
        Inl _ \<Rightarrow> False
      | Inr u \<Rightarrow> ud_bytes u = ud_bytes p \<and> coap_from_udp x u = Inr p)"

text \<open>The two CoAP parsers agree on a message: the strict one of the packet and the one of the service.\<close>

fun type_number :: "lite_type \<Rightarrow> nat" where
  "type_number Confirmable = coap_confirmable"
| "type_number NonConfirmable = coap_non_confirmable"
| "type_number Acknowledgement = coap_acknowledgement"
| "type_number ResetMessage = 3"

definition reads_alike :: "'x packet_ext_scheme \<Rightarrow> coap_packet \<Rightarrow> bytes \<Rightarrow> bool" where
  "reads_alike x p datagram \<longleftrightarrow>
     (case lite_from_bytes x datagram of
        Inl _ \<Rightarrow> True
      | Inr l \<Rightarrow> cm_message_id (cp_message p) = lp_message_id l \<and> cm_token (cp_message p) = lp_token l
          \<and> cm_type (cp_message p) = type_number (lp_type l) \<and> cm_payload (cp_message p) = lp_payload l
          \<and> (case lp_code l of LiteResponse c \<Rightarrow> cm_code (cp_message p) = c | _ \<Rightarrow> True))"

text \<open>A packet made of a datagram has it as its payload and the addresses and ports it was made with.\<close>

definition packet_law :: "'x packet_ext_scheme \<Rightarrow> bool" where
  "packet_law x \<longleftrightarrow>
     (\<forall>source destination datagram p.
        coap_packet_new x source destination management_port management_port datagram = Inr p
        \<longrightarrow> ud_payload p = datagram \<and> oriented source destination management_port p
          \<and> readable x p \<and> reads_alike x p datagram)"

lemma packet_lawD:
  assumes "packet_law x" and "coap_packet_new x source destination management_port management_port datagram = Inr p"
  shows "ud_payload p = datagram" and "oriented source destination management_port p"
    and "readable x p" and "reads_alike x p datagram"
  using assms by (auto simp: packet_law_def)

text \<open>
  The SCHC codec works rule by rule: what one runtime compresses under a rule, another runtime of the
  same device decompresses when its context has the same rule, whatever its other rules are (RuleIDs
  are prefix free), and when it selects this rule itself it compresses the packet to the same frame.
\<close>

definition codec_law :: "'x packet_ext_scheme \<Rightarrow> bool" where
  "codec_law x \<longleftrightarrow>
     (\<forall>d profile c c' r q.
        runtime_new x d c profile = Inr r \<longrightarrow> runtime_new x d c' profile = Inr q \<longrightarrow>
        rt_device r = d \<and>
        (\<forall>role packet e rule.
           encode_detailed r d (role_outbound x role) packet = Inr e \<longrightarrow>
           find_rule c (enc_rule_id e) = Some rule \<longrightarrow> find_rule c' (enc_rule_id e) = Some rule \<longrightarrow>
           frame_data (enc_frame e) \<noteq> [] \<and>
           decode_padded_detailed q d (role_inbound x (peer_role role)) (frame_data (enc_frame e))
             = Inr \<lparr>dec_rule_id = enc_rule_id e, dec_packet = packet\<rparr> \<and>
           (\<forall>e'. encode_detailed q d (role_outbound x role) packet = Inr e' \<longrightarrow> enc_rule_id e' = enc_rule_id e \<longrightarrow> e' = e)))"

text \<open>The two contexts select the same rule for a packet. The link checks this itself: a frame that
  its own context would have encoded otherwise is refused as not canonical.\<close>

definition selects_alike :: "'x packet_ext_scheme \<Rightarrow> active_context \<Rightarrow> active_context \<Rightarrow> node_role \<Rightarrow> coap_packet \<Rightarrow> bool" where
  "selects_alike x a b role p \<longleftrightarrow>
     (let r = cd_runtime (active_data a); q = cd_runtime (active_data b) in
      map_sum (\<lambda>_. ()) enc_rule_id (encode_detailed r (rt_device r) (role_outbound x role) (ud_bytes p))
      = map_sum (\<lambda>_. ()) enc_rule_id (encode_detailed q (rt_device q) (role_outbound x role) (ud_bytes p)))"

lemma selects_alike_same: "active_data b = active_data a \<Longrightarrow> selects_alike x a b role p"
  by (simp add: selects_alike_def)

subsection \<open>One frame\<close>

text \<open>A protected rule is a rule of the context that the runtime is built from.\<close>

lemma derive_finds:
  assumes "derive ctx = Inr ps" and "p \<in> set ps"
  shows "pr_id p \<in> set (management_ids ctx) \<and> find_rule ctx (pr_id p) = Some (pr_rule p)"
proof -
  have "\<forall>p \<in> set ps. pr_id p \<in> set is \<and> find_rule ctx (pr_id p) = Some (pr_rule p)"
    if "list_all2 (\<lambda>i p. find_rule ctx i = Some (pr_rule p) \<and> pr_id p = i) is ps" for "is"
    using that by (induction rule: list_all2_induct) auto
  with assms show ?thesis by (simp add: derive_Inr)
qed

lemma from_loaded_runtime:
  "from_loaded x rc l = Inr p \<Longrightarrow>
     runtime_new x (rc_device rc) (lc_rule_context l) (rc_profile rc) = Inr (cd_runtime (pc_data p))"
  by (auto simp: from_loaded_def result_simps)

lemma active_runtime:
  assumes "active_ok x a"
  shows "\<exists>c. runtime_new x (rc_device (ac_recipe a)) c (rc_profile (ac_recipe a)) = Inr (cd_runtime (active_data a))
    \<and> (\<forall>p \<in> set (cd_protected (active_data a)).
      find_rule c (pr_id p) = Some (pr_rule p) \<and> contains_rule_id (ac_snapshot a) (pr_id p))"
proof -
  obtain l where l: "coherent x (rc_sid_json (ac_recipe a)) l"
      "from_loaded x (ac_recipe a) l = Inr (active_prepared a)" "cd_tree (active_data a) = lc_tree l"
    using assms by (rule active_ok_loaded)
  let ?c = "lc_rule_context l"
  have d: "derive ?c = Inr (cd_protected (active_data a))"
    and ids: "cd_rule_ids (active_data a) = map rule_id_of (ctx_rules ?c)"
    using l(1) from_loaded_recipe(8,10) [OF l(2)] by (auto simp: coherent_def active_prepared_def)
  have "find_rule ?c (pr_id p) = Some (pr_rule p) \<and> contains_rule_id (ac_snapshot a) (pr_id p)"
    if "p \<in> set (cd_protected (active_data a))" for p
    using derive_finds [OF d that] by (auto simp: contains_rule_id_def ids management_ids_def)
  moreover have "runtime_new x (rc_device (ac_recipe a)) ?c (rc_profile (ac_recipe a)) = Inr (cd_runtime (active_data a))"
    using from_loaded_runtime [OF l(2)] by (simp add: active_prepared_def)
  ultimately show ?thesis by blast
qed

lemma carried:
  assumes "codec_law x" and "active_ok x a" and "active_ok x b"
    and "cd_protected (active_data b) = cd_protected (active_data a)"
    and "rc_device (ac_recipe b) = rc_device (ac_recipe a)" and "rc_profile (ac_recipe b) = rc_profile (ac_recipe a)"
    and "selects_alike x a b role p"
    and "encode_detailed (cd_runtime (active_data a)) (rt_device (cd_runtime (active_data a))) (role_outbound x role) (ud_bytes p) = Inr e"
    and "protected_contains (cd_protected (active_data a)) (enc_rule_id e)"
  shows "frame_data (enc_frame e) \<noteq> []"
    and "decode_padded_detailed (cd_runtime (active_data b)) (rt_device (cd_runtime (active_data b)))
      (role_inbound x (peer_role role)) (frame_data (enc_frame e)) = Inr \<lparr>dec_rule_id = enc_rule_id e, dec_packet = ud_bytes p\<rparr>"
    and "encode_detailed (cd_runtime (active_data b)) (rt_device (cd_runtime (active_data b))) (role_outbound x role) (ud_bytes p) = Inr e"
    and "contains_rule_id (ac_snapshot b) (enc_rule_id e)"
proof -
  let ?r = "cd_runtime (active_data a)" and ?q = "cd_runtime (active_data b)" and ?d = "rc_device (ac_recipe a)"
  obtain c where c: "runtime_new x ?d c (rc_profile (ac_recipe a)) = Inr ?r"
    "\<forall>p \<in> set (cd_protected (active_data a)). find_rule c (pr_id p) = Some (pr_rule p) \<and> contains_rule_id (ac_snapshot a) (pr_id p)"
    using active_runtime [OF assms(2)] by blast
  obtain c' where c': "runtime_new x ?d c' (rc_profile (ac_recipe a)) = Inr ?q"
    "\<forall>p \<in> set (cd_protected (active_data a)). find_rule c' (pr_id p) = Some (pr_rule p) \<and> contains_rule_id (ac_snapshot b) (pr_id p)"
    using active_runtime [OF assms(3)] unfolding assms(4-6) by blast
  obtain pr where pr: "pr \<in> set (cd_protected (active_data a))" "pr_id pr = enc_rule_id e"
    using assms(9) by (auto simp: protected_contains_def list_ex_iff)
  have dev: "rt_device ?r = ?d" "rt_device ?q = ?d" using assms(1) c(1) c'(1) unfolding codec_law_def by blast+
  have rules: "find_rule c (enc_rule_id e) = Some (pr_rule pr)" "find_rule c' (enc_rule_id e) = Some (pr_rule pr)"
    using c(2) c'(2) pr by metis+
  have law: "frame_data (enc_frame e) \<noteq> [] \<and> decode_padded_detailed ?q ?d (role_inbound x (peer_role role)) (frame_data (enc_frame e))
        = Inr \<lparr>dec_rule_id = enc_rule_id e, dec_packet = ud_bytes p\<rparr> \<and>
      (\<forall>e'. encode_detailed ?q ?d (role_outbound x role) (ud_bytes p) = Inr e' \<longrightarrow> enc_rule_id e' = enc_rule_id e \<longrightarrow> e' = e)"
    using assms(1) [unfolded codec_law_def] c(1) c'(1) assms(8) [unfolded dev] rules by blast
  then show "frame_data (enc_frame e) \<noteq> []"
    and "decode_padded_detailed ?q (rt_device ?q) (role_inbound x (peer_role role)) (frame_data (enc_frame e))
      = Inr \<lparr>dec_rule_id = enc_rule_id e, dec_packet = ud_bytes p\<rparr>" by (simp_all add: dev)
  show "contains_rule_id (ac_snapshot b) (enc_rule_id e)" using c'(2) pr by metis
  obtain e' where "encode_detailed ?q ?d (role_outbound x role) (ud_bytes p) = Inr e'" "enc_rule_id e' = enc_rule_id e"
    using assms(7,8) by (cases "encode_detailed ?q ?d (role_outbound x role) (ud_bytes p)") (auto simp: selects_alike_def dev Let_def)
  with law show "encode_detailed ?q (rt_device ?q) (role_outbound x role) (ud_bytes p) = Inr e" by (simp add: dev)
qed

text \<open>A management frame of one side is decoded by the other on the management route, to the packet it
  was made of.\<close>

lemma decode_carried:
  assumes "encode_packet x a (link_new a role) OriginManagement p = Inr enc"
    and "codec_law x" and "active_ok x a" and "active_ok x b"
    and "cd_protected (active_data b) = cd_protected (active_data a)"
    and "rc_device (ac_recipe b) = rc_device (ac_recipe a)" and "rc_profile (ac_recipe b) = rc_profile (ac_recipe a)"
    and "readable x p" and "selects_alike x a b role p"
  shows "\<exists>d. decode_frame x b (link_new b (peer_role role)) (frame_data (le_frame enc)) = Inr d
    \<and> lk_packet d = p \<and> lk_route d = RouteProtectedManagement"
proof -
  obtain u where u: "parse_udp_packet x (ud_bytes p) = Inr u" "ud_bytes u = ud_bytes p" "coap_from_udp x u = Inr p"
    using assms(8) by (auto simp: readable_def split: sum.splits)
  obtain e where e: "encode_detailed (cd_runtime (active_data a)) (rt_device (cd_runtime (active_data a)))
        (role_outbound x role) (ud_bytes p) = Inr e"
    and prot: "protected_contains (cd_protected (active_data a)) (enc_rule_id e)"
    and enc: "frame_data (le_frame enc) = frame_data (enc_frame e)"
    using assms(1) by (auto simp: encode_packet_def encode_validated_Inr_iff link_new_def origin_runtime_def Let_def)
  note q = carried [OF assms(2-7,9) e prot]
  have prot_b: "protected_contains (cd_protected (active_data b)) (enc_rule_id e)" using prot assms(5) by simp
  have "classify (ac_snapshot b) (enc_rule_id e) = Inr ProtectedManagement"
    using q(4) prot_b by (simp add: classify_def)
  moreover have "peer_role (peer_role role) = role" by (cases role) simp_all
  ultimately show ?thesis
    using q(1-3) u prot_b
    by (simp add: decode_frame_def decode_link_packet_def decode_runtimes_def canonical_runtime_def link_new_def enc Let_def)
qed

subsection \<open>A request\<close>

lemma receive_request:
  assumes "encode_packet x a (link_new a RoleCore) OriginManagement p = Inr enc"
    and "codec_law x" and "packet_law x" and "active_ok x a" and "active_ok x (de_active t)"
    and "cd_protected (active_data (de_active t)) = cd_protected (active_data a)"
    and "rc_device (ac_recipe (de_active t)) = rc_device (ac_recipe a)"
    and "rc_profile (ac_recipe (de_active t)) = rc_profile (ac_recipe a)"
    and "selects_alike x a (de_active t) RoleCore p"
    and "coap_packet_new x core_logical_address device_logical_address management_port management_port datagram = Inr p"
  shows "\<exists>u. de_active u = de_active t \<and> ma_sent (de_machine u) = ma_sent (de_machine t)
    \<and> ma_calls (de_machine u) = ma_calls (de_machine t)
    \<and> receive_device_frame x model env (frame_data (le_frame enc)) False t =
        (if is_duplicate_rule_datagram x datagram then device_duplicate x model datagram u
         else device_request x model env datagram False u)"
proof -
  note law = packet_lawD [OF assms(3,10)]
  obtain d where d: "decode_frame x (de_active t) (link_new (de_active t) RoleDevice) (frame_data (le_frame enc)) = Inr d"
      "lk_packet d = p" "lk_route d = RouteProtectedManagement"
    using decode_carried [OF assms(1,2,4-8) law(3) assms(9)] by auto
  let ?u = "fst (on_machine (\<lambda>m. fail_as Fatal (print_report x Rx (lk_report d) False m)) t)"
  have "receive_device_frame x model env (frame_data (le_frame enc)) False t = device_route x model env d False ?u"
    using d(1) by (simp add: receive_device_frame_def and_then_ok [OF _] fail_as_ok [OF decoded_report_prints [OF d(1)]]
        and_then_ok [where v = "()"])
  then show ?thesis using d(2,3) law(1,2) by (intro exI [of _ ?u]) (simp add: device_route_def Let_def)
qed

text \<open>C6: The management plane never locks itself out. Whatever the two programs have done since they were
  started with the same protected rules, for any inputs and any environments, a management request
  that the core can still send is decoded on the management route of the device and given to its
  service, unchanged, as long as the device's rules select the same rule for it and the device does not
  report details when the request arrives. The codec is only
  assumed to decompress under a rule that both contexts have; that they have it is the policy.\<close>

theorem management_channel_survives:
  assumes "core_loop x cfg once interactive inputs s = Some (s', q)"
    and "t' = fst (device_loop x model env once' debug n t)"
    and "active_ok x (co_active s)" and "active_ok x (de_active t)"
    and "cd_protected (active_data (co_active s)) = cd_protected (active_data (de_active t))"
    and "rc_device (ac_recipe (co_active s)) = rc_device (ac_recipe (de_active t))"
    and "rc_profile (ac_recipe (co_active s)) = rc_profile (ac_recipe (de_active t))"
    and "codec_law x" and "packet_law x"
    and "coap_packet_new x core_logical_address device_logical_address management_port management_port datagram = Inr p"
    and "encode_packet x (co_active s') (link_new (co_active s') RoleCore) OriginManagement p = Inr enc"
    and "selects_alike x (co_active s') (de_active t') RoleCore p"
  shows "\<exists>u. de_active u = de_active t' \<and> ma_sent (de_machine u) = ma_sent (de_machine t')
    \<and> ma_calls (de_machine u) = ma_calls (de_machine t')
    \<and> receive_device_frame x model env (frame_data (le_frame enc)) False t' =
        (if is_duplicate_rule_datagram x datagram then device_duplicate x model datagram u
         else device_request x model env datagram False u)"
proof -
  have t: "(publication x)\<^sup>*\<^sup>* (de_active t) (de_active t')" using device_loop_run assms(2) by blast
  note device = writer.run_ok [OF t assms(4)] and core = writer.run_ok [OF core_loop_run [OF assms(1)] assms(3)]
  have "active_ok x (co_active s')" and "active_ok x (de_active t')" using device core by blast+
  moreover have "cd_protected (active_data (de_active t')) = cd_protected (active_data (co_active s'))"
    and "ac_recipe (de_active t') = ac_recipe (de_active t)" and "ac_recipe (co_active s') = ac_recipe (co_active s)"
    using device core assms(5) by simp_all
  ultimately show ?thesis using assms(6,7) by (intro receive_request [OF assms(11,8,9) _ _ _ _ _ assms(12,10)]) simp_all
qed

end
