(* ===== verification/Rounds.thy ===== *)
theory Rounds
  imports Channel
begin

text \<open>
  The commands of the console that change both contexts, from the terminal of the core to the service
  of the device: what \<open>execute_rule_duplicate\<close> and \<open>execute_rule_update\<close> of
  \<open>bin/schc-coreconf-core.rs\<close> leave on the link, what \<open>receive_device_frame\<close> of
  \<open>bin/schc-coreconf-device.rs\<close> makes of it, and the way of the answer back.
\<close>

subsection \<open>A duplicate, end to end\<close>

lemma say_sent [simp]: "ma_sent (co_machine (say t s)) = ma_sent (co_machine s)"
  by (simp add: say_def)

lemma fresh_id_sent [simp]: "co_machine (fst (fresh_id s)) = co_machine s"
  by (simp add: fresh_id_def case_prod_beta)

lemma silent_answer_shape:
  "handle_datagram_no_response x model a datagram = (a', Answered (Inr None)) \<Longrightarrow> is_duplicate_rule_datagram x datagram"
  by (auto simp: handle_datagram_no_response_def is_duplicate_rule_datagram_def attempt_Inr_iff
      split: sum.splits if_splits prod.splits outcome.splits)

lemma apply_duplicate_locally_Successful:
  assumes "apply_duplicate_locally x cfg sel datagram v = (t, Inr CommandSuccessful)"
  shows "handle_datagram_no_response x (cfg_model cfg) (co_active v) datagram = (co_active t, Answered (Inr None))"
    and "ma_sent (co_machine t) = ma_sent (co_machine v)"
proof -
  obtain a answer where a: "handle_datagram_no_response x (cfg_model cfg) (co_active v) datagram = (a, answer)"
    by (cases "handle_datagram_no_response x (cfg_model cfg) (co_active v) datagram")
  show "handle_datagram_no_response x (cfg_model cfg) (co_active v) datagram = (co_active t, Answered (Inr None))"
    and "ma_sent (co_machine t) = ma_sent (co_machine v)"
    using assms a
    by (auto simp: apply_duplicate_locally_def finish_duplicate_def Let_def split: outcome.splits sum.splits option.splits)
qed

lemma send_duplicate_sends:
  assumes "snd (send_duplicate x cfg datagram u) = Inr ()"
  obtains p enc where "coap_packet_new x core_logical_address device_logical_address management_port management_port datagram = Inr p"
    and "encode_packet x (co_active u) (link_new (co_active u) RoleCore) OriginManagement p = Inr enc"
    and "ma_sent (co_machine (fst (send_duplicate x cfg datagram u))) = ma_sent (co_machine u) @ [le_frame enc]"
proof -
  obtain p where p: "coap_packet_new x core_logical_address device_logical_address management_port management_port datagram = Inr p"
    using assms by (auto simp: send_duplicate_def split: sum.splits)
  obtain enc where enc: "encode_packet x (co_active u) (link_new (co_active u) RoleCore) OriginManagement p = Inr enc"
    using assms p by (auto simp: send_duplicate_def split: sum.splits)
  obtain m r where m: "print_report x Tx (le_report enc) (cfg_debug cfg) (co_machine u) = (m, r)"
    by (cases "print_report x Tx (le_report enc) (cfg_debug cfg) (co_machine u)")
  then have sent: "ma_sent m = ma_sent (co_machine u)" using print_report_logs(1) by (metis fst_conv)
  obtain v where r: "r = Inr v" using assms p enc m by (cases r) (auto simp: send_duplicate_def)
  with assms p enc m have "snd (do_send (cfg_env cfg) (le_frame enc) m) = Inr ()"
    by (cases "snd (do_send (cfg_env cfg) (le_frame enc) m)") (simp_all add: send_duplicate_def case_prod_beta fail_as_def)
  with p enc m sent r that show thesis by (simp add: send_duplicate_def case_prod_beta)
qed

lemma device_duplicate_active_eq:
  "de_active (fst (device_duplicate x model datagram u)) = fst (handle_datagram_no_response x model (de_active u) datagram)"
  by (simp add: device_duplicate_def Let_def case_prod_beta split: outcome.splits sum.splits option.splits)

text \<open>Replicas select the same rules.\<close>

lemma receive_same_request:
  assumes "encode_packet x a (link_new a RoleCore) OriginManagement p = Inr enc"
    and "codec_law x" and "packet_law x" and "active_ok x a" and "active_ok x (de_active w)" and "replica_of a (de_active w)"
    and "coap_packet_new x core_logical_address device_logical_address management_port management_port datagram = Inr p"
  shows "\<exists>u. de_active u = de_active w \<and> ma_sent (de_machine u) = ma_sent (de_machine w)
    \<and> ma_calls (de_machine u) = ma_calls (de_machine w)
    \<and> receive_device_frame x model env (frame_data (le_frame enc)) False w =
        (if is_duplicate_rule_datagram x datagram then device_duplicate x model datagram u
         else device_request x model env datagram False u)"
  using replica_facts [OF assms(6)]
  by (intro receive_request [OF assms(1-5) _ _ _ _ assms(7)]) (simp_all add: selects_alike_same)

text \<open>C5: A duplicate that the console reports as done has left one frame on the link, and the device that
  receives this frame, and reports no details, holds the same context afterwards: when both sides started
  from the same tree with the same construction parameters, they have the same rules, tree, digest and
  tag after it, although the request is never acknowledged.\<close>

theorem duplicate_reaches_device:
  assumes "execute_rule_duplicate x cfg command (send_duplicate x cfg) s = Some (t, Inr CommandSuccessful)"
    and "active_ok x (co_active s)" and "active_ok x (de_active w)"
    and "ac_recipe (co_active s) = ac_recipe (de_active w)"
    and "cd_tree (active_data (co_active s)) = cd_tree (active_data (de_active w))"
    and "room (co_active s)" and "room (de_active w)"
    and "codec_law x" and "packet_law x"
  shows "\<exists>frame. ma_sent (co_machine t) = ma_sent (co_machine s) @ [frame]
    \<and> active_data (de_active (fst (receive_device_frame x (cfg_model cfg) env (frame_data frame) False w)))
      = active_data (co_active t)"
proof -
  have same: "replica_of (co_active s) (de_active w)" using assms(2-5) by (rule replica_of_tree)
  from assms(1) send_duplicate_active
  obtain datagram u sel where sent: "snd (send_duplicate x cfg datagram u) = Inr ()" and u: "co_active u = co_active s"
    "ma_sent (co_machine u) = ma_sent (co_machine s)"
    and local: "apply_duplicate_locally x cfg sel datagram (fst (send_duplicate x cfg datagram u)) = (t, Inr CommandSuccessful)"
    by (rule execute_rule_duplicate_cases) (simp, metis fresh_id_sent)
  obtain p enc where p: "coap_packet_new x core_logical_address device_logical_address management_port management_port datagram = Inr p"
    and enc: "encode_packet x (co_active u) (link_new (co_active u) RoleCore) OriginManagement p = Inr enc"
    and frame: "ma_sent (co_machine (fst (send_duplicate x cfg datagram u))) = ma_sent (co_machine u) @ [le_frame enc]"
    using sent by (rule send_duplicate_sends)
  note applied = apply_duplicate_locally_Successful [OF local]
  then have core: "handle_datagram_no_response x (cfg_model cfg) (co_active s) datagram = (co_active t, Answered (Inr None))"
    by (simp add: send_duplicate_active u)
  from receive_same_request [OF enc assms(8,9) _ assms(3) _ p, of "cfg_model cfg" env] same assms(2) u
  obtain v where v: "de_active v = de_active w"
    "receive_device_frame x (cfg_model cfg) env (frame_data (le_frame enc)) False w = device_duplicate x (cfg_model cfg) datagram v"
    using silent_answer_shape [OF core] by auto
  have "agree (active_generation (co_active s)) (active_generation (de_active w)) (co_active t, Answered (Inr None)) (handle_datagram_no_response x (cfg_model cfg) (de_active w) datagram)"
    using replicas_silent [OF same assms(6,7), of x "cfg_model cfg" datagram] core by simp
  then have "active_data (de_active (fst (device_duplicate x (cfg_model cfg) datagram v))) = active_data (co_active t)"
    using v(1) by (simp add: device_duplicate_active_eq agree_def replica_facts(1))
  with v(2) applied(2) frame u(2) show ?thesis by auto
qed

subsection \<open>An update, end to end\<close>

text \<open>The law of the CoAP library: what it has written it reads back.\<close>

definition coap_readback :: "'x packet_ext_scheme \<Rightarrow> bool" where
  "coap_readback x \<longleftrightarrow> (\<forall>packet bs. lite_to_bytes x packet = Inr bs \<longrightarrow> lite_from_bytes x bs = Inr packet)"

lemma prepared_request:
  assumes "fst (prepare_management_request x a lk datagram EmptyToken n) = Inr prepared"
    and "coap_readback x" and "lite_to_bytes x packet = Inr datagram" and "lp_token packet = []"
  obtains p enc where "coap_packet_new x core_logical_address device_logical_address management_port management_port datagram = Inr p"
    and "encode_packet x a lk OriginManagement p = Inr enc" and "pr_frame prepared = le_frame enc"
    and "pr_report prepared = le_report enc" and "exchange_from_message (cp_message p) = Inr (pr_exchange_id prepared)"
    and "\<not> is_duplicate_rule_datagram x datagram"
proof -
  have "lite_from_bytes x datagram = Inr packet" using assms(2,3) by (simp add: coap_readback_def)
  moreover have "packet\<lparr>lp_token := []\<rparr> = packet" using assms(4) by simp
  ultimately have wire: "fst (apply_token_policy x datagram EmptyToken n) = Inr datagram"
    using assms(3) by (simp add: apply_token_policy_def policy_token_def)
  then have "\<not> is_duplicate_rule_datagram x datagram" and "encode_management x a lk datagram = Inr prepared"
    using assms(1) by (auto simp: prepare_management_request_def case_prod_beta split: if_splits)
  with that show thesis
    by (auto simp: encode_management_def attempt_Inr_iff map_err_Inr_iff Let_def split: if_splits)
qed

lemma ipatch_datagram_packet:
  assumes "ipatch_datagram x update i tag = Inr datagram"
  obtains packet where "lite_to_bytes x packet = Inr datagram" and "lp_token packet = []"
    and "lp_code packet = LiteRequest MIPatch" and "lp_message_id packet = i"
  using assms
  by (auto simp: ipatch_datagram_def ipatch_packet_def attempt_Inr_iff map_err_Inr_iff Let_def base_request_def
      add_option_def split: if_splits option.splits)

lemma wait_management_response_sends:
  assumes "wait_management_response x env a prepared debug timeout m = Some (m', Inr v)"
  shows "\<exists>rest. ma_sent m' = ma_sent m @ pr_frame prepared # rest"
proof -
  obtain n q where n: "do_send env (pr_frame prepared) m = (n, q)" by (cases "do_send env (pr_frame prepared) m")
  then obtain u where q: "q = Inr u" using assms by (cases q) (simp_all add: wait_management_response_def)
  with n have sent: "ma_sent n = ma_sent m @ [pr_frame prepared]"
    using do_send_logs(2) [of env "pr_frame prepared" m] by simp
  have "grows n m'"
  proof -
    from assms n q have "wait_loop (wait_step x env a prepared debug timeout (snd (now env n) + timeout)) (fst (now env n)) = Some (m', Inr v)"
      by (simp add: wait_management_response_def case_prod_beta Let_def)
    then have "grows (fst (now env n)) m'"
      by (rule wait_loop_grows) (meson grows_trans grows_simps(1) wait_step_grows)
    then show ?thesis using grows_trans grows_calls(5) by blast
  qed
  with sent show ?thesis by (auto simp: grows_def)
qed

lemma routed_sends:
  assumes "routed x cfg datagram s = Some (t, Inr v)"
  obtains prepared rest where
    "fst (prepare_management_request x (co_active s) (link_new (co_active s) RoleCore) datagram EmptyToken 0) = Inr prepared"
    and "ma_sent (co_machine t) = ma_sent (co_machine s) @ pr_frame prepared # rest" and "co_active t = co_active s"
proof -
  obtain m' where m': "exchange_management_routed x (cfg_env cfg) (co_active s) datagram (cfg_debug cfg) (co_machine s) = Some (m', Inr v)"
    and t: "t = s\<lparr>co_machine := m'\<rparr>" using assms by (auto simp: routed_def)
  then obtain prepared where p:
    "fst (prepare_management_request x (co_active s) (link_new (co_active s) RoleCore) datagram EmptyToken 0) = Inr prepared"
    by (auto simp: exchange_management_routed_def split: sum.splits)
  obtain n q where n: "print_report x Tx (pr_report prepared) (cfg_debug cfg) (co_machine s) = (n, q)"
    by (cases "print_report x Tx (pr_report prepared) (cfg_debug cfg) (co_machine s)")
  then have "ma_sent n = ma_sent (co_machine s)" using print_report_logs(1) by (metis fst_conv)
  moreover have "wait_management_response x (cfg_env cfg) (co_active s) prepared (cfg_debug cfg) operation_timeout n = Some (m', Inr v)"
    using m' p n by (cases q) (simp_all add: exchange_management_routed_def)
  ultimately show thesis using wait_management_response_sends that p t by fastforce
qed

lemma apply_update_locally_sent:
  "ma_sent (co_machine (fst (apply_update_locally x cfg what g datagram v))) = ma_sent (co_machine v)"
  by (simp add: apply_update_locally_def Let_def case_prod_beta split: outcome.split sum.split)

lemma device_request_active_eq:
  "de_active (fst (device_request x model env datagram debug u)) = fst (handle_datagram x model (de_active u) datagram)"
  by (simp add: device_request_def split: prod.split outcome.split sum.split)

text \<open>A device in step with the core does to a request what the core does to it.\<close>

lemma device_follows:
  assumes "replica_of a (de_active w)" and "active_ok x a" and "active_ok x (de_active w)"
    and "room a" and "room (de_active w)" and "codec_law x" and "packet_law x"
    and "coap_packet_new x core_logical_address device_logical_address management_port management_port datagram = Inr p"
    and "encode_packet x a (link_new a RoleCore) OriginManagement p = Inr enc"
    and "\<not> is_duplicate_rule_datagram x datagram"
    and "handle_datagram x model a datagram = (a', answer)"
  obtains z b' where "receive_device_frame x model env (frame_data (le_frame enc)) False w = device_request x model env datagram False z"
    and "de_active z = de_active w" and "ma_sent (de_machine z) = ma_sent (de_machine w)"
    and "ma_calls (de_machine z) = ma_calls (de_machine w)"
    and "handle_datagram x model (de_active w) datagram = (b', answer)" and "active_data b' = active_data a'"
    and "active_generation b' + active_generation a = active_generation a' + active_generation (de_active w)"
proof -
  from receive_same_request [OF assms(9,6,7,2,3,1,8), of model env] assms(10)
  obtain z where z: "de_active z = de_active w" "ma_sent (de_machine z) = ma_sent (de_machine w)"
    "ma_calls (de_machine z) = ma_calls (de_machine w)"
    "receive_device_frame x model env (frame_data (le_frame enc)) False w = device_request x model env datagram False z"
    by auto
  obtain b' q where b': "handle_datagram x model (de_active w) datagram = (b', q)"
    by (cases "handle_datagram x model (de_active w) datagram")
  have "agree (active_generation a) (active_generation (de_active w)) (a', answer) (b', q)"
    using replicas_datagram [OF assms(1,4,5), of x model datagram] assms(11) b' by simp
  with z b' that show thesis by (auto simp: agree_def replica_facts(1))
qed

text \<open>C4: An update that the console reports as done has been given to the device in one frame, and the
  device that receives this frame, and reports no details, holds the same context afterwards: when both
  sides started from the same tree with the same construction parameters, they have the same rules, tree, digest and tag
  after it, and each is one generation further.\<close>

theorem update_reaches_both_ends:
  assumes "execute_rule_update x cfg command (send_update x cfg) s = Some (t, Inr CommandSuccessful)"
    and "active_ok x (co_active s)" and "active_ok x (de_active w)"
    and "ac_recipe (co_active s) = ac_recipe (de_active w)"
    and "cd_tree (active_data (co_active s)) = cd_tree (active_data (de_active w))"
    and "room (de_active w)"
    and "codec_law x" and "packet_law x" and "coap_readback x"
  shows "\<exists>frame rest. ma_sent (co_machine t) = ma_sent (co_machine s) @ frame # rest
    \<and> active_generation (co_active t) = active_generation (co_active s) + 1
    \<and> (let w' = de_active (fst (receive_device_frame x (cfg_model cfg) env (frame_data frame) False w)) in
        active_data w' = active_data (co_active t) \<and> active_generation w' = active_generation (de_active w) + 1)"
proof -
  have same: "replica_of (co_active s) (de_active w)" using assms(2-5) by (rule replica_of_tree)
  from assms(1) send_update_leaves_context
  obtain datagram u v what update tag where sent: "send_update x cfg datagram u = Some (v, Inr 68)"
    and v: "co_active v = co_active s" and u: "u = fst (fresh_id s)"
    and local: "apply_update_locally x cfg what (active_generation (co_active s)) datagram v = (t, Inr CommandSuccessful)"
    and d: "ipatch_datagram x update (snd (fresh_id s)) tag = Inr datagram"
    by (rule execute_rule_update_cases) auto
  obtain packet where packet: "lite_to_bytes x packet = Inr datagram" "lp_token packet = []"
    using d by (rule ipatch_datagram_packet)
  obtain e where "routed x cfg datagram u = Some (v, Inr e)"
    using sent by (auto simp: send_update_def attempt_Inr_iff)
  then obtain prepared rest where
    prepared: "fst (prepare_management_request x (co_active u) (link_new (co_active u) RoleCore) datagram EmptyToken 0) = Inr prepared"
    and log: "ma_sent (co_machine v) = ma_sent (co_machine u) @ pr_frame prepared # rest"
    by (rule routed_sends)
  obtain p enc where p: "coap_packet_new x core_logical_address device_logical_address management_port management_port datagram = Inr p"
    and enc: "encode_packet x (co_active u) (link_new (co_active u) RoleCore) OriginManagement p = Inr enc"
    and frame: "pr_frame prepared = le_frame enc" and shape: "\<not> is_duplicate_rule_datagram x datagram"
    using prepared assms(9) packet by (rule prepared_request)
  obtain response where core: "handle_datagram x (cfg_model cfg) (co_active s) datagram = (co_active t, Answered (Inr response))"
    and g: "active_generation (co_active t) = active_generation (co_active s) + 1" "active_generation (co_active s) + 1 < u64_bound"
    using local unfolding v [symmetric] by (rule apply_update_locally_Successful)
  have kept: "ma_sent (co_machine t) = ma_sent (co_machine v)"
    using apply_update_locally_sent [of x cfg what _ datagram v] local by (metis fst_conv)
  have u_active: "co_active u = co_active s" by (simp add: u)
  have "room (co_active s)" using g by (simp add: room_def)
  from device_follows [OF same assms(2,3) this assms(6,7,8) p enc [unfolded u_active] shape core, of env]
  obtain z b' where z: "receive_device_frame x (cfg_model cfg) env (frame_data (le_frame enc)) False w
      = device_request x (cfg_model cfg) env datagram False z" "de_active z = de_active w"
    and b': "handle_datagram x (cfg_model cfg) (de_active w) datagram = (b', Answered (Inr response))"
      "active_data b' = active_data (co_active t)"
      "active_generation b' + active_generation (co_active s) = active_generation (co_active t) + active_generation (de_active w)"
    by metis
  then have "de_active (fst (receive_device_frame x (cfg_model cfg) env (frame_data (le_frame enc)) False w)) = b'"
    by (simp add: device_request_active_eq)
  then show ?thesis using b' g(1) log kept frame u by (auto simp: Let_def)
qed

subsection \<open>The way back\<close>

text \<open>One turn of the wait, from the \<open>k\<close>-th call on, in which the deadline has not come, the TUN device
  has no packet and the link has no frame.\<close>

definition receives :: "process_env \<Rightarrow> nat \<Rightarrow> link_error + bytes" where
  "receives env k = (let (answer, buffer) = link_recv env k in recv_bytes answer buffer (link_peer env))"

definition quiet_turn :: "process_env \<Rightarrow> nat \<Rightarrow> nat \<Rightarrow> bool" where
  "quiet_turn env deadline k \<longleftrightarrow>
     clock env k < deadline \<and> poll (tun_read env (k + 1)) = Inr Idle \<and>
     (case receives env (k + 2) of Inl e \<Rightarrow> recv_idle env e | Inr _ \<Rightarrow> False) \<and>
     clock env (k + 3) < deadline"

text \<open>An environment that lets the \<open>k\<close>-th call send \<open>frame\<close>, and delivers \<open>reply\<close> before the deadline, after
  any number of quiet turns and with no packet from the TUN device before it.\<close>

definition delivers :: "process_env \<Rightarrow> nat \<Rightarrow> schc_frame \<Rightarrow> bytes \<Rightarrow> bool" where
  "delivers env k frame reply \<longleftrightarrow>
     send_frame (link_send env k) frame = Inr () \<and>
     (\<exists>n. let deadline = clock env (k + 1) + operation_timeout; l = k + 2 + 4 * n in
        (\<forall>i < n. quiet_turn env deadline (k + 2 + 4 * i)) \<and>
        clock env l < deadline \<and> poll (tun_read env (l + 1)) = Inr Idle \<and> receives env (l + 2) = Inr reply)"

lemma validate_changed_response_is:
  assumes "validate_changed_response x code_text datagram response = Inr ()"
    and "lite_from_bytes x datagram = Inr q" and "lite_from_bytes x response = Inr l"
  shows "lp_code l = LiteResponse 68" and "lp_message_id l = lp_message_id q" and "lp_token l = lp_token q"
  using assms by (auto simp: validate_changed_response_def attempt_Inr_iff map_err_Inr_iff split: if_splits)

text \<open>A response \<open>l\<close> to the request \<open>q\<close>: its message identifier and token, a code of a response, and not a
  reset.\<close>

definition answers_request :: "lite_packet \<Rightarrow> nat \<Rightarrow> lite_packet \<Rightarrow> bool" where
  "answers_request q c l \<longleftrightarrow>
     lp_code l = LiteResponse c \<and> 64 \<le> c \<and> c < 192 \<and> lp_type l \<noteq> ResetMessage \<and>
     lp_message_id l = lp_message_id q \<and> lp_token l = lp_token q"

lemma response_accepted:
  assumes "lk_route d = RouteProtectedManagement"
    and "oriented device_logical_address core_logical_address management_port (lk_packet d)"
    and "reads_alike x (lk_packet d) response" and "reads_alike x p datagram"
    and "exchange_from_message (cp_message p) = Inr (pr_exchange_id prepared)"
    and "lite_from_bytes x datagram = Inr q" and "lite_from_bytes x response = Inr l" and "answers_request q c l"
  shows "\<exists>exchange. validate_management_response x prepared d = Inr (c, exchange) \<and> me_payload exchange = lp_payload l"
proof -
  let ?m = "cp_message (lk_packet d)"
  have msg: "cm_code ?m = c" "cm_message_id ?m = lp_message_id q" "cm_token ?m = lp_token q"
      "cm_type ?m = type_number (lp_type l)" "cm_payload ?m = lp_payload l"
    using assms(3,7,8) by (simp_all add: reads_alike_def answers_request_def)
  have "cm_message_id (cp_message p) = lp_message_id q" "cm_token (cp_message p) = lp_token q"
    using assms(4,6) by (simp_all add: reads_alike_def)
  then have "exchange_from_message ?m = Inr (pr_exchange_id prepared)"
    using assms(5) msg by (simp add: exchange_from_message_def)
  moreover have "\<not> drop_bit 5 c < 2" "\<not> 5 < drop_bit 5 c"
    using assms(8) by (auto simp: answers_request_def drop_bit_eq_div)
  ultimately show ?thesis
    using assms(1,2,8) msg
    by (cases "lp_type l")
      (simp_all add: validate_management_response_def oriented_def answers_request_def Let_def matches_response_def coap_types)
qed

lemma frame_accepted:
  assumes "decode_frame x a (link_new a RoleCore) frame = Inr d" and "lk_route d = RouteProtectedManagement"
    and "validate_management_response x prepared d = Inr (code, exchange)"
  shows "snd (process_core_raw_frame x env a frame False (Some prepared) m) = Inr (CoreManagement code exchange)"
proof -
  note printed = fail_as_ok [OF decoded_report_prints [OF assms(1), of Rx m], of Fatal]
  show ?thesis using assms by (simp add: process_core_raw_frame_def core_route_def and_then_ok [OF printed])
qed

lemma quiet_turn_waits:
  assumes "quiet_turn env deadline (ma_calls m)"
  shows "\<exists>m'. wait_step x env a prepared debug timeout deadline m = (m', Waiting) \<and> ma_calls m' = ma_calls m + 4"
proof -
  obtain e where e: "receives env (ma_calls m + 2) = Inl e" "recv_idle env e"
    using assms by (auto simp: quiet_turn_def split: sum.splits)
  have clock: "wait_clock env timeout deadline n = (tick n, Waiting)" if "clock env (ma_calls n) < deadline" for n
    using that by (simp add: wait_clock_def now_def)
  have tun: "wait_tun x env a debug (tick m) = (tick (tick m), Waiting)"
    using assms by (simp add: wait_tun_def do_poll_def quiet_turn_def)
  have link: "wait_link x env a prepared debug (tick (tick m)) = (tick (tick (tick m)), Waiting)"
    using e by (simp add: wait_link_def do_recv_def receives_def Let_def case_prod_beta)
  have "wait_step x env a prepared debug timeout deadline m = (tick (tick (tick (tick m))), Waiting)"
    using assms by (simp add: wait_step_def quiet_turn_def clock tun link eval_nat_numeral)
  then show ?thesis by simp
qed

lemma arrival_ends_wait:
  assumes "clock env (ma_calls m) < deadline" and "poll (tun_read env (ma_calls m + 1)) = Inr Idle"
    and "receives env (ma_calls m + 2) = Inr reply"
    and "decode_frame x a (link_new a RoleCore) reply = Inr d" and "lk_route d = RouteProtectedManagement"
    and "validate_management_response x prepared d = Inr (code, exchange)"
  shows "\<exists>m'. wait_step x env a prepared False timeout deadline m = (m', Over (Inr (code, exchange)))"
proof -
  have clock: "wait_clock env timeout deadline m = (tick m, Waiting)"
    using assms(1) by (simp add: wait_clock_def now_def)
  have tun: "wait_tun x env a False (tick m) = (tick (tick m), Waiting)"
    using assms(2) by (simp add: wait_tun_def do_poll_def)
  have recv: "do_recv env (tick (tick m)) = (tick (tick (tick m)), Inr reply)"
    using assms(3) by (simp add: do_recv_def receives_def Let_def case_prod_beta)
  obtain m' where "process_core_raw_frame x env a reply False (Some prepared) (tick (tick (tick m)))
      = (m', Inr (CoreManagement code exchange))"
    using frame_accepted [OF assms(4-6), of env "tick (tick (tick m))"] by (metis prod.collapse)
  then have "wait_link x env a prepared False (tick (tick m)) = (m', Over (Inr (code, exchange)))"
    by (simp add: wait_link_def recv wait_after_def)
  then show ?thesis by (simp add: wait_step_def clock tun)
qed

lemma wait_loop_delivered:
  assumes "\<forall>i < n. quiet_turn env deadline (ma_calls m + 4 * i)"
    and "clock env (ma_calls m + 4 * n) < deadline" and "poll (tun_read env (ma_calls m + 4 * n + 1)) = Inr Idle"
    and "receives env (ma_calls m + 4 * n + 2) = Inr reply"
    and "decode_frame x a (link_new a RoleCore) reply = Inr d" and "lk_route d = RouteProtectedManagement"
    and "validate_management_response x prepared d = Inr (code, exchange)"
  shows "\<exists>m'. wait_loop (wait_step x env a prepared False timeout deadline) m = Some (m', Inr (code, exchange))"
  using assms(1-4)
proof (induction n arbitrary: m)
  case 0
  then obtain m' where "wait_step x env a prepared False timeout deadline m = (m', Over (Inr (code, exchange)))"
    using arrival_ends_wait [OF _ _ _ assms(5-7)] by fastforce
  then show ?case by (subst wait_loop.simps) simp
next
  case (Suc n)
  from Suc.prems(1) have "quiet_turn env deadline (ma_calls m)" by force
  then obtain m' where m': "wait_step x env a prepared False timeout deadline m = (m', Waiting)" "ma_calls m' = ma_calls m + 4"
    using quiet_turn_waits by blast
  have "quiet_turn env deadline (ma_calls m' + 4 * i)" if "i < n" for i
    using Suc.prems(1) that m'(2) by (auto dest!: spec [of _ "Suc i"] simp: add.assoc)
  then have "\<exists>m''. wait_loop (wait_step x env a prepared False timeout deadline) m' = Some (m'', Inr (code, exchange))"
    using Suc.prems(2-4) m'(2) by (intro Suc.IH) (simp_all add: add.assoc)
  then show ?case using m'(1) by (subst wait_loop.simps) simp
qed

lemma wait_delivered:
  assumes "delivers env (ma_calls m) (pr_frame prepared) reply"
    and "decode_frame x a (link_new a RoleCore) reply = Inr d" and "lk_route d = RouteProtectedManagement"
    and "validate_management_response x prepared d = Inr (code, exchange)"
  shows "\<exists>m'. wait_management_response x env a prepared False operation_timeout m = Some (m', Inr (code, exchange))"
proof -
  define n where "n = fst (do_send env (pr_frame prepared) m)"
  have n: "do_send env (pr_frame prepared) m = (n, Inr ())" "ma_calls n = ma_calls m + 1"
    using assms(1) by (auto simp: n_def do_send_def delivers_def tick_def Let_def)
  define deadline where "deadline = clock env (ma_calls m + 1) + operation_timeout"
  have calls: "ma_calls (tick n) = ma_calls m + 2" using n(2) by simp
  obtain turns where "\<forall>i < turns. quiet_turn env deadline (ma_calls (tick n) + 4 * i)"
    "clock env (ma_calls (tick n) + 4 * turns) < deadline"
    "poll (tun_read env (ma_calls (tick n) + 4 * turns + 1)) = Inr Idle"
    "receives env (ma_calls (tick n) + 4 * turns + 2) = Inr reply"
    using assms(1) unfolding delivers_def calls deadline_def Let_def by blast
  from wait_loop_delivered [OF this assms(2-4)] obtain m' where
    "wait_loop (wait_step x env a prepared False operation_timeout deadline) (tick n) = Some (m', Inr (code, exchange))" by blast
  then show ?thesis by (simp add: wait_management_response_def n now_def deadline_def)
qed

text \<open>The answer crosses the change: the device encodes it with its new context and the core decodes it
  with the old one, under a protected rule that both hold.\<close>

lemma answer_delivered:
  assumes "device_request x model env datagram False z = (w', r)"
    and "handle_datagram x model (de_active z) datagram = (b', Answered (Inr response))"
    and "coap_packet_new x device_logical_address core_logical_address management_port management_port response = Inr rp"
    and "encode_packet x b' (link_new b' RoleDevice) OriginManagement rp = Inr renc"
    and "send_frame (link_send env (ma_calls (de_machine z))) (le_frame renc) = Inr ()"
  shows "ma_sent (de_machine w') = ma_sent (de_machine z) @ [le_frame renc]" and "de_active w' = b'"
proof -
  have w': "device_respond x env response False (z\<lparr>de_active := b'\<rparr>) = (w', r)"
    using assms(1,2) by (simp add: device_request_def)
  show "de_active w' = b'" using device_respond_active [of x env response False "z\<lparr>de_active := b'\<rparr>"] w' by simp
  have "w' = fst (device_respond x env response False (z\<lparr>de_active := b'\<rparr>))" using w' by simp
  then show "ma_sent (de_machine w') = ma_sent (de_machine z) @ [le_frame renc]"
    by (simp add: device_respond_def assms(3,4) and_then_ok [OF fail_as_ok [OF encoded_report_prints [OF assms(4)]]])
      (simp add: do_send_def assms(5) Let_def)
qed

lemma exchange_delivered:
  assumes "fst (prepare_management_request x (co_active s) (link_new (co_active s) RoleCore) datagram EmptyToken 0) = Inr prepared"
    and "\<not> cfg_debug cfg" and "delivers (cfg_env cfg) (ma_calls (co_machine s)) (pr_frame prepared) reply"
    and "decode_frame x (co_active s) (link_new (co_active s) RoleCore) reply = Inr d"
    and "lk_route d = RouteProtectedManagement" and "validate_management_response x prepared d = Inr (code, exchange)"
    and "encode_packet x (co_active s) (link_new (co_active s) RoleCore) OriginManagement p = Inr enc"
    and "pr_report prepared = le_report enc"
  shows "\<exists>t. routed x cfg datagram s = Some (t, Inr (code, exchange)) \<and> co_active t = co_active s"
proof -
  obtain n where n: "print_report x Tx (pr_report prepared) False (co_machine s) = (n, Inr ())" "ma_calls n = ma_calls (co_machine s)"
    using encoded_report_prints [OF assms(7)] print_report_logs(3) assms(8) by (metis prod.collapse)
  obtain m' where "wait_management_response x (cfg_env cfg) (co_active s) prepared False operation_timeout n = Some (m', Inr (code, exchange))"
    using wait_delivered [of "cfg_env cfg" n prepared reply, OF _ assms(4-6)] assms(3) n(2) by auto
  then show ?thesis using assms(1,2) n(1) by (simp add: routed_def exchange_management_routed_def)
qed

lemma update_succeeds:
  assumes "parse_rule_update_command command = Inr request"
    and "plan_update x cfg (ac_snapshot (co_active s)) request = Inr update"
    and "ipatch_datagram x update (snd (fresh_id s))
      (if ru_if_match request then Some (cd_tag (active_data (co_active s))) else None) = Inr datagram"
    and "routed x cfg datagram (fst (fresh_id s)) = Some (v, Inr (68, exchange))" and "co_active v = co_active s"
    and "handle_datagram x (cfg_model cfg) (co_active s) datagram = (a', Answered (Inr response))"
    and "validate_changed_response x (cfg_code_text cfg) datagram response = Inr ()"
    and "active_generation a' = active_generation (co_active s) + 1" and "room (co_active s)"
  shows "\<exists>t. execute_rule_update x cfg command (send_update x cfg) s = Some (t, Inr CommandSuccessful) \<and> co_active t = a'"
proof -
  have "\<exists>t. apply_update_locally x cfg what (active_generation (co_active s)) datagram v = (t, Inr CommandSuccessful) \<and> co_active t = a'"
    for what
    using assms(5-9) by (simp add: apply_update_locally_def room_def Let_def)
  then show ?thesis using assms(1-4)
    by (simp add: execute_rule_update_def try_or_def Let_def case_prod_beta send_update_def finish_update_def)
qed

lemma answer_accepted:
  assumes "codec_law x" and "packet_law x" and "coap_readback x" and "\<not> cfg_debug cfg"
    and "active_ok x b" and "active_ok x (co_active s)" and "cd_protected (active_data (co_active s)) = cd_protected (active_data b)"
    and "ac_recipe (co_active s) = ac_recipe b"
    and "lite_to_bytes x packet = Inr datagram" and "lp_token packet = []"
    and "fst (prepare_management_request x (co_active s) (link_new (co_active s) RoleCore) datagram EmptyToken 0) = Inr prepared"
    and "lite_from_bytes x response = Inr l" and "answers_request packet c l"
    and "coap_packet_new x device_logical_address core_logical_address management_port management_port response = Inr rp"
    and "encode_packet x b (link_new b RoleDevice) OriginManagement rp = Inr renc"
    and "selects_alike x b (co_active s) RoleDevice rp"
    and "delivers (cfg_env cfg) (ma_calls (co_machine s)) (pr_frame prepared) (frame_data (le_frame renc))"
  shows "\<exists>v exchange. routed x cfg datagram (fst (fresh_id s)) = Some (v, Inr (c, exchange))
    \<and> me_payload exchange = lp_payload l \<and> co_active v = co_active s"
proof -
  obtain p enc where p: "coap_packet_new x core_logical_address device_logical_address management_port management_port datagram = Inr p"
    and enc: "encode_packet x (co_active s) (link_new (co_active s) RoleCore) OriginManagement p = Inr enc"
    and prepared: "pr_report prepared = le_report enc" "exchange_from_message (cp_message p) = Inr (pr_exchange_id prepared)"
    using assms(11,3,9,10) by (rule prepared_request)
  note answer = packet_lawD [OF assms(2,14)]
  have request: "lite_from_bytes x datagram = Inr packet" using assms(3,9) by (simp add: coap_readback_def)
  have recipe: "rc_device (ac_recipe (co_active s)) = rc_device (ac_recipe b)" "rc_profile (ac_recipe (co_active s)) = rc_profile (ac_recipe b)"
    using assms(8) by simp_all
  obtain d where d: "decode_frame x (co_active s) (link_new (co_active s) RoleCore) (frame_data (le_frame renc)) = Inr d"
      "lk_packet d = rp" "lk_route d = RouteProtectedManagement"
    using decode_carried [OF assms(15,1,5-7) recipe answer(3) assms(16)] by auto
  obtain exchange where e: "validate_management_response x prepared d = Inr (c, exchange)" "me_payload exchange = lp_payload l"
    using response_accepted [OF d(3) _ _ packet_lawD(4) [OF assms(2) p] prepared(2) request assms(12,13)] answer(2,4) d(2) by auto
  then have "\<exists>v. routed x cfg datagram (fst (fresh_id s)) = Some (v, Inr (c, exchange)) \<and> co_active v = co_active (fst (fresh_id s))"
    using assms(11,17) d(1) enc
    by (intro exchange_delivered [OF _ assms(4) _ _ d(3) _ _ prepared(1)]) simp_all
  with e(2) show ?thesis by auto
qed

text \<open>C3: An update gets through a quiet link. Neither side reports details (the debug option is off), the
  command is accepted and planned, the core can prepare its request and its own service would answer
  2.04; the device is in step, can encode its answer with its new context, and the rule it selects for
  the answer there is the one the core's old context would select (otherwise the core refuses the frame
  as not canonical). When the sockets take both frames and the answer arrives before the deadline, after
  any number of turns of the wait in which neither the TUN device nor the link had anything, then the
  command ends in success; the device has sent that one answer, and both sides hold the same new
  context, one generation further.\<close>

theorem update_completes:
  assumes "active_ok x (co_active s)" and "active_ok x (de_active w)" and "ac_recipe (co_active s) = ac_recipe (de_active w)"
    and "cd_tree (active_data (co_active s)) = cd_tree (active_data (de_active w))"
    and "room (co_active s)" and "room (de_active w)"
    and "codec_law x" and "packet_law x" and "coap_readback x" and "\<not> cfg_debug cfg"
    and "parse_rule_update_command command = Inr request"
    and "plan_update x cfg (ac_snapshot (co_active s)) request = Inr update"
    and "ipatch_datagram x update (snd (fresh_id s))
      (if ru_if_match request then Some (cd_tag (active_data (co_active s))) else None) = Inr datagram"
    and "fst (prepare_management_request x (co_active s) (link_new (co_active s) RoleCore) datagram EmptyToken 0) = Inr prepared"
    and "handle_datagram x (cfg_model cfg) (co_active s) datagram = (a', Answered (Inr response))"
    and "validate_changed_response x (cfg_code_text cfg) datagram response = Inr ()"
    and "active_generation a' = active_generation (co_active s) + 1"
    and "lite_from_bytes x response = Inr l" and "lp_type l \<noteq> ResetMessage"
    and "b' = fst (handle_datagram x (cfg_model cfg) (de_active w) datagram)"
    and "selects_alike x b' (co_active s) RoleDevice rp"
    and "coap_packet_new x device_logical_address core_logical_address management_port management_port response = Inr rp"
    and "encode_packet x b' (link_new b' RoleDevice) OriginManagement rp = Inr renc"
    and "send_frame (link_send env (ma_calls (de_machine w))) (le_frame renc) = Inr ()"
    and "delivers (cfg_env cfg) (ma_calls (co_machine s)) (pr_frame prepared) (frame_data (le_frame renc))"
  shows "\<exists>t w'. execute_rule_update x cfg command (send_update x cfg) s = Some (t, Inr CommandSuccessful)
    \<and> fst (receive_device_frame x (cfg_model cfg) env (frame_data (pr_frame prepared)) False w) = w'
    \<and> ma_sent (de_machine w') = ma_sent (de_machine w) @ [le_frame renc]
    \<and> active_data (co_active t) = active_data (de_active w')
    \<and> active_generation (co_active t) = active_generation (co_active s) + 1
    \<and> active_generation (de_active w') = active_generation (de_active w) + 1"
proof -
  let ?u = "fst (fresh_id s)" and ?model = "cfg_model cfg"
  have same: "replica_of (co_active s) (de_active w)" using assms(1-4) by (rule replica_of_tree)
  obtain packet where packet: "lite_to_bytes x packet = Inr datagram" "lp_token packet = []"
    using assms(13) by (rule ipatch_datagram_packet)
  obtain p enc where p: "coap_packet_new x core_logical_address device_logical_address management_port management_port datagram = Inr p"
    and enc: "encode_packet x (co_active s) (link_new (co_active s) RoleCore) OriginManagement p = Inr enc"
    and prepared: "pr_frame prepared = le_frame enc" and shape: "\<not> is_duplicate_rule_datagram x datagram"
    using assms(14,9) packet by (rule prepared_request)
  obtain z c where z: "receive_device_frame x ?model env (frame_data (le_frame enc)) False w = device_request x ?model env datagram False z"
      "de_active z = de_active w" "ma_sent (de_machine z) = ma_sent (de_machine w)"
      "ma_calls (de_machine z) = ma_calls (de_machine w)"
    and c: "handle_datagram x ?model (de_active w) datagram = (c, Answered (Inr response))" "active_data c = active_data a'"
      "active_generation c + active_generation (co_active s) = active_generation a' + active_generation (de_active w)"
    using same assms(1,2,5-8) p enc shape assms(15) by (rule device_follows)
  have b': "b' = c" by (simp add: assms(20) c(1))
  obtain w' r where w': "device_request x ?model env datagram False z = (w', r)"
    by (cases "device_request x ?model env datagram False z")
  from c(1) z(2) b' have handled: "handle_datagram x ?model (de_active z) datagram = (b', Answered (Inr response))" by simp
  have "send_frame (link_send env (ma_calls (de_machine z))) (le_frame renc) = Inr ()" using assms(24) z(4) by simp
  note answered = answer_delivered [OF w' handled assms(22,23) this]
  have "kept_or_published x (de_active w) b'" using handle_datagram_step [OF c(1)] b' by (simp add: kept_or_published_def)
  note policy = writer.run_ok [OF kept_run [OF this] assms(2)]
  have protected: "cd_protected (active_data (co_active s)) = cd_protected (active_data b')" and "active_ok x b'"
    and "ac_recipe (co_active s) = ac_recipe b'"
    using policy replica_facts(1,2) [OF same] by simp_all
  moreover have "answers_request packet 68 l"
    using validate_changed_response_is [OF assms(16) _ assms(18)] assms(9,19) packet(1)
    by (simp add: answers_request_def coap_readback_def)
  ultimately obtain v exchange where v: "routed x cfg datagram ?u = Some (v, Inr (68, exchange))" "co_active v = co_active s"
    using answer_accepted [OF assms(7-10) _ assms(1) protected _ packet assms(14,18) _ assms(22,23,21,25)] by blast
  obtain t where "execute_rule_update x cfg command (send_update x cfg) s = Some (t, Inr CommandSuccessful)" "co_active t = a'"
    using update_succeeds [OF assms(11-13) v assms(15-17,5)] by blast
  then show ?thesis using z(1,3) w' answered prepared c(2,3) b' assms(17) by simp
qed

end
