(* ===== verification/Divergence.thy ===== *)
theory Divergence
  imports Rounds
begin

text \<open>
  The context check from the terminal of the core to the service of the device and back: the command
  \<open>context check\<close> of \<open>bin/schc-coreconf-core.rs\<close>, \<open>handle_context_check\<close> of
  \<open>management.rs\<close>, and what the console says about two contexts that may have come apart.
\<close>

subsection \<open>What is assumed of the libraries\<close>

text \<open>A content response answers a confirmable request with 2.05 and carries the content as its payload.\<close>

definition content_law :: "'x management_ext_scheme \<Rightarrow> bool" where
  "content_law x \<longleftrightarrow>
     (\<forall>request payload format response. lp_type request = Confirmable \<longrightarrow>
        packet_without_content_format x request (ContentResponse payload format) = Inr response
        \<longrightarrow> (case lite_from_bytes x response of
               Inl _ \<Rightarrow> False
             | Inr l \<Rightarrow> answers_request request 69 l \<and> lp_payload l = payload))"

lemma content_lawD:
  assumes "content_law x" and "lp_type request = Confirmable"
    and "packet_without_content_format x request (ContentResponse payload format) = Inr response"
  obtains l where "lite_from_bytes x response = Inr l" and "answers_request request 69 l" and "lp_payload l = payload"
proof -
  have "case lite_from_bytes x response of Inl _ \<Rightarrow> False | Inr l \<Rightarrow> answers_request request 69 l \<and> lp_payload l = payload"
    using assms unfolding content_law_def by blast
  with that show thesis by (auto split: sum.splits)
qed

text \<open>The hash of the library is 32 bytes long, so that a tag has its eight bytes.\<close>

definition hash_law :: "'x context_ext_scheme \<Rightarrow> bool" where
  "hash_law x \<longleftrightarrow> (\<forall>bs. length (sha256 x bs) = 32)"

lemma tag_length:
  assumes "active_ok x a" and "hash_law x"
  shows "length (cd_tag (active_data a)) = 8"
proof -
  obtain l where "from_loaded x (ac_recipe a) l = Inr (active_prepared a)"
    using assms(1) by (auto simp: active_ok_def prepared_for_def active_prepared_def)
  from from_loaded_recipe(11,12) [OF this] obtain bs where
    "sha256 x bs = cd_digest (active_data a)" "cd_tag (active_data a) = context_tag (cd_digest (active_data a))"
    by (auto simp: active_prepared_def digest_context_def result_simps)
  moreover from this assms(2) have "length (cd_digest (active_data a)) = 32" unfolding hash_law_def by metis
  ultimately show ?thesis by (simp add: context_tag_def context_tag_len_def)
qed

subsection \<open>The request and its answer\<close>

definition check_packet :: "bytes \<Rightarrow> nat \<Rightarrow> lite_packet" where
  "check_packet tag message_id = (base_request MFetch message_id)\<lparr>lp_payload := context_check_marker # tag\<rparr>"

lemma check_packet_simps [simp]:
  "lp_token (check_packet tag i) = []" "lp_message_id (check_packet tag i) = i"
  "lp_type (check_packet tag i) = Confirmable"
  "\<not> is_duplicate_rule_coap_shape (check_packet tag i)"
  by (simp_all add: check_packet_def base_request_def add_option_def is_duplicate_rule_coap_shape_def)

lemma context_check_request_packet:
  "context_check_request x tag i = Some datagram \<Longrightarrow> lite_to_bytes x (check_packet tag i) = Inr datagram"
  by (simp add: context_check_request_def check_packet_def split: sum.splits)

text \<open>The service answers a check with the verdict on its own tag, and keeps its context.\<close>

lemma check_handled:
  assumes "coap_readback x" and "lite_to_bytes x (check_packet tag i) = Inr datagram" and "length tag = 8"
  shows "handle_datagram x model a datagram = (a, Answered (packet_without_content_format x (check_packet tag i)
      (ContentResponse (context_check_payload tag (cd_tag (active_data a))) YangDataCborSid)))"
proof -
  have "lite_from_bytes x datagram = Inr (check_packet tag i)" using assms(1,2) by (simp add: coap_readback_def)
  then show ?thesis
    using context_check_answered [OF assms(3), of x model a i] by (simp add: handle_datagram_def check_packet_def)
qed

text \<open>What the console does with the payload of an answer.\<close>

definition verdict :: "bytes \<Rightarrow> bytes \<Rightarrow> string" where
  "verdict core_tag device_tag =
     (if core_tag = device_tag then ''OK context check  equal'' else ''ERROR context check  mismatch'') @ [CHR 0x0A]"

lemma check_command_succeeds:
  assumes "context_check_request x (cd_tag (active_data (co_active s))) (snd (fresh_id s)) = Some datagram"
    and "routed x cfg datagram (fst (fresh_id s)) = Some (v, Inr (69, exchange))" and "co_active v = co_active s"
    and "me_payload exchange = context_check_payload (cd_tag (active_data (co_active s))) device_tag"
    and "length device_tag = 8" and "\<not> cfg_debug cfg"
  shows "\<exists>t. handle_command x cfg ''context check'' s = Some (t, Inr CommandSuccessful) \<and> co_active t = co_active s
    \<and> last (ma_printed (co_machine t)) = verdict (cd_tag (active_data (co_active s))) device_tag"
proof -
  have "handle_command x cfg ''context check'' s = context_check_command x cfg s"
    by (simp add: handle_command_def begins_def strip_prefix_def)
  then show ?thesis
    using assms
    by (simp add: context_check_command_def case_prod_beta Let_def exchange_then_def try_or_def decode_check_payload
        successful_def say_def println_def print_def verdict_def)
qed

subsection \<open>The check, end to end\<close>

text \<open>C7: A context check detects divergence, as long as the divergence leaves the management exchange itself
  alone. The two contexts may differ, but they have the same construction parameters and protected rules,
  and both select the same rule for the request and the same rule for the answer; where they do not, the
  receiver refuses the frame as not canonical. Neither side reports details (the debug option is off).
  When the sockets take both frames and the answer arrives before the deadline, after any number of turns
  of the wait in which neither the TUN device nor the link had anything, then the command succeeds and
  what it prints last says that the contexts are equal exactly when the eight-byte tags of the two sides
  are; neither context changes, and the device sends nothing but the answer. Two sides with the same tree
  are never reported as different.\<close>

theorem context_check_detects:
  assumes "active_ok x (co_active s)" and "active_ok x (de_active w)" and "ac_recipe (co_active s) = ac_recipe (de_active w)"
    and "cd_protected (active_data (co_active s)) = cd_protected (active_data (de_active w))"
    and "codec_law x" and "packet_law x" and "coap_readback x" and "content_law x" and "hash_law x" and "\<not> cfg_debug cfg"
    and "context_check_request x (cd_tag (active_data (co_active s))) (snd (fresh_id s)) = Some datagram"
    and "fst (prepare_management_request x (co_active s) (link_new (co_active s) RoleCore) datagram EmptyToken 0) = Inr prepared"
    and "selects_alike x (co_active s) (de_active w) RoleCore p"
    and "coap_packet_new x core_logical_address device_logical_address management_port management_port datagram = Inr p"
    and "snd (handle_datagram x (cfg_model cfg) (de_active w) datagram) = Answered (Inr response)"
    and "selects_alike x (de_active w) (co_active s) RoleDevice rp"
    and "coap_packet_new x device_logical_address core_logical_address management_port management_port response = Inr rp"
    and "encode_packet x (de_active w) (link_new (de_active w) RoleDevice) OriginManagement rp = Inr renc"
    and "send_frame (link_send env (ma_calls (de_machine w))) (le_frame renc) = Inr ()"
    and "delivers (cfg_env cfg) (ma_calls (co_machine s)) (pr_frame prepared) (frame_data (le_frame renc))"
  shows "\<exists>t w'. handle_command x cfg ''context check'' s = Some (t, Inr CommandSuccessful)
    \<and> last (ma_printed (co_machine t)) = verdict (cd_tag (active_data (co_active s))) (cd_tag (active_data (de_active w)))
    \<and> fst (receive_device_frame x (cfg_model cfg) env (frame_data (pr_frame prepared)) False w) = w'
    \<and> co_active t = co_active s \<and> de_active w' = de_active w
    \<and> ma_sent (de_machine w') = ma_sent (de_machine w) @ [le_frame renc]
    \<and> (cd_tree (active_data (co_active s)) = cd_tree (active_data (de_active w)) \<longrightarrow>
        last (ma_printed (co_machine t)) = ''OK context check  equal'' @ [CHR 0x0A])"
proof -
  let ?tag = "cd_tag (active_data (co_active s))" and ?dtag = "cd_tag (active_data (de_active w))"
  let ?q = "check_packet ?tag (snd (fresh_id s))" and ?model = "cfg_model cfg"
  have packet: "lite_to_bytes x ?q = Inr datagram" using assms(11) by (rule context_check_request_packet)
  have tags: "length ?tag = 8" "length ?dtag = 8" using tag_length assms(1,2,9) by blast+
  have recipe: "rc_device (ac_recipe (de_active w)) = rc_device (ac_recipe (co_active s))"
    "rc_profile (ac_recipe (de_active w)) = rc_profile (ac_recipe (co_active s))" using assms(3) by simp_all
  obtain p' enc where "coap_packet_new x core_logical_address device_logical_address management_port management_port datagram = Inr p'"
    and enc: "encode_packet x (co_active s) (link_new (co_active s) RoleCore) OriginManagement p' = Inr enc"
    and prepared: "pr_frame prepared = le_frame enc" and shape: "\<not> is_duplicate_rule_datagram x datagram"
    using assms(12,7) packet check_packet_simps(1) by (rule prepared_request)
  then have "p' = p" using assms(14) by simp
  from receive_request [OF enc [unfolded this] assms(5,6,1,2) _ recipe assms(13,14), of ?model env] assms(4) shape
  obtain z where z: "de_active z = de_active w" "ma_sent (de_machine z) = ma_sent (de_machine w)"
    "send_frame (link_send env (ma_calls (de_machine z))) (le_frame renc) = Inr ()"
    "receive_device_frame x ?model env (frame_data (le_frame enc)) False w = device_request x ?model env datagram False z" using assms(19) by auto
  have response: "packet_without_content_format x ?q (ContentResponse (context_check_payload ?tag ?dtag) YangDataCborSid) = Inr response"
    and handled: "handle_datagram x ?model (de_active z) datagram = (de_active w, Answered (Inr response))"
    using check_handled [OF assms(7) packet tags(1), of ?model "de_active w"] assms(15) z(1) by simp_all
  obtain l where l: "lite_from_bytes x response = Inr l" "answers_request ?q 69 l" "lp_payload l = context_check_payload ?tag ?dtag"
    using assms(8) check_packet_simps(3) response by (rule content_lawD)
  obtain w' r where w': "device_request x ?model env datagram False z = (w', r)"
    by (cases "device_request x ?model env datagram False z")
  note answered = answer_delivered [OF w' handled assms(17,18) z(3)]
  obtain v exchange where v: "routed x cfg datagram (fst (fresh_id s)) = Some (v, Inr (69, exchange))"
      "me_payload exchange = context_check_payload ?tag ?dtag" "co_active v = co_active s"
    using answer_accepted [OF assms(5-7,10,2,1,4,3) packet check_packet_simps(1) assms(12) l(1,2) assms(17,18,16,20)] l(3) by auto
  obtain t where t: "handle_command x cfg ''context check'' s = Some (t, Inr CommandSuccessful)" "co_active t = co_active s"
      "last (ma_printed (co_machine t)) = verdict ?tag ?dtag"
    using check_command_succeeds [OF assms(11) v(1,3,2) tags(2) assms(10)] by blast
  have "?tag = ?dtag" if "cd_tree (active_data (co_active s)) = cd_tree (active_data (de_active w))"
    using tag_of_tree [OF assms(1,2) _ that] assms(3) by simp
  then show ?thesis using t z(2,4) w' answered prepared by (auto simp: verdict_def)
qed

end
