(* ===== verification/Site.thy ===== *)
theory Site
  imports Divergence Application
begin

text \<open>
  A concrete pair of endpoints with concrete libraries: a datastore with one management rule and one
  compression rule, an update of a target value and a copy of the rule, and a link on which both
  contexts compress the management plane. It shows that what the theorems about the console and about
  the two programs together assume of the libraries can hold, and applies them to it.
\<close>

subsection \<open>The datastore\<close>

text \<open>The context at the start, after the update of the target value, and after the copy of the rule.\<close>

datatype stage = Start | Updated | Copied

definition site_entry :: "stage \<Rightarrow> json" where
  "site_entry n = JObject [(''entry-index'', json_nat 4), (''field-length'', json_nat 16),
     (''target-value'', JArray [JObject [(''index'', json_nat 0),
        (''value'', JArray (if n = Updated then [json_byte 1, json_byte 44] else [json_byte 22, json_byte 51]))]])]"

definition site_json_rule :: "stage \<Rightarrow> nat \<Rightarrow> nat \<Rightarrow> json" where
  "site_json_rule n v bits = JObject [(''entry-universal'', JArray [site_entry n]),
     (''rule-id-length'', json_nat bits), (''rule-id-value'', json_nat v)]"

definition site_tree :: "stage \<Rightarrow> json" where
  "site_tree n = JObject [(''ietf-schc:schc'', JObject [(''rule'', JArray
     (site_json_rule n 5 3 # (if n = Copied then [site_json_rule n 9 8] else [])))])]"

definition site_bytes :: "stage \<Rightarrow> bytes" where
  "site_bytes n = (case n of Start \<Rightarrow> [0] | Updated \<Rightarrow> [1] | Copied \<Rightarrow> [2])"

definition stage_of_bytes :: "bytes \<Rightarrow> stage" where
  "stage_of_bytes bs = (if bs = [1] then Updated else if bs = [2] then Copied else Start)"

definition stage_of_tree :: "json \<Rightarrow> stage" where
  "stage_of_tree t = (if t = site_tree Updated then Updated else if t = site_tree Copied then Copied else Start)"

text \<open>The SoR: its rule list has the management rule 1/3 and the rule 5/3.\<close>

definition sor_rule :: "nat \<Rightarrow> int \<Rightarrow> cbor" where
  "sor_rule mark v = CMap [(CInteger 1, CInteger 3), (CInteger 2, CInteger v), (CInteger 9, CInteger (int mark))]"

definition site_sor :: "stage \<Rightarrow> cbor" where
  "site_sor n = CMap [(CInteger 1, CMap [(CInteger 1, CArray
     [sor_rule 0 1, sor_rule (case n of Start \<Rightarrow> 0 | Updated \<Rightarrow> 1 | Copied \<Rightarrow> 2) 5])])]"

text \<open>The RPC that copies 5/3 to 9/8.\<close>

definition site_rpc :: cbor where
  "site_rpc = CMap [(CInteger 11, CMap [(CInteger 1, CMap
     [(CInteger 1, CMap [(CInteger 1, CInteger 3), (CInteger 2, CInteger 5)]),
      (CInteger 5, CMap [(CInteger 1, CInteger 8), (CInteger 2, CInteger 9)])])])]"

definition site_model :: coreconf_model where
  "site_model = upd_model\<lparr>to_value := (\<lambda>bs. Inr (site_tree (stage_of_bytes bs))),
     json_to_cbor := (\<lambda>t. Inr (site_sor (stage_of_tree t)))\<rparr>"

definition site_rule :: "stage \<Rightarrow> nat \<Rightarrow> nat \<Rightarrow> rule" where
  "site_rule n v bits = \<lparr>rule_id_of = RuleId v bits, nature = NatureCompression, rule_fields =
     [\<lparr>fr_entry_index = 4, fr_field = FieldUdp ''fid-udp-dev-port'', fr_position = 1, fr_direction = Bidirectional,
       fr_length = FixedBits 16, fr_target = TargetBytes (if n = Updated then [1, 44] else [22, 51]),
       fr_matching = Equal, fr_action = NotSent\<rparr>]\<rparr>"

definition site_management_rule :: rule where
  "site_management_rule = \<lparr>rule_id_of = RuleId 1 3, nature = NatureManagement, rule_fields = []\<rparr>"

definition site_application_rules :: "stage \<Rightarrow> rule list" where
  "site_application_rules n = site_rule n 5 3 # (if n = Copied then [site_rule n 9 8] else [])"

definition rules_context :: "rule list \<Rightarrow> rule_context" where
  "rules_context rs = \<lparr>ctx_rules = rs, find_rule = (\<lambda>i. List.find (\<lambda>r. rule_id_of r = i) rs)\<rparr>"

definition site_rules :: "stage \<Rightarrow> rule_context" where
  "site_rules n = rules_context (site_management_rule # site_application_rules n)"

subsection \<open>The libraries\<close>

definition site_filtered :: "stage \<Rightarrow> cbor" where
  "site_filtered n = CMap [(CInteger 1, CMap [(CInteger 1, CArray
     [sor_rule (case n of Start \<Rightarrow> 0 | Updated \<Rightarrow> 1 | Copied \<Rightarrow> 2) 5])])]"

definition site_write :: "cbor \<Rightarrow> bytes" where
  "site_write v =
     (if v = site_sor Start then site_bytes Start
      else if v = site_sor Updated then site_bytes Updated
      else if v = site_sor Copied then site_bytes Copied
      else if v = site_filtered Start then 9 # site_bytes Start
      else if v = site_filtered Updated then 9 # site_bytes Updated
      else if v = site_filtered Copied then 9 # site_bytes Copied
      else if v = site_rpc then [7, 7] else [9])"

text \<open>One frame per packet, under the management rule.\<close>

definition site_runtime :: "device_id \<Rightarrow> runtime" where
  "site_runtime d =
     \<lparr>rt_device = d,
      encode_detailed = (\<lambda>_ _ packet. Inr \<lparr>enc_rule_id = RuleId 1 3,
         enc_frame = \<lparr>frame_data = 32 # packet, frame_bits = 3 + 8 * length packet\<rparr>\<rparr>),
      decode_padded_detailed = (\<lambda>_ _ frame. case frame of [] \<Rightarrow> Inl ''short''
         | b # packet \<Rightarrow> Inr \<lparr>dec_rule_id = RuleId 1 3, dec_packet = packet\<rparr>)\<rparr>"

text \<open>The hash is the end of the hashed text, filled up to 32 bytes.\<close>

definition site_hash :: "bytes \<Rightarrow> bytes" where
  "site_hash bs = take 32 (rev bs @ replicate 32 0)"

definition site_tag :: "stage \<Rightarrow> bytes" where
  "site_tag n = site_bytes n @ [1, 0, 0, 0, 0, 0, 0]"

text \<open>The messages: the update, the copy, the context check of the first stage, the response 2.04, and a
  content response.\<close>

definition site_update_packet :: lite_packet where
  "site_update_packet = (add_option opt_content_format [142] (base_request MIPatch 0))\<lparr>lp_payload := [9]\<rparr>"

definition site_copy_packet :: lite_packet where
  "site_copy_packet = duplicate_rule_packet [7, 7] 0"

definition site_response :: lite_packet where
  "site_response = \<lparr>lp_code = LiteResponse 68, lp_type = Acknowledgement, lp_message_id = 0, lp_token = [],
     lp_options = [], lp_payload = []\<rparr>"

definition site_check_packet :: lite_packet where
  "site_check_packet = check_packet (site_tag Start) 0"

definition content_response :: "bytes \<Rightarrow> lite_packet" where
  "content_response payload = site_response\<lparr>lp_code := LiteResponse 69, lp_payload := payload\<rparr>"

definition site_respond :: "lite_packet \<Rightarrow> coreconf_response \<Rightarrow> lite_packet" where
  "site_respond request response =
     (case response of
        ContentResponse payload _ \<Rightarrow>
          (content_response payload)\<lparr>lp_message_id := lp_message_id request, lp_token := lp_token request\<rparr>
      | _ \<Rightarrow> site_response)"

definition site_response_bytes :: "lite_packet \<Rightarrow> string + bytes" where
  "site_response_bytes l =
     (if l = site_response then Inr [2] else if l = content_response (lp_payload l) then Inr (5 # lp_payload l)
      else Inl [])"

definition site_lite :: "bytes \<Rightarrow> lite_packet" where
  "site_lite bs =
     (if bs = [1] then site_update_packet else if bs = [3] then site_copy_packet
      else if bs = [4] then site_check_packet else if take 1 bs = [5] then content_response (drop 1 bs)
      else site_response)"

lemma site_lite_simps [simp]:
  "site_lite [1] = site_update_packet" "site_lite [2] = site_response" "site_lite [3] = site_copy_packet"
  "site_lite [4] = site_check_packet" "site_lite (5 # payload) = content_response payload"
  "lp_token site_update_packet = []" "lp_type site_response = Acknowledgement"
  by (simp_all add: site_lite_def) (simp_all add: site_update_packet_def base_request_def add_option_def site_response_def)

definition site_message :: "bytes \<Rightarrow> coap_message" where
  "site_message bs = \<lparr>cm_version = 1, cm_type = type_number (lp_type (site_lite bs)),
     cm_code = (case lp_code (site_lite bs) of LiteResponse c \<Rightarrow> c | _ \<Rightarrow> 0),
     cm_message_id = lp_message_id (site_lite bs), cm_token = lp_token (site_lite bs), cm_options = [], cm_payload = lp_payload (site_lite bs)\<rparr>"

text \<open>A packet from the core, or from the device: its first byte says which.\<close>

definition site_packet :: "bool \<Rightarrow> bytes \<Rightarrow> coap_packet" where
  "site_packet core datagram =
     \<lparr>ud_bytes = (if core then 0 else 1) # datagram, ud_payload = datagram,
      ud_source = (if core then core_logical_address else device_logical_address),
      ud_destination = (if core then device_logical_address else core_logical_address),
      ud_source_port = management_port, ud_destination_port = management_port,
      ud_traffic_class = 0, ud_flow_label = 0, ud_ipv6_payload_length = 0,
      ud_next_header = 17, ud_hop_limit = 64, ud_udp_length = 0, ud_udp_checksum = 0,
      cp_message = site_message datagram\<rparr>"

definition site_rpc_instance :: path_instance where
  "site_rpc_instance = \<lparr>in_path = [SidDelta 11], in_value = Some (JObject [(''input'', JObject
     [(''from'', JObject [(''rule-id-length'', json_nat 3), (''rule-id-value'', json_nat 5)]),
      (''to'', JObject [(''rule-id-length'', json_nat 8), (''rule-id-value'', json_nat 9)])])])\<rparr>"

definition site :: report_ext where
  "site = (flow_ext.extend world (report_ext.fields
      (\<lambda>_. Inl (PacketRejected [])) (\<lambda>_. []) 40 8 6 17))
     \<lparr>sha256 := site_hash,
      model_from_sid_str := (\<lambda>_. Inr site_model),
      from_reader := (\<lambda>bs. Inr (if bs = [7, 7] then site_rpc else site_sor (stage_of_bytes bs), length bs)),
      into_writer := (\<lambda>v. Inr (site_write v)),
      json_to_vec := (\<lambda>t. Inr (site_bytes (stage_of_tree t))),
      context_from_cbor_slice := (\<lambda>bs _. Inr (if take 1 bs = [9] then rules_context (site_application_rules (stage_of_bytes (drop 1 bs)))
         else site_rules (stage_of_bytes bs))),
      runtime_new := (\<lambda>d _ _. Inr (site_runtime d)),
      set_path := (\<lambda>_ _ _. Inr (site_tree Updated)),
      packet_to_request := (\<lambda>_ _. Inr world_request),
      decode_instances_identifiers := (\<lambda>_ _. Inr [site_rpc_instance]),
      parse_udp_packet := (\<lambda>bs. case bs of [] \<Rightarrow> Inl [] | k # d \<Rightarrow> Inr (udp_packet.truncate (site_packet (k = 0) d))),
      coap_from_udp := (\<lambda>u. Inr (site_packet (ud_source u = core_logical_address) (ud_payload u))),
      coap_packet_new := (\<lambda>source destination _ _ d.
        if source = core_logical_address \<and> destination = device_logical_address then Inr (site_packet True d)
        else if source = device_logical_address \<and> destination = core_logical_address then Inr (site_packet False d)
        else Inl []),
      lite_to_bytes := (\<lambda>l. if l = site_update_packet then Inr [1] else if l = site_copy_packet then Inr [3]
        else if l = site_check_packet then Inr [4] else Inl []),
      lite_from_bytes := (\<lambda>bs. Inr (site_lite bs)),
      response_to_packet := site_respond,
      to_bytes_unlimited := site_response_bytes\<rparr>"

lemma site_tree_eq [simp]: "site_tree n = site_tree m \<longleftrightarrow> n = m"
  by (cases n; cases m) (simp_all add: site_tree_def site_json_rule_def site_entry_def json_byte_def)

lemma stage_of [simp]: "stage_of_bytes (site_bytes n) = n" "stage_of_tree (site_tree n) = n"
  by (cases n; simp add: stage_of_bytes_def site_bytes_def stage_of_tree_def)+

lemma site_bytes_simps [simp]: "length (site_bytes n) = 1" "site_bytes n \<noteq> [7, 7]" "site_bytes n \<noteq> [9]" "take 1 (site_bytes n) \<noteq> [9]"
  by (cases n; simp add: site_bytes_def)+

lemma site_sor_eq [simp]: "site_sor n = site_sor m \<longleftrightarrow> n = m" "site_filtered n = site_filtered m \<longleftrightarrow> n = m"
    "site_sor n \<noteq> site_filtered m" "site_filtered m \<noteq> site_sor n"
  by (cases n; cases m; simp add: site_sor_def site_filtered_def sor_rule_def)+

lemma site_write_simps [simp]:
  "site_write (site_sor n) = site_bytes n" "site_write (site_filtered n) = 9 # site_bytes n"
  by (cases n; simp add: site_write_def)+

lemma site_tree_normal [simp]: "normalize_tree (site_tree n) = Inr (site_tree n)"
  by (cases n) (simp_all add: normalize_tree_def site_tree_def site_json_rule_def site_entry_def normalize_array_def
      rule_sort_key_def entry_sort_key_def json_byte_def Let_def)

lemma site_model_simps [simp]:
  "get_sid site_model p = get_sid dup_model p" "get_identifier site_model i = get_identifier dup_model i"
  "to_value site_model bs = Inr (site_tree (stage_of_bytes bs))"
  "json_to_cbor site_model t = Inr (site_sor (stage_of_tree t))"
  "identifier_to_sid_at site_model v p = Inr v" "sid_to_identifier_at site_model v p = Inr v"
  "get_keys site_model = get_keys upd_model"
  by (simp_all add: site_model_def upd_model_def)

lemma site_simps [simp]:
  "from_reader site bs = Inr (if bs = [7, 7] then site_rpc else site_sor (stage_of_bytes bs), length bs)"
  "into_writer site v = Inr (site_write v)" "json_to_vec site t = Inr (site_bytes (stage_of_tree t))"
  "sha256 site = site_hash" "model_from_sid_str site sid = Inr site_model"
  "registry_from_json_str site sid = registry_from_json_str world sid"
  "context_from_cbor_slice site bs reg = Inr (if take 1 bs = [9]
     then rules_context (site_application_rules (stage_of_bytes (drop 1 bs))) else site_rules (stage_of_bytes bs))"
  "runtime_new site device ctx prof = Inr (site_runtime device)"
  "datastore_with_data site m t = Inr t" "get_all site t = t" "push_delta site p d = Inr (p @ [SidDelta d])"
  "decode_instances site m bs = Inr [update_instance upd_update]"
  "decode_instances_identifiers site m bs = Inr [site_rpc_instance]"
  "create_xpath site t k ks = Inr (if k = 10 then ''leaf'' else ''entry'')"
  "get_path site t q = Inr (Some (if q = ''leaf'' then JArray [json_byte 22, json_byte 51]
     else JObject [(''field-length'', json_nat 16)]))"
  "set_path site t q w = Inr (site_tree Updated)" "predicate_path site q = Inr q"
  "absolute_sid site (up_path upd_update) = Some 10"
  by (simp_all add: site_def flow_ext.defs report_ext.defs del: world_simps)
    (simp_all add: world_simps world_def demo_flow_def demo_mgmt_def packet_ext.defs management_ext.defs flow_ext.defs upd_update_def)

lemma site_packet_simps [simp]:
  "packet_to_request site l t = Inr world_request"
  "parse_udp_packet site bs = (case bs of [] \<Rightarrow> Inl [] | k # d \<Rightarrow> Inr (udp_packet.truncate (site_packet (k = 0) d)))"
  "coap_from_udp site u = Inr (site_packet (ud_source u = core_logical_address) (ud_payload u))"
  "coap_packet_new site source destination sp dp d =
     (if source = core_logical_address \<and> destination = device_logical_address then Inr (site_packet True d)
      else if source = device_logical_address \<and> destination = core_logical_address then Inr (site_packet False d)
      else Inl [])"
  "lite_to_bytes site l = (if l = site_update_packet then Inr [1] else if l = site_copy_packet then Inr [3]
     else if l = site_check_packet then Inr [4] else Inl [])"
  "lite_from_bytes site bs = Inr (site_lite bs)"
  "response_to_packet site = site_respond" "to_bytes_unlimited site = site_response_bytes"
  by (simp_all add: site_def flow_ext.defs report_ext.defs del: world_simps)

subsection \<open>The contexts\<close>

definition site_protected :: protected_rules where
  "site_protected = [\<lparr>pr_id = RuleId 1 3, pr_rule = site_management_rule\<rparr>]"

definition site_prepared :: "stage \<Rightarrow> prepared_context" where
  "site_prepared n =
     (let digest = site_hash (digest_input (site_bytes n) (site_bytes n)); rules = ctx_rules (site_rules n) in
      \<lparr>pc_recipe = \<lparr>rc_sid_json = ''m'', rc_device = 3, rc_profile = 0, rc_dynamic = None, rc_context_profile = None\<rparr>,
       pc_data = \<lparr>cd_tree = site_tree n, cd_sor = site_bytes n, cd_runtime = site_runtime 3,
         cd_application_runtime = site_runtime 3,
         cd_application_rule_ids = map rule_id_of (site_application_rules n),
         cd_protected = site_protected, cd_guard = None, cd_rule_ids = map rule_id_of rules,
         cd_rules = rules, cd_digest = digest, cd_tag = context_tag digest\<rparr>\<rparr>)"

definition site_loaded :: "stage \<Rightarrow> loaded_context" where
  "site_loaded n =
     \<lparr>lc_model = site_model, lc_registry = 0, lc_rule_context = site_rules n,
      lc_tree = site_tree n, lc_sor = site_bytes n, lc_protected = site_protected, lc_guard = None\<rparr>"

lemma site_derive [simp]: "derive (site_rules n) = Inr site_protected"
  by (simp add: derive_def management_ids_def site_rules_def rules_context_def site_application_rules_def
      site_management_rule_def site_rule_def site_protected_def Let_def)

lemma site_guard [simp]: "guard_period_from_tree (site_tree n) = Inr None"
  by (simp add: guard_period_from_tree_def site_tree_def)

lemma site_strict [simp]: "strict_cbor_value site (site_bytes n) = Inr (site_sor n)"
  by (simp add: strict_cbor_value_def) (simp add: site_sor_def sor_rule_def)

lemma site_encode [simp]: "encode_tree site site_model (site_tree n) = Inr (site_bytes n)"
  by (simp add: encode_tree_def)

lemma site_load [simp]: "load_sor site sid (site_bytes n) = Inr (site_loaded n)"
proof -
  have "ensure_schc_root (site_sor n) 1 = Inr ()" by (simp add: ensure_schc_root_def site_sor_def)
  then show ?thesis by (simp add: load_sor_def site_loaded_def)
qed

lemma site_sids [simp]:
  "get_sid dup_model ''/ietf-schc:schc/rule'' = Some 2" "get_sid dup_model ''/ietf-schc:schc/rule/rule-id-length'' = Some 3"
  "get_sid dup_model ''/ietf-schc:schc/rule/rule-id-value'' = Some 4"
  by (simp_all add: dup_model_def sid_paths_def upt_rec)

text \<open>The rules of the application runtime are the SoR without its management rule.\<close>

lemma site_filter [simp]: "filter_sor_rules site_model site_protected (site_sor n) = Inr (site_filtered n)"
  by (cases n) (simp_all add: filter_sor_rules_def i64_checked_sub_def i64_max_def site_sor_def site_filtered_def
      sor_rule_def retained_def cbor_rule_id_def protected_contains_def site_protected_def)

lemma site_application [simp]:
  "application_runtime site (site_bytes n) site_model reg site_protected ctx d prof
     = Inr (site_runtime d, map rule_id_of (site_application_rules n))"
  by (simp add: application_runtime_def protected_ids_def) (simp add: site_protected_def rules_context_def)

lemma site_from_tree [simp]:
  "from_tree_for_recipe site (pc_recipe (site_prepared n)) (site_tree m) = Inr (site_prepared m)"
  by (simp add: from_tree_for_recipe_def from_source_def from_loaded_def check_namespace_def
      digest_context_def site_prepared_def site_loaded_def Let_def)

lemma site_prepared_for: "prepared_for site (site_prepared n) (site_loaded n)"
proof -
  have "prepared_for site (site_prepared n) l" if "load_source site [] (TreeSource (site_tree n)) = Inr l" for l
    using that site_from_tree [of n n] load_source_coherent(1) [OF that]
    by (auto simp: prepared_for_def from_tree_for_recipe_def from_source_def coherent_def site_loaded_def)
  then show ?thesis by (simp add: site_loaded_def)
qed

abbreviation site_active :: active_context where
  "site_active \<equiv> active_new (site_prepared Start)"

lemma site_active_ok: "active_ok site (active_new (site_prepared n))"
  using site_prepared_for by (rule active_new_ok)

lemma site_active_simps [simp]:
  "ac_recipe (active_new (site_prepared n)) = pc_recipe (site_prepared n)"
  "active_data (active_new (site_prepared n)) = pc_data (site_prepared n)"
  "active_generation (active_new (site_prepared n)) = 1"
  "sn_dynamic (ac_snapshot (active_new (site_prepared n))) = None"
  by (simp_all add: active_new_def from_prepared_def site_prepared_def Let_def)

lemma site_data [simp]:
  "cd_tree (pc_data (site_prepared n)) = site_tree n" "cd_protected (pc_data (site_prepared n)) = site_protected"
  "cd_rules (pc_data (site_prepared n)) = site_management_rule # site_application_rules n"
  "cd_runtime (pc_data (site_prepared n)) = site_runtime 3"
  "cd_rule_ids (pc_data (site_prepared n)) = RuleId 1 3 # map rule_id_of (site_application_rules n)"
  by (simp_all add: site_prepared_def site_rules_def rules_context_def site_management_rule_def Let_def)

lemma site_protects [simp]:
  "protected_contains site_protected i \<longleftrightarrow> i = RuleId 1 3"
  by (auto simp: site_protected_def protected_contains_def)

definition site_published :: "stage \<Rightarrow> active_context" where
  "site_published n = site_active\<lparr>ac_snapshot := from_prepared (site_prepared n) 2\<rparr>"

lemma site_published_simps [simp]:
  "active_generation (site_published n) = 2" "active_data (site_published n) = pc_data (site_prepared n)"
  "ac_recipe (site_published n) = pc_recipe (site_prepared Start)"
  by (simp_all add: site_published_def from_prepared_def)

lemma site_publish: "publish_locked site_active (site_prepared n) = Some (site_published n)"
  by (simp add: publish_locked_def site_published_def active_new_def from_prepared_def u64_bound_def Let_def)

lemma site_renumbered_ok:
  assumes "0 < g" and "g < u64_bound"
  shows "active_ok site (renumbered (site_published n) g)"
proof -
  have "active_ok site (renumbered (active_new (site_prepared n)) g)"
    using site_active_ok [of n] assms unfolding active_ok_def active_prepared_def by (simp add: renumbered_def)
  moreover have "renumbered (site_published n) g = renumbered (active_new (site_prepared n)) g"
    by (simp add: renumbered_def site_published_def active_new_def from_prepared_def site_prepared_def Let_def)
  ultimately show ?thesis by simp
qed

lemma site_candidate: "prepare_candidate site site_active (site_tree n) = Inr (site_prepared n)"
proof -
  have "validate_candidate site site_active (ac_snapshot site_active) (site_prepared n) = Inr ()"
    by (rule publishable [OF site_active_ok, where tree = "site_tree n"]) (simp_all add: enforce_def site_protected_def)
  then show ?thesis by (simp add: prepare_candidate_Inr)
qed

subsection \<open>The channel\<close>

lemma addresses_differ [simp]: "core_logical_address \<noteq> device_logical_address" "device_logical_address \<noteq> core_logical_address"
  by (simp_all add: core_logical_address_def device_logical_address_def)

lemma site_readable: "readable site (site_packet core datagram)"
  by (simp add: readable_def udp_packet.defs) (simp add: site_packet_def udp_packet.defs)

lemma site_reads_alike: "reads_alike site (site_packet core datagram) datagram"
  by (simp add: reads_alike_def site_packet_def site_message_def split: lite_code.split)

lemma site_packet_law: "packet_law site"
  using site_readable site_reads_alike
  by (simp add: packet_law_def) (simp add: site_packet_def oriented_def)

lemma site_codec_law: "codec_law site"
  by (simp add: codec_law_def site_runtime_def)

lemmas site_laws = site_packet_law site_codec_law

lemma site_selects:
  assumes "cd_runtime (active_data a) = site_runtime d" and "cd_runtime (active_data b) = site_runtime d"
  shows "selects_alike site a b role p"
  by (simp add: selects_alike_def assms)

lemma site_packets_differ [simp]:
  "site_update_packet \<noteq> site_copy_packet" "site_copy_packet \<noteq> site_update_packet"
  "site_check_packet \<noteq> site_update_packet" "site_check_packet \<noteq> site_copy_packet"
  by (simp_all add: site_update_packet_def site_copy_packet_def site_check_packet_def check_packet_def
      duplicate_rule_packet_def add_option_def base_request_def)

lemma site_readback: "coap_readback site"
  by (simp add: coap_readback_def site_lite_def)

text \<open>Both sides can encode what they send.\<close>

lemma site_encodes:
  assumes "active_data a = pc_data (site_prepared n)" and "sl_device lk = 3"
  shows "\<exists>enc. encode_packet site a lk OriginManagement p = Inr enc \<and> frame_data (le_frame enc) = 32 # ud_bytes p
    \<and> lr_traffic_class (le_report enc) = ProtectedManagement"
  using assms
  by (simp add: encode_packet_def encode_validated_def origin_runtime_def site_runtime_def classify_def contains_rule_id_def
      enforce_origin_def report_of_def Let_def)

definition site_state :: core_state where
  "site_state = \<lparr>co_active = site_active, co_next_id = 0, co_machine = machine_new\<rparr>"

text \<open>A link that delivers one frame, to the thirteenth call of the process: it sends, reads the clock, and
  then waits for two quiet turns of four calls.\<close>

definition site_env :: "bytes \<Rightarrow> process_env" where
  "site_env reply =
     \<lparr>tun_read = (\<lambda>_. Inl WouldBlock), tun_write = (\<lambda>_. Inr 0),
      link_recv = (\<lambda>n. if n = 12 then (Inr (length reply, []), reply) else (Inl ''timeout'', [])),
      link_send = (\<lambda>_. Inr 3), link_peer = [], io_not_ready = (\<lambda>_. True), device_error_text = (\<lambda>_. []),
      flush_stdout = (\<lambda>_. Inr ()), clock = (\<lambda>n. n)\<rparr>"

definition site_config :: core_config where
  "site_config = \<lparr>cfg_model = site_model, cfg_registry = 0, cfg_env = site_env [32, 1, 2],
     cfg_debug = False, cfg_code_text = (\<lambda>_. [])\<rparr>"

lemma site_config_simps [simp]: "cfg_model site_config = site_model" "cfg_debug site_config = False"
    "cfg_env site_config = site_env [32, 1, 2]"
  by (simp_all add: site_config_def)

subsection \<open>The update\<close>

definition site_update :: rule_update_request where
  "site_update = \<lparr>ru_rule = selector 5 3, ru_entry = EntryIndex 4, ru_target_value = show_nat 300, ru_if_match = False\<rparr>"

lemma site_resolve [simp]: "resolve_sids site_model = Inr demo_sids"
proof -
  have "resolve_sid site_model = resolve_sid dup_model" by (intro ext) (simp add: resolve_sid_def)
  then show ?thesis using dup_resolve by (simp add: resolve_sids_def)
qed

lemma site_shapes [simp]:
  "validate_update_model_shape site_model = Inr demo_sids" "validate_duplicate_model_shape site_model = Inr demo_sids"
  by (simp_all add: validate_update_model_shape_def validate_duplicate_model_shape_def require_list_keys_def dup_identifier)

lemma site_decode: "decode_target_ipatch site site_model world_request
    = Inr (demo_sids, \<lparr>tp_selector = selector 5 3, tp_path = up_path upd_update, tp_value = up_value upd_update\<rparr>)"
proof -
  have "push_delta_ok site" by (simp add: push_delta_ok_def)
  moreover have "target_value_path site demo_sids (selector 5 3) 4 0 = Inr (up_path upd_update)"
    by (simp add: target_value_path_def push_sid_def upd_update_def)
  moreover have "selector_new 5 3 = Inr (selector 5 3)" by (simp add: selector_new_def)
  ultimately have "target_patch_from_instance site (update_instance upd_update) demo_sids
      = Inr \<lparr>tp_selector = selector 5 3, tp_path = up_path upd_update, tp_value = up_value upd_update\<rparr>"
    unfolding update_instance_def
    by (intro target_patch_of_path [of site, where e = 4 and t = 0]) (simp_all add: usize_bound_def)
  then show ?thesis by (simp add: decode_target_ipatch_def world_request_def)
qed

lemma site_patched: "patched_tree site site_model demo_sids (ac_snapshot site_active)
    \<lparr>tp_selector = selector 5 3, tp_path = up_path upd_update, tp_value = up_value upd_update\<rparr>
    = Inr (site_tree Updated)"
proof -
  have k: "tree_key_for_sid site_model 7 = Inr ''field-length''"
    by (simp add: tree_key_for_sid_def dup_identifier last_segment_def sid_paths_def Let_def)
  have "be_bytes (Suc (Suc 0)) 300 = [1, 44]" by simp
  then have b: "be_bytes 2 300 = [1, 44]" by (simp only: numeral_2_eq_2)
  have v: "up_value upd_update = JArray [json_byte 1, json_byte 44]" by (simp add: upd_update_def b)
  show ?thesis
    by (simp add: patched_tree_def k v conflict_of_def conflict_of_error_def binary_bytes_pair entry_field_length_def
        replacement_value_def fits_iff_number be_nat_def Let_def)
qed

lemma site_plain_response [simp]:
  "site_response_bytes (clear_option n (site_respond request ChangedResponse)) = Inr [2]"
  by (simp add: site_response_bytes_def site_respond_def clear_option_def site_response_def)

lemma site_handled:
  "handle_datagram site site_model site_active [1] = (site_published Updated, Answered (Inr [2]))"
proof -
  have "ipatch_candidate site site_model site_active world_request None = Inr (site_prepared Updated)"
    by (simp add: ipatch_candidate_def site_decode check_target_rule_def site_application_rules_def site_rule_def
        selector_id_def site_patched site_candidate)
  then have "apply_target_ipatch site site_model site_active world_request None = (site_published Updated, Answered (Inr ChangedResponse))"
    by (simp add: apply_target_ipatch_def publish_and_def site_publish)
  then show ?thesis
    by (simp add: handle_datagram_def handle_packet_def handle_target_ipatch_def is_duplicate_rule_coap_shape_def
        site_lite_def site_update_packet_def base_request_def add_option_def parse_if_match_option_def get_option_def
        option_numbers packet_without_content_format_def)
qed

lemma site_resolved:
  "resolve_target_value site site_update
     (detail_from_rule (nature_as_str site) (site_rule Start 5 3)) (site_tree Start) site_model
   = Inr (upd_update\<lparr>up_request := site_update\<rparr>)"
proof -
  have e: "resolve_request_entry site_update (detail_from_rule (nature_as_str site) (site_rule Start 5 3)) = Inr 4"
    by (simp add: resolve_request_entry_def detail_from_rule_def site_rule_def site_update_def rule_id_selector_def
        resolve_entry_index_def entry_from_rule_def entry_matches_selector_def Let_def)
  have l: "tree_key_for_sid site_model 7 = Inr ''field-length''"
    by (simp add: tree_key_for_sid_def dup_identifier last_segment_def sid_paths_def Let_def)
  have k: "update_keys_of site_model demo_sids = update_keys_of upd_model demo_sids"
    by (simp add: update_keys_of_def tree_key_for_sid_def)
  have p: "get_identifier dup_model 10 = Some (sid_paths ! 9)" by (simp add: dup_identifier)
  have "update_from_request site site_update 4 (site_tree Start) site_model
      = Inr (upd_update\<lparr>up_request := site_update\<rparr>)"
    unfolding update_from_request_def upd_update_def
    by (simp add: k upd_keys site_tree_def site_json_rule_def site_entry_def site_update_def select_rule_def select_entry_def
        select_target_def tree_rule_is_def bounded_u64_def usize_bound_def l p binary_bytes_pair demo_bytes_300
        target_value_path_def push_sid_def Let_def del: be_bytes.simps list.map)
  with e show ?thesis by (simp add: resolve_target_value_def)
qed

lemma site_if_match: "ru_if_match site_update = False"
  by (simp add: site_update_def)

lemma site_command: "parse_rule_update_command (render_update site_update) = Inr site_update"
proof (rule parse_render_update)
  show "valid_update site_update"
    using show_nat_digits [of 300] show_nat_word [of 300]
    by (auto simp: site_update_def valid_update_def valid_selector_def valid_entry_selector_def valid_target_text_def
        list_ex_iff list_all_iff is_control_def is_digit_def usize_bound_def Let_def)
qed

lemma site_planned:
  "plan_update site site_config (ac_snapshot site_active) site_update = Inr (upd_update\<lparr>up_request := site_update\<rparr>)"
  using site_resolved
  by (simp add: plan_update_def detail_from_snapshot_def selector_id_def site_application_rules_def
      site_management_rule_def site_update_def site_rule_def Let_def)

lemma site_datagram:
  "ipatch_datagram site (upd_update\<lparr>up_request := site_update\<rparr>) 0 None = Inr [1]"
proof -
  have "site_write (CMap [(k, CBytes bs)]) = [9]" for k bs
    by (simp add: site_write_def site_sor_def site_filtered_def site_rpc_def)
  then show ?thesis
    by (simp add: ipatch_datagram_def ipatch_packet_def ipatch_payload_def upd_update_def site_update_def
        demo_bytes_300 binary_bytes_pair site_update_packet_def Let_def del: be_bytes.simps list.map)
qed

lemma site_changed: "validate_changed_response site f [1] [2] = Inr ()"
  by (simp add: validate_changed_response_def site_lite_def site_update_packet_def site_response_def base_request_def add_option_def)

lemma site_fresh [simp]: "snd (fresh_id site_state) = 0" "co_active site_state = site_active"
    "ma_calls (co_machine site_state) = 0"
  by (simp_all add: site_state_def fresh_id_def next_management_message_id_def management_mid_modulus_def machine_new_def Let_def)

subsection \<open>The update, end to end\<close>

definition site_device :: device_state where
  "site_device = \<lparr>de_active = renumbered site_active 7, de_machine = machine_new\<rparr>"

lemma site_device_simps [simp]:
  "de_active site_device = renumbered site_active 7" "de_machine site_device = machine_new"
  by (simp_all add: site_device_def)

lemma site_device_ok: "active_ok site (renumbered site_active 7)"
  using site_active_ok [of Start] unfolding active_ok_def active_prepared_def
  by (simp add: renumbered_def u64_bound_def)

lemma site_room [simp]: "room site_active" "room (renumbered site_active 7)"
  by (simp_all add: room_def u64_bound_def)

lemma site_link_simps [simp]:
  "sl_device (link_new site_active role) = 3" "sl_role (link_new a role) = role"
  by (simp_all add: link_new_def site_prepared_def active_new_def from_prepared_def site_runtime_def Let_def)

lemma site_update_shape: "\<not> is_duplicate_rule_coap_shape site_update_packet"
  by (simp add: is_duplicate_rule_coap_shape_def site_update_packet_def base_request_def add_option_def)

lemma site_update_datagram_shape: "\<not> is_duplicate_rule_datagram site [1]"
  using site_update_shape by (simp add: is_duplicate_rule_datagram_def)

lemma site_prepares:
  assumes "site_lite [k] = q" and "lite_to_bytes site q = Inr [k]" and "\<not> is_duplicate_rule_coap_shape q"
    and "lp_token q = []" and "lp_message_id q < 65536"
  shows "\<exists>prepared. fst (prepare_management_request site site_active (link_new site_active RoleCore) [k] EmptyToken 0) = Inr prepared
    \<and> frame_data (pr_frame prepared) = [32, 0, k]"
proof -
  obtain enc where enc: "encode_packet site site_active (link_new site_active RoleCore) OriginManagement (site_packet True [k]) = Inr enc"
      "frame_data (le_frame enc) = 32 # ud_bytes (site_packet True [k])" "lr_traffic_class (le_report enc) = ProtectedManagement"
    using site_encodes [of site_active Start "link_new site_active RoleCore" "site_packet True [k]"] by auto
  have token: "q\<lparr>lp_token := []\<rparr> = q" using assms(4) by simp
  have "fst (apply_token_policy site [k] EmptyToken 0) = Inr [k]"
    using token assms(1,2) by (simp add: apply_token_policy_def policy_token_def del: site_packet_simps(5))
  moreover have "exchange_from_message (cp_message (site_packet True [k])) = Inr \<lparr>ex_message_id = lp_message_id q, ex_token = []\<rparr>"
    using assms(1,4)
    by (simp add: exchange_from_message_def exchange_new_def coap_token_new_def site_packet_def site_message_def max_coap_token_len_def)
  moreover have "\<not> is_duplicate_rule_datagram site [k]"
    using assms(1,3) by (simp add: is_duplicate_rule_datagram_def)
  ultimately show ?thesis using enc
    by (simp add: prepare_management_request_def case_prod_beta encode_management_def Let_def) (simp add: site_packet_def)
qed

lemma site_update_prepares:
  "\<exists>prepared. fst (prepare_management_request site site_active (link_new site_active RoleCore) [1] EmptyToken 0) = Inr prepared
    \<and> frame_data (pr_frame prepared) = [32, 0, 1]"
  by (rule site_prepares [of 1 site_update_packet]) (simp_all add: site_update_shape, simp add: site_update_packet_def base_request_def add_option_def)

lemma site_answers:
  assumes "b = renumbered (site_published n) g"
  shows "\<exists>enc. encode_packet site b (link_new b RoleDevice) OriginManagement (site_packet False response) = Inr enc
    \<and> frame_data (le_frame enc) = 32 # 1 # response"
proof -
  have "sl_device (link_new b RoleDevice) = 3"
    by (simp add: assms link_new_def) (simp add: renumbered_def site_published_def site_prepared_def from_prepared_def site_runtime_def Let_def)
  then show ?thesis
    using site_encodes [of b n "link_new b RoleDevice" "site_packet False response"] assms
    by (auto simp: site_packet_def)
qed

lemma site_delivers:
  "frame_data frame = [32, 0, k] \<Longrightarrow> reply \<noteq> [] \<Longrightarrow> length reply < 100 \<Longrightarrow> delivers (site_env reply) 0 frame reply"
  by (auto simp: delivers_def site_env_def send_frame_def send_bytes_def operation_timeout_def receives_def recv_bytes_def
      recv_def quiet_turn_def recv_idle_def Let_def intro!: exI [of _ 2])

text \<open>A device whose socket takes frames of one length.\<close>

definition taking :: "nat \<Rightarrow> process_env" where
  "taking n = quiet_env\<lparr>link_send := (\<lambda>_. Inr n)\<rparr>"

lemma taking_takes: "frame_data frame \<noteq> [] \<Longrightarrow> send_frame (link_send (taking (length (frame_data frame))) k) frame = Inr ()"
  by (simp add: taking_def send_frame_def send_bytes_def)

lemma site_update_answer: "answers_request site_update_packet 68 site_response"
  by (simp add: answers_request_def site_update_packet_def site_response_def base_request_def add_option_def)

lemma site_executed:
  "\<exists>t. execute_rule_update site site_config (render_update site_update) (send_update site site_config) site_state
     = Some (t, Inr CommandSuccessful) \<and> co_active t = site_published Updated"
proof -
  let ?b = "renumbered (site_published Updated) 8"
  obtain prepared where prepared: "fst (prepare_management_request site site_active (link_new site_active RoleCore) [1] EmptyToken 0)
      = Inr prepared" "frame_data (pr_frame prepared) = [32, 0, 1]" using site_update_prepares by blast
  obtain renc where renc: "encode_packet site ?b (link_new ?b RoleDevice) OriginManagement (site_packet False [2]) = Inr renc"
      "frame_data (le_frame renc) = [32, 1, 2]" using site_answers [OF refl, of Updated 8 "[2]"] by blast
  have "selects_alike site ?b site_active RoleDevice (site_packet False [2])" by (rule site_selects) simp_all
  moreover have "active_ok site ?b"
    by (rule site_renumbered_ok) (simp_all add: u64_bound_def)
  ultimately have "\<exists>v exchange. routed site site_config [1] (fst (fresh_id site_state)) = Some (v, Inr (68, exchange))
      \<and> me_payload exchange = lp_payload site_response \<and> co_active v = co_active site_state"
    using prepared renc site_delivers [OF prepared(2), of "[32, 1, 2]"]
    by (intro answer_accepted [of site site_config ?b site_state site_update_packet "[1]" prepared "[2]" site_response 68
          "site_packet False [2]" renc])
      (simp_all add: site_laws site_active_ok site_readback site_update_answer)
  then obtain v exchange where "routed site site_config [1] (fst (fresh_id site_state)) = Some (v, Inr (68, exchange))"
    "co_active v = co_active site_state" by blast
  from update_succeeds [OF site_command _ _ this, of "upd_update\<lparr>up_request := site_update\<rparr>" "site_published Updated" "[2]"]
  show ?thesis using site_planned site_datagram site_handled site_changed by (simp add: site_update_def)
qed

lemma site_update_leaves_context: "leaves_context (send_update site site_config)"
  by (rule send_update_leaves_context)

lemma update_changes_device_first_witness:
  "\<exists>t datagram. execute_rule_update site site_config (render_update site_update) (send_update site site_config) site_state
      = Some (t, Inr CommandSuccessful)
    \<and> co_active t = fst (handle_datagram site site_model (co_active site_state) datagram)"
proof -
  obtain t where t: "execute_rule_update site site_config (render_update site_update) (send_update site site_config) site_state
      = Some (t, Inr CommandSuccessful)" using site_executed by blast
  from update_changes_device_first [OF t site_update_leaves_context] t show ?thesis by auto
qed

lemma update_leaves_contexts_equal_witness:
  "\<exists>t. execute_rule_update site site_config (render_update site_update) (send_update site site_config) site_state
      = Some (t, Inr CommandSuccessful) \<and> active_generation (co_active t) = 2"
proof -
  obtain t where t: "execute_rule_update site site_config (render_update site_update) (send_update site site_config) site_state
      = Some (t, Inr CommandSuccessful)" using site_executed by blast
  have ok: "active_ok site (co_active site_state)" using site_active_ok by simp
  from update_leaves_contexts_equal [OF t site_update_leaves_context ok ok refl refl] t show ?thesis by auto
qed

text \<open>The device is six generations ahead of the core, and ends one further.\<close>

lemma update_reaches_both_ends_witness:
  "\<exists>t (frame :: schc_frame). execute_rule_update site site_config (render_update site_update) (send_update site site_config) site_state
      = Some (t, Inr CommandSuccessful)
    \<and> active_generation (co_active t) = 2
    \<and> active_generation (de_active (fst (receive_device_frame site site_model quiet_env (frame_data frame) False site_device))) = 8"
proof -
  obtain t where t: "execute_rule_update site site_config (render_update site_update) (send_update site site_config) site_state
      = Some (t, Inr CommandSuccessful)" using site_executed by blast
  from update_reaches_both_ends [OF t, of site_device quiet_env] site_laws t
  show ?thesis by (simp add: site_active_ok site_device_ok site_readback numeral_2_eq_2 Let_def) blast
qed

lemma update_completes_witness:
  "\<exists>t. execute_rule_update site site_config (render_update site_update) (send_update site site_config) site_state
      = Some (t, Inr CommandSuccessful)
    \<and> active_data (co_active t) = active_data (de_active (fst (receive_device_frame site site_model (taking 3) [32, 0, 1] False site_device)))"
proof -
  obtain prepared where prepared: "fst (prepare_management_request site site_active (link_new site_active RoleCore) [1] EmptyToken 0)
      = Inr prepared" "frame_data (pr_frame prepared) = [32, 0, 1]" using site_update_prepares by blast
  have same: "replica_of site_active (renumbered site_active 7)" by (rule replica_renumbered)
  obtain b' where b': "handle_datagram site site_model (renumbered site_active 7) [1] = (b', Answered (Inr [2]))"
      "b' = renumbered (site_published Updated) 8"
    using replicas_datagram [OF same, of site site_model "[1]"] site_handled
    by (cases "handle_datagram site site_model (renumbered site_active 7) [1]") (auto simp: agree_def replica_of_def)
  obtain renc where renc: "encode_packet site b' (link_new b' RoleDevice) OriginManagement (site_packet False [2]) = Inr renc"
      "frame_data (le_frame renc) = [32, 1, 2]" using site_answers [OF b'(2), of "[2]"] by blast
  have c: "selects_alike site b' site_active RoleDevice (site_packet False [2])"
    by (rule site_selects) (simp_all add: b'(2))
  have l: "lite_from_bytes site [2] = Inr site_response" "lp_type site_response \<noteq> ResetMessage"
    by (simp_all add: site_lite_def site_response_def)
  have taken: "send_frame (link_send (taking 3) k) (le_frame renc) = Inr ()" for k
    using taking_takes [of "le_frame renc" k] renc(2) by (simp add: eval_nat_numeral)
  from update_completes [of site site_state site_device site_config "render_update site_update" site_update
      "upd_update\<lparr>up_request := site_update\<rparr>" "[1]" prepared "site_published Updated" "[2]" site_response b'
      "site_packet False [2]" renc "taking 3"] site_laws
  show ?thesis
    using taken site_planned site_datagram site_handled site_changed site_delivers [OF prepared(2), of "[32, 1, 2]"] prepared b'(1) renc c l
    by (auto simp: site_active_ok site_device_ok site_readback site_command site_if_match)
qed

subsection \<open>The command, as typed\<close>

lemma join_last: "ws \<noteq> [] \<Longrightarrow> last ws \<noteq> [] \<Longrightarrow> join sep ws \<noteq> [] \<and> last (join sep ws) = last (last ws)"
  by (induction sep ws rule: join.induct) auto

lemma site_typed: "trim (render_update site_update) = render_update site_update"
proof (rule trim_fixed)
  have "list_all is_digit (show_nat 300)" and "show_nat 300 \<noteq> []" by simp_all
  then have "is_digit (last (show_nat 300))" by (simp add: list_all_iff)
  then have "\<not> is_space (last (show_nat 300))" by (auto simp: is_digit_def is_space_def)
  then show "render_update site_update = [] \<or> \<not> is_space (hd (render_update site_update)) \<and> \<not> is_space (last (render_update site_update))"
    using \<open>show_nat 300 \<noteq> []\<close>
      join_last [of "[''rule'', ''update'', show_selector (selector 5 3)] @ entry_words (EntryIndex 4) @ [arg ''tv'' (show_nat 300)]" "'' ''"]
    by (simp add: render_update_def site_update_def arg_def) (simp add: is_space_def)
qed

lemma site_command_handled:
  "handle_command x cfg (render_update site_update) s = execute_rule_update x cfg (render_update site_update) (send_update x cfg) s"
  by (simp add: handle_command_def begins_def strip_prefix_def render_update_def)

lemma site_core_run:
  "\<exists>t. core_loop site site_config True False [Some (render_update site_update)] site_state = Some (t, CoreDone)
    \<and> co_active t = site_published Updated"
proof -
  obtain t where t: "execute_rule_update site site_config (render_update site_update) (send_update site site_config) site_state
      = Some (t, Inr CommandSuccessful)" "co_active t = site_published Updated" using site_executed by blast
  then show ?thesis by (simp add: core_turn_def core_command_phase_def site_typed site_command_handled)
qed

subsection \<open>The device, as started\<close>

definition site_device_env :: process_env where
  "site_device_env = quiet_env\<lparr>link_recv := (\<lambda>n. if n = 1 then (Inr (3, []), [32, 0, 1]) else (Inl ''timeout'', []))\<rparr>"

lemma device_turn_receives:
  assumes "do_poll env (de_machine s) = (m, Inr Idle)" and "do_recv env m = (n, Inr frame)"
  shows "de_active (fst (device_turn x model env once debug s))
    = de_active (fst (receive_device_frame x model env frame debug (s\<lparr>de_machine := n\<rparr>)))"
proof -
  have tun: "device_tun_phase x env once debug s = (s\<lparr>de_machine := m\<rparr>, Going)"
    using assms(1) by (simp add: device_tun_phase_def on_machine_def)
  let ?r = "receive_device_frame x model env frame debug (s\<lparr>de_machine := n\<rparr>)"
  obtain z q where z: "settle once debug ?r = (z, q)" by (cases "settle once debug ?r")
  have "de_active z = de_active (fst ?r)" using settle_active [of once debug ?r] z by simp
  moreover have "de_active (fst (device_link_phase x model env once debug (s\<lparr>de_machine := m\<rparr>))) = de_active z"
    using assms(2) z by (auto simp: device_link_phase_def on_machine_def split: turn.split sum.split prod.split)
  ultimately show ?thesis by (simp add: device_turn_def tun)
qed

lemma site_device_run:
  "de_active (fst (device_loop site site_model site_device_env True False 1 site_device)) = renumbered (site_published Updated) 8"
proof -
  let ?w = "site_device\<lparr>de_machine := tick (tick machine_new)\<rparr>"
  have io: "do_poll site_device_env (de_machine site_device) = (tick machine_new, Inr Idle)"
    "do_recv site_device_env (tick machine_new) = (tick (tick machine_new), Inr [32, 0, 1])"
    by (simp_all add: do_poll_def do_recv_def recv_def recv_bytes_def site_device_env_def quiet_env_def machine_new_def tick_def)
  obtain enc where enc: "encode_packet site site_active (link_new site_active RoleCore) OriginManagement (site_packet True [1]) = Inr enc"
      "frame_data (le_frame enc) = [32, 0, 1]"
    using site_encodes [of site_active Start "link_new site_active RoleCore" "site_packet True [1]"] by (auto simp: site_packet_def)
  have same: "replica_of site_active (de_active ?w)" by (simp add: replica_renumbered)
  obtain z b' where z: "receive_device_frame site site_model site_device_env (frame_data (le_frame enc)) False ?w
        = device_request site site_model site_device_env [1] False z" "de_active z = de_active ?w"
    using device_follows [OF same site_active_ok _ _ _ site_codec_law site_packet_law _ enc(1) site_update_datagram_shape site_handled,
        of site_device_env]
    by (simp add: site_device_ok) metis
  have "agree 1 7 (site_published Updated, Answered (Inr [2])) (handle_datagram site site_model (renumbered site_active 7) [1])"
    using replicas_datagram [OF replica_renumbered, of site_active 7 site site_model "[1]"] site_handled by simp
  then have "fst (handle_datagram site site_model (renumbered site_active 7) [1]) = renumbered (site_published Updated) 8"
    by (auto simp: agree_def replica_of_def)
  moreover have "de_active (fst (device_turn site site_model site_device_env True False site_device))
      = de_active (fst (receive_device_frame site site_model site_device_env [32, 0, 1] False ?w))"
    by (rule device_turn_receives [OF io])
  ultimately have "de_active (fst (device_turn site site_model site_device_env True False site_device)) = renumbered (site_published Updated) 8"
    using z enc(2) by (simp add: device_request_active_eq)
  then show ?thesis
    by (cases "device_turn site site_model site_device_env True False site_device"; cases "snd (device_turn site site_model site_device_env True False site_device)")
      simp_all
qed

text \<open>Both programs have applied the update; the same request still gets through.\<close>

lemma management_channel_survives_witness:
  "\<exists>s' q enc u. core_loop site site_config True False [Some (render_update site_update)] site_state = Some (s', q)
    \<and> co_active s' = site_published Updated
    \<and> encode_packet site (co_active s') (link_new (co_active s') RoleCore) OriginManagement (site_packet True [1]) = Inr enc
    \<and> de_active u = renumbered (site_published Updated) 8
    \<and> receive_device_frame site site_model site_device_env (frame_data (le_frame enc)) False
        (fst (device_loop site site_model site_device_env True False 1 site_device))
      = device_request site site_model site_device_env [1] False u"
proof -
  let ?t' = "fst (device_loop site site_model site_device_env True False 1 site_device)"
  obtain s' where s': "core_loop site site_config True False [Some (render_update site_update)] site_state = Some (s', CoreDone)"
      "co_active s' = site_published Updated" using site_core_run by blast
  have "sl_device (link_new (co_active s') RoleCore) = 3"
    by (simp add: s'(2) link_new_def) (simp add: site_runtime_def)
  then obtain enc where enc: "encode_packet site (co_active s') (link_new (co_active s') RoleCore) OriginManagement (site_packet True [1]) = Inr enc"
    using site_encodes [of "co_active s'" Updated _ "site_packet True [1]"] s'(2) by auto
  have c: "selects_alike site (co_active s') (de_active ?t') RoleCore (site_packet True [1])"
    unfolding s'(2) site_device_run by (rule site_selects) simp_all
  from management_channel_survives [OF s'(1) refl _ _ _ _ _ site_codec_law site_packet_law _ enc c, where datagram = "[1]"] s' enc site_update_datagram_shape
  show ?thesis
    by (auto simp: site_active_ok site_device_ok site_device_run simp del: One_nat_def device_loop.simps core_loop.simps)
qed

lemma wait_returns_witness:
  "\<exists>m' r. wait_management_response site quiet_env site_active
     \<lparr>pr_frame = \<lparr>frame_data = [160], frame_bits = 8\<rparr>,
      pr_report = report_of OpEncode 1 (RuleId 5 3) Ordinary [] [160] 8 None None,
      pr_exchange_id = \<lparr>ex_message_id = 1, ex_token = []\<rparr>\<rparr> False 5 machine_new = Some (m', r)"
  by (rule wait_returns [where final = 6]) (simp add: quiet_env_def machine_new_def)

lemma core_program_keeps_policy_witness:
  "\<exists>t q. core_loop site site_config True False [Some (render_update site_update)] site_state = Some (t, q)
     \<and> active_ok site (co_active t) \<and> cd_protected (active_data (co_active t)) = site_protected"
proof -
  obtain t where t: "core_loop site site_config True False [Some (render_update site_update)] site_state = Some (t, CoreDone)"
    using site_core_run by blast
  have "active_ok site (co_active site_state)" using site_active_ok by simp
  from core_program_keeps_policy [OF t this] t show ?thesis by simp
qed

subsection \<open>The copy, end to end\<close>

definition site_duplicate :: duplicate_request where
  "site_duplicate = \<lparr>dr_source = selector 5 3, dr_destination = selector 9 8, dr_overrides = []\<rparr>"

lemma site_duplicate_simps [simp]:
  "dr_source site_duplicate = selector 5 3" "dr_destination site_duplicate = selector 9 8" "dr_overrides site_duplicate = []"
  by (simp_all add: site_duplicate_def)

lemma site_copy_operation: "world_copy = \<lparr>op_request = site_duplicate, op_instances = [], op_inner_payload = []\<rparr>"
  by (simp add: world_copy_def demo_operation_def site_duplicate_def)

lemma site_duplicate_command: "parse_rule_duplicate_command (render_duplicate site_duplicate) = Inr site_duplicate"
  by (rule parse_render_duplicate) (simp add: valid_duplicate_def valid_selector_def valid_overrides_def usize_bound_def)

lemma site_rule_keys [simp]:
  "rule_key site_model 1 = Inr ''ietf-schc:schc''" "rule_key site_model 2 = Inr ''rule''"
  "rule_key site_model 3 = Inr ''rule-id-length''" "rule_key site_model 4 = Inr ''rule-id-value''"
  using dup_keys by (simp_all add: rule_key_def)

lemma site_find [simp]:
  "find_tree_rule (site_tree n) site_model (selector 5 3) = Inr (Some (site_json_rule n 5 3))"
  "find_tree_rule (site_tree Copied) site_model (selector 9 8) = Inr (Some (site_json_rule Copied 9 8))"
  by (simp_all add: find_tree_rule_def tree_rules_def tree_rule_is_def site_tree_def site_json_rule_def)

lemma site_entry_copied [simp]: "site_entry Copied = site_entry Start"
  by (simp add: site_entry_def)

lemma site_duplicated [simp]:
  "duplicated_tree site_model demo_sids (site_tree Start) (selector 9 8) (site_json_rule Start 5 3) = Inr (site_tree Copied)"
  by (simp add: duplicated_tree_def copied_rule_def set_tree_rule_key_def tree_rules_def set_tree_rules_def
      insert_tree_rule_def tree_rule_is_def unwrap_or_zero_def site_tree_def site_json_rule_def)

lemma site_checked: "check_duplicate_rules (ac_snapshot site_active) site_duplicate msg = Inr (site_rule Start 5 3)"
  by (simp add: check_duplicate_rules_def selector_id_def site_application_rules_def site_rule_def site_management_rule_def)

lemma site_rpc_bytes: "site_write site_rpc = [7, 7]"
  by (simp add: site_write_def) (simp add: site_rpc_def site_sor_def site_filtered_def)

lemma site_copy_datagram: "duplicate_rule_datagram site site_model site_active site_duplicate 0 = Inr [3]"
proof -
  have "duplicate_inner_payload site site_model (ac_snapshot site_active) site_duplicate = Inr []"
    by (simp add: duplicate_inner_payload_def site_checked)
  moreover have "duplicate_rpc_value demo_sids site_duplicate [] = Inr site_rpc"
    by (simp add: duplicate_rpc_value_def sid_delta_def i64_checked_sub_def i64_max_def u32_bound_def cbor_nat_def site_rpc_def Let_def)
  ultimately show ?thesis
    by (simp add: duplicate_rule_datagram_def duplicate_rule_payload_def encode_duplicate_rpc_payload_def site_rpc_bytes
        site_copy_packet_def [symmetric])
qed

lemma site_copy_decoded: "decode_duplicate_operation site site_model [7, 7] = Inr world_copy"
proof -
  have s: "strict_one_cbor_map site [7, 7] = Inr site_rpc"
    by (simp add: strict_one_cbor_map_def site_rpc_bytes) (simp add: site_rpc_def)
  have k: "reject_duplicate_cbor_keys site_rpc = Inr ()"
    by (simp add: reject_duplicate_cbor_keys_def site_rpc_def)
  have i: "decode_duplicate_inner site site_model [] (selector 9 8) demo_sids = Inr []"
    by (simp add: decode_duplicate_inner_def decode_inner_loop.simps)
  have sel: "selector_new 5 3 = Inr (selector 5 3)" "selector_new 9 8 = Inr (selector 9 8)"
    by (simp_all add: selector_new_def)
  show ?thesis
    by (simp add: decode_duplicate_operation_def s k rpc_input_def site_rpc_instance_def rpc_selector_def bounded_u64_def
        usize_bound_def inner_bytes_def i sel site_copy_operation site_duplicate_def)
qed

lemma site_copied:
  "handle_datagram_no_response site site_model site_active [3] = (site_published Copied, Answered (Inr None))"
proof -
  have e: "expected_duplicate_tree site site_model (ac_snapshot site_active) site_duplicate [] = Inr (site_tree Copied)"
    by (simp add: expected_duplicate_tree_def site_checked)
  have f: "List.find (\<lambda>r. rule_id_of r = RuleId 9 8) (site_management_rule # site_application_rules Start) = None"
    by (simp add: site_management_rule_def site_application_rules_def site_rule_def)
  have "apply_duplicate_operation site site_model site_active world_copy
      = (site_published Copied, Answered (Inr (Applied 2 (cd_tag (pc_data (site_prepared Copied))))))"
    by (simp add: apply_duplicate_operation_def duplicate_candidate_def site_copy_operation e f selector_id_def
        site_candidate publish_and_def site_publish Let_def del: List.find.simps)
  moreover have "is_duplicate_rule_coap_shape site_copy_packet"
    by (simp add: is_duplicate_rule_coap_shape_def site_copy_packet_def duplicate_rule_packet_def base_request_def add_option_def
        get_option_def option_numbers)
  moreover have "lp_payload site_copy_packet = [7, 7]" by (simp add: site_copy_packet_def duplicate_rule_packet_def)
  ultimately show ?thesis
    by (simp add: handle_datagram_no_response_def site_lite_def site_copy_decoded)
qed

lemma site_copy_executed:
  "\<exists>t. execute_rule_duplicate site site_config (render_duplicate site_duplicate) (send_duplicate site site_config) site_state
     = Some (t, Inr CommandSuccessful) \<and> co_active t = site_published Copied"
proof -
  let ?u = "fst (fresh_id site_state)"
  obtain enc where enc: "encode_packet site site_active (link_new site_active RoleCore) OriginManagement (site_packet True [3]) = Inr enc"
      "frame_data (le_frame enc) = [32, 0, 3]"
    using site_encodes [of site_active Start "link_new site_active RoleCore" "site_packet True [3]"] by (auto simp: site_packet_def)
  note printed = encoded_report_prints [OF enc(1), of Tx "co_machine site_state"]
  have sent: "snd (send_duplicate site site_config [3] ?u) = Inr ()"
    by (simp add: send_duplicate_def enc(1) case_prod_beta and_then_ok [OF printed] fail_as_def do_send_def send_frame_def
        send_bytes_def enc(2) site_env_def)
  obtain v where v: "send_duplicate site site_config [3] ?u = (v, Inr ())" "co_active v = site_active"
    using sent send_duplicate_active [of site site_config "[3]" ?u] by (cases "send_duplicate site site_config [3] ?u") auto
  show ?thesis
    using v by (simp add: execute_rule_duplicate_def try_or_def site_duplicate_command site_copy_datagram case_prod_beta
        apply_duplicate_locally_def site_copied Let_def)
qed

text \<open>After the copy, and the frame it left on the link, both sides have the rule 9/8.\<close>

lemma duplicate_reaches_device_witness:
  "\<exists>t (frame :: schc_frame). execute_rule_duplicate site site_config (render_duplicate site_duplicate)
        (send_duplicate site site_config) site_state = Some (t, Inr CommandSuccessful)
    \<and> RuleId 9 8 \<in> set (cd_rule_ids (active_data (co_active t)))
    \<and> RuleId 9 8 \<in> set (cd_rule_ids (active_data (de_active
        (fst (receive_device_frame site site_model quiet_env (frame_data frame) False site_device)))))"
proof -
  obtain t where t: "execute_rule_duplicate site site_config (render_duplicate site_duplicate) (send_duplicate site site_config) site_state
      = Some (t, Inr CommandSuccessful)" "co_active t = site_published Copied" using site_copy_executed by blast
  have "RuleId 9 8 \<in> set (cd_rule_ids (active_data (co_active t)))"
    by (simp add: t(2) site_application_rules_def site_rule_def)
  with duplicate_reaches_device [OF t(1), of site_device quiet_env] site_laws t(1) show ?thesis
    by (simp add: site_active_ok site_device_ok) metis
qed

subsection \<open>The context check, end to end\<close>

lemma site_hash_law: "hash_law site"
  by (auto simp: hash_law_def site_hash_def min_def)

lemma site_content_law: "content_law site"
proof -
  have "lite_from_bytes site response = Inr (content_response payload) \<and> lp_message_id request = 0 \<and> lp_token request = []"
    if "packet_without_content_format site request (ContentResponse payload f) = Inr response" for request payload f response
    using that
    by (auto simp: packet_without_content_format_def site_respond_def site_response_bytes_def clear_option_def
        content_response_def site_response_def split: if_splits)
  then show ?thesis
    by (fastforce simp: content_law_def answers_request_def content_response_def site_response_def split: sum.splits)
qed

lemma site_tag [simp]: "cd_tag (pc_data (site_prepared n)) = site_tag n"
proof -
  have bytes: "be_bytes 8 (length [b]) = [0, 0, 0, 0, 0, 0, 0, 1]" for b :: byte
  proof -
    let ?bs = "[0, 0, 0, 0, 0, 0, 0, 1] :: bytes"
    have "length ?bs = 8" and "be_nat ?bs = length [b]" by (simp_all add: be_nat_def)
    with be_bytes_be_nat [of ?bs] show ?thesis by (simp only:)
  qed
  have hashed: "digest_input [b] [b] = (digest_domain @ [0, 0, 0, 0, 0, 0, 0, 1, b]) @ [0, 0, 0, 0, 0, 0, 0, 1, b]" for b
    unfolding digest_input_def bytes by (simp only: append.simps append_assoc)
  have "take 8 (site_hash (start @ [0, 0, 0, 0, 0, 0, 0, 1, b])) = [b, 1, 0, 0, 0, 0, 0, 0]" for start b
    by (simp add: site_hash_def)
  then have "take 8 (site_hash (digest_input [b] [b])) = [b, 1, 0, 0, 0, 0, 0, 0]" for b
    unfolding hashed .
  then show ?thesis
    by (cases n) (simp_all add: site_prepared_def context_tag_def context_tag_len_def site_bytes_def site_tag_def Let_def)
qed

text \<open>A device at a stage of its own.\<close>

definition site_device_at :: "stage \<Rightarrow> device_state" where
  "site_device_at n = \<lparr>de_active = renumbered (site_published n) 8, de_machine = machine_new\<rparr>"

definition site_check_reply :: "stage \<Rightarrow> bytes" where
  "site_check_reply n = 5 # context_check_payload (site_tag Start) (site_tag n)"

definition site_check_config :: "stage \<Rightarrow> core_config" where
  "site_check_config n = site_config\<lparr>cfg_env := site_env (32 # 1 # site_check_reply n)\<rparr>"

lemma site_check_shape: "lp_token site_check_packet = []" "lp_message_id site_check_packet = 0"
    "\<not> is_duplicate_rule_coap_shape site_check_packet"
  by (simp_all add: site_check_packet_def)

lemma site_check_request: "context_check_request site (site_tag Start) 0 = Some [4]"
  by (simp add: context_check_request_def site_check_packet_def [unfolded check_packet_def, symmetric])

lemma site_check_handled:
  "handle_datagram site model (renumbered (site_published n) 8) [4]
     = (renumbered (site_published n) 8, Answered (Inr (site_check_reply n)))"
proof -
  have "lite_to_bytes site (check_packet (site_tag Start) 0) = Inr [4]" and "length (site_tag Start) = 8"
    by (simp_all add: site_check_packet_def [symmetric]) (simp add: site_tag_def)
  from check_handled [OF site_readback this, of model "renumbered (site_published n) 8"] show ?thesis
    by (simp add: packet_without_content_format_def site_respond_def site_response_bytes_def clear_option_def
        content_response_def site_response_def site_check_reply_def)
qed

lemma site_check_prepares:
  "\<exists>prepared. fst (prepare_management_request site site_active (link_new site_active RoleCore) [4] EmptyToken 0) = Inr prepared
    \<and> frame_data (pr_frame prepared) = [32, 0, 4]"
  by (rule site_prepares [of 4 site_check_packet]) (simp_all add: site_check_shape)

text \<open>The core is at the first stage: a device that has been updated is told apart, one that has not is not.\<close>

lemma context_check_detects_witness:
  "(\<exists>t. handle_command site (site_check_config Updated) ''context check'' site_state = Some (t, Inr CommandSuccessful)
      \<and> last (ma_printed (co_machine t)) = ''ERROR context check  mismatch'' @ [CHR 0x0A]) \<and>
   (\<exists>t. handle_command site (site_check_config Start) ''context check'' site_state = Some (t, Inr CommandSuccessful)
      \<and> last (ma_printed (co_machine t)) = ''OK context check  equal'' @ [CHR 0x0A])"
proof -
  have run: "\<exists>t. handle_command site (site_check_config n) ''context check'' site_state = Some (t, Inr CommandSuccessful)
      \<and> last (ma_printed (co_machine t)) = verdict (site_tag Start) (site_tag n)" for n
  proof -
    let ?b = "renumbered (site_published n) 8" and ?a = "site_check_reply n"
    obtain prepared where prepared: "fst (prepare_management_request site site_active (link_new site_active RoleCore) [4] EmptyToken 0)
        = Inr prepared" "frame_data (pr_frame prepared) = [32, 0, 4]" using site_check_prepares by blast
    obtain renc where renc: "encode_packet site ?b (link_new ?b RoleDevice) OriginManagement (site_packet False ?a) = Inr renc"
        "frame_data (le_frame renc) = 32 # 1 # ?a" using site_answers [OF refl, of n 8 ?a] by blast
    have alike: "selects_alike site site_active ?b RoleCore p" "selects_alike site ?b site_active RoleDevice p" for p
      by (rule site_selects; simp)+
    have ok: "active_ok site ?b" by (rule site_renumbered_ok) (simp_all add: u64_bound_def)
    have link: "delivers (site_env (32 # 1 # ?a)) 0 (pr_frame prepared) (32 # 1 # ?a)"
      using prepared(2) by (rule site_delivers) (simp_all add: site_check_reply_def context_check_payload_def site_tag_def)
    have taken: "send_frame (link_send (taking (length (32 # 1 # ?a))) k) (le_frame renc) = Inr ()" for k
      using taking_takes [of "le_frame renc" k] renc(2) by simp
    from context_check_detects [of site site_state "site_device_at n" "site_check_config n" "[4]" prepared "site_packet True [4]"
        ?a "site_packet False ?a" renc "taking (length (32 # 1 # ?a))"] show ?thesis
      using prepared renc alike ok link taken site_check_request site_check_handled [of "cfg_model (site_check_config n)" n]
      by (simp add: site_active_ok site_laws site_readback site_content_law site_hash_law site_device_at_def site_check_config_def) blast
  qed
  have "verdict (site_tag Start) (site_tag Updated) = ''ERROR context check  mismatch'' @ [CHR 0x0A]"
    and "verdict (site_tag Start) (site_tag Start) = ''OK context check  equal'' @ [CHR 0x0A]"
    by (simp_all add: verdict_def site_tag_def site_bytes_def)
  with run [of Updated] run [of Start] show ?thesis by metis
qed

end
