(* ===== verification/Spec2Isabelle.thy ===== *)
theory Spec2Isabelle
  imports Breakdown Planner Remote DataPrograms Startup Site
begin

text \<open>
  A verification library for \<open>schc-coreconf\<close>, the crate that manages a SCHC rule context over
  CORECONF. All paths below are under \<open>src/crates/schc-coreconf/src\<close>.

  \<^bold>\<open>The program.\<close> Two endpoints, the core and the device, hold the same rule context and compress
  the IPv6/UDP packets between them with it. The context is data of a YANG datastore, so the rules
  are read, patched and copied by CoAP requests which travel, compressed, over the same link. A
  context is loaded from a SID model and a binary datastore, checked, and published as a snapshot
  with a generation, a digest and a tag (\<open>context.rs\<close>, \<open>codec.rs\<close>). Rules of the management nature
  are protected: every candidate context must keep them as they are (\<open>policy.rs\<close>). New rules get
  their RuleIDs from a namespace of bit strings (\<open>allocation.rs\<close>). The link classifies every packet
  by the rule that carries it (\<open>link.rs\<close>); the management service of the device answers reads,
  patches and copies (\<open>management.rs\<close>, \<open>management/duplicate.rs\<close>); the core has a console which sends
  an update to the device first and then applies it to its own context. A datastore service for
  applications and its client (\<open>application.rs\<close>) run beside them, and four programs drive it all
  (\<open>bin\<close>).

  \<^bold>\<open>The theories\<close>, in the order of their imports:
    \<^item> \<open>Prelude\<close>: fallible steps (\<open>attempt\<close>, \<open>try_all\<close>, \<open>fold_err\<close>, \<open>and_then\<close>), machine integers as
      naturals with the bounds and the checked operations of the code, decimal text, and the
      interface of an encoder and its decoder. \<open>Values\<close>: JSON and CBOR values. \<open>Utf8\<close>: the two UTF-8
      readers of the standard library.
    \<^item> \<open>Allocation\<close> (\<open>allocation.rs\<close>), \<open>Codec\<close> (\<open>codec.rs\<close>), \<open>Rules\<close> (\<open>policy.rs\<close>), \<open>Context\<close>
      (\<open>context.rs\<close>, \<open>lib.rs\<close>): \<open>active_context\<close> is the state behind the mutex of \<open>ActiveContext\<close>, and
      \<open>publication\<close> and \<open>system_step\<close> are its steps. A mutex is the atomicity of one step.
    \<^item> \<open>Packets\<close>, \<open>Link\<close> (\<open>link.rs\<close>, \<open>packet_loop.rs\<close>): encoding, decoding, routes, origins, reports.
    \<^item> \<open>Selectors\<close>, \<open>Details\<close>, \<open>Instances\<close>, \<open>Flows\<close>, \<open>Base64\<close>, \<open>Duplicate\<close>, \<open>Exchange\<close>, \<open>Updates\<close>,
      \<open>Device\<close>, \<open>Planner\<close>, \<open>Remote\<close>, \<open>Breakdown\<close> (\<open>management.rs\<close>, \<open>management/duplicate.rs\<close>): the
      console commands and the readable rules, the paths of the datastore, the overrides a packet
      asks of a rule, the duplicate operation with its encoder and strict decoder, the exchange of
      one request and its response, the update on both sides, the inspection service, the choice of
      a parent and a RuleID for a new flow, the decoding of responses, and the account of bits.
    \<^item> \<open>CoapCost\<close>, \<open>Report\<close> (\<open>report.rs\<close>): the byte costs of a packet and their rendering.
    \<^item> \<open>Process\<close>, \<open>Endpoint\<close> (\<open>bin/schc-coreconf-device.rs\<close>), \<open>Console\<close>
      (\<open>bin/schc-coreconf-core.rs\<close>), \<open>Arguments\<close> (\<open>bin/common/mod.rs\<close> and the parsers of the data
      programs), \<open>Application\<close> (\<open>application.rs\<close>), \<open>DataPrograms\<close> (\<open>bin/schc-data-server.rs\<close>,
      \<open>bin/schc-data-client.rs\<close>), \<open>Startup\<close> (both \<open>run\<close> functions with the loading of the files).
    \<^item> The two endpoints together: \<open>Replicas\<close> (the service on two contexts), \<open>Channel\<close> (the frames of
      the management plane from one program to the other), \<open>Rounds\<close> (a copy and an update from the
      terminal of the core to the device and back), \<open>Divergence\<close> (the context check, on two contexts
      that may differ), \<open>Site\<close> (a concrete pair of endpoints, with the
      witnesses of the theorems about the console and about both programs).

  \<^bold>\<open>How the code is read.\<close> A struct is a record, an enum a datatype, a \<open>Result\<close> a sum whose left side
  is the error with its message as the code formats it. A method that changes its receiver returns
  it. Bytes are 8-bit words; \<open>usize\<close> and \<open>u64\<close> values are naturals, and where the code checks for
  overflow so does the model; an unchecked counter that would panic is a result of its own
  (\<open>CounterPanic\<close>, \<open>Panicked\<close>, \<open>Aborted\<close>). A \<open>BTreeMap\<close> is the list of its entries in key order, with
  the derived order of the key as an instance of \<open>linorder\<close>. What the crates beside this one do (CBOR,
  SHA-256, JSON, SID models, the packet codecs, the SCHC runtime, the CORECONF handler and
  datastore) are the fields of an argument \<open>x\<close>, a record that each layer extends; what a property
  needs of them is a named hypothesis, which a witness discharges for concrete functions. Sockets, the TUN
  device, the clock, the files and the terminal are in a \<open>process_env\<close>, \<open>data_env\<close> or \<open>start_env\<close>: the
  n-th call gets the n-th answer, any answer at all, and a \<open>machine\<close> records what was sent, written
  and printed: a frame, packet or response counts when the call has taken all of it. The programs
  therefore hold for every peer and every order of arrivals. Standard output is assumed to be open:
  the panic of a failed \<open>println!\<close> is not a result of the model. An unchecked sum of \<open>i64\<close> wraps, as in a
  release build; floats are bit patterns, compared as numbers where they are keys of a CBOR map.

  \<^bold>\<open>What is shown.\<close>
    \<^item> Policy. Every operation of the context, the service and both programs is a run of publications
      (\<open>kept_run\<close>), so from the command line to any later turn the context stays coherent, keeps its
      protected rules and construction parameters and never goes back a generation
      (\<open>device_run_keeps_policy\<close>, \<open>core_program_keeps_policy\<close>, \<open>run_keeps_protected_rules\<close>). Replacing the
      datastore is a compare-and-swap on the digest (\<open>replace_tree_cas\<close>, \<open>no_lost_update\<close>).
    \<^item> Operations. A patch and a copy happen only under all of their guards (\<open>ipatch_guarded\<close>,
      \<open>duplicate_never_overwrites\<close>, \<open>expected_duplicate_guards\<close>); a copy can be sent again; a console
      update changes the device first and leaves both contexts equal
      (\<open>update_changes_device_first\<close>, \<open>update_leaves_contexts_equal\<close>).
    \<^item> Both endpoints. Two services that start from the same tree answer every sequence of datagrams alike
      and stay equal up to their generations (\<open>replicas_agree\<close>). After any run of both programs a
      management request that the core can send still reaches the service of the device
      (\<open>management_channel_survives\<close>), because every run keeps the protected rules. A copy or an update
      that the console reports as done leaves one frame on the link which brings a device in step to
      the same context (\<open>duplicate_reaches_device\<close>, \<open>update_reaches_both_ends\<close>), and over a link that is
      quiet until it delivers the answer, before the deadline (\<open>delivers\<close>), an acceptable update ends in
      success on both sides (\<open>update_completes\<close>). When the two contexts have come apart without changing
      how the management packets are compressed, the console's context check says so exactly when their
      tags differ, and it changes neither (\<open>context_check_detects\<close>). All of these take the device, and
      the last two also the core, with the debug option off: with it a report that fails stops the
      exchange (\<open>debug_report_is_fatal\<close>). The hypotheses on the libraries are \<open>packet_law\<close>,
      \<open>codec_law\<close>, \<open>coap_readback\<close>, \<open>content_law\<close> and \<open>hash_law\<close> (\<open>Channel\<close>, \<open>Rounds\<close>, \<open>Divergence\<close>):
      packets are read as they were made, the codec works rule by rule, what the CoAP library writes it
      reads back, a content response answers its request, and a hash has 32 bytes. That both contexts select the same rule for a packet is a hypothesis of its own
      (\<open>selects_alike\<close>): an application rule that fits a management packet better would be selected for
      it, and the link would refuse the frame.
    \<^item> Planes. A packet is sent only under a rule of its origin, delivered to its peer as it was sent, and on
      the device the application plane never reaches the context and a management frame never reaches the TUN
      device (\<open>encode_respects_origin\<close>, \<open>link_delivers\<close>, \<open>device_isolates_planes\<close>).
    \<^item> Allocation is sound, least, complete and free of overflow; the flow planner is sound; target
      matching is characterised, with its defect for fields that do not fill their bytes.
    \<^item> Codecs: base64, commands, paths, the canonical datastore, the option walk of a CoAP message and the rule
      list of a response are exact inverses or exact characterisations; reports and bit breakdowns
      add up to the packet.
    \<^item> Programs: the wait for a response ends, the device stops only for its environment, a server
      turn answers once and only its sender, the parsers accept only arguments the programs can use.

  \<^bold>\<open>Interfaces.\<close> \<open>codec_pair\<close> and \<open>canonical_codec\<close> (\<open>Prelude\<close>) are interpreted for selector text, leaf
  bytes, base64 and the context check; \<open>leaf_allocator\<close> for \<open>allocate\<close>; \<open>publisher\<close> (\<open>Context\<close>), the
  contract of everything that publishes, for one writer, for the shared system and for the device
  service.

  \<^bold>\<open>Loops.\<close> A recursion on a list or on a shrinking input is total. \<open>decode_inner_loop\<close> and \<open>cost_loop\<close>
  take as many turns as there are bytes, which is enough for a reader that advances
  (\<open>decode_inner_terminates\<close>). The endless loops of the programs take the number of turns
  (\<open>device_loop\<close>, \<open>serve_turns\<close>) or one console input per turn (\<open>core_loop\<close>), and the theorems hold for
  all of them. \<open>wait_loop\<close> and \<open>receive_datagram\<close> may run for ever and are partial functions;
  \<open>wait_returns\<close> and \<open>server_turn_returns\<close> say when they return. Message IDs run modulo 128, the window of the
  compressed message ID.

  \<^bold>\<open>Not modelled.\<close> \<open>packet.rs\<close> only re-exports types. Opening sockets and TUN devices, the thread that
  reads console lines and the test for a terminal are system calls whose results are inputs here.
  \<open>Debug\<close> implementations appear only in error texts and are functions of \<open>x\<close>. The compression ratio of a
  link report is a float that nothing else reads. Accessors and constructors that only read or fill the fields of
  a struct carry no behaviour of their own. Tests are not modelled.
\<close>

end
